(* ===== verification/Prelude.thy ===== *)
theory Prelude
  imports Main "HOL-Library.Finite_Map" "HOL-Library.List_Lexorder" "HOL-Library.Char_ord"
    "HOL-Library.Word" "HOL-Library.Sublist"
begin

text \<open>
  What every component shares: the error values, results, the state-and-error monad in which
  the storage transaction is written, Go maps as finite maps, and the collections
  that carry the component proofs.

  Errors.  Go code returns \<open>error\<close> values and compares them with \<open>errors.Is\<close>.  Every
  sentinel the repository declares is a constructor here; an error made on the spot with
  \<open>errors.New\<close> is \<open>ErrText\<close> with its text.  \<open>fmt.Errorf("%w: ...", sentinel, ...)\<close> is
  the sentinel: the added text is never inspected by the program.
\<close>

datatype error =
    ErrNotFound | ErrDuplicateID | ErrConflictScope | ErrClosed | ErrExpiredMessage
  | ErrTaskTerminal | ErrIntegrity
  | ErrRevisionConflict | ErrInvalidTransition
  | ErrInvalidProtocolVersion | ErrInvalidDescriptor | ErrSensitiveField
  | ErrInvalidPayloadValue | ErrUnsupportedMessage
  | ErrEvidenceScope | ErrMessageIDCollision | ErrStaleOwnership
  | ErrInvalid | ErrUnsupported | ErrDenied | ErrUnavailable | ErrLimit | ErrProvider
  | ErrWire | ErrCleanup | ErrEOF | ErrShortWrite
  | ErrConfig | ErrInputs | ErrExisting | ErrTaskNotFound | ErrReceipt
  | DeadlineExceeded | Canceled
  | ErrText string
  | ErrJoin error error

text \<open>\<open>errors.Is\<close>: a joined error (\<open>errors.Join\<close>) is each of its parts.\<close>

fun errors_is :: "error \<Rightarrow> error \<Rightarrow> bool" where
  "errors_is (ErrJoin a b) t = (ErrJoin a b = t \<or> errors_is a t \<or> errors_is b t)"
| "errors_is e t = (e = t)"

type_synonym 'a result = "error + 'a"

section \<open>Collections\<close>

named_theorems tx_defs \<open>definitions of the storage operations, unfolded together\<close>
named_theorems run_simps \<open>success characterisations of monadic operations\<close>
named_theorems demo_defs \<open>the concrete data of the witnesses\<close>

section \<open>State and error\<close>

text \<open>
  A Go function that reads and writes the transaction and may return an error is a function
  from the state to a result and the state it leaves behind; the state is also returned with
  an error, since the writes made before the error have happened.
\<close>

type_synonym ('s, 'a) st = "'s \<Rightarrow> 'a result \<times> 's"

definition retS :: "'a \<Rightarrow> ('s, 'a) st" where
  "retS v = (\<lambda>s. (Inr v, s))"

definition failS :: "error \<Rightarrow> ('s, 'a) st" where
  "failS e = (\<lambda>s. (Inl e, s))"

definition bindS :: "('s, 'a) st \<Rightarrow> ('a \<Rightarrow> ('s, 'b) st) \<Rightarrow> ('s, 'b) st" where
  "bindS m f = (\<lambda>s. case m s of (Inl e, s') \<Rightarrow> (Inl e, s') | (Inr v, s') \<Rightarrow> f v s')"

text \<open>\<open>if err := m(); err == nil \<dots> else \<dots>\<close>: both outcomes are handled.\<close>

definition tryS :: "('s, 'a) st \<Rightarrow> ('a result \<Rightarrow> ('s, 'b) st) \<Rightarrow> ('s, 'b) st" where
  "tryS m f = (\<lambda>s. case m s of (r, s') \<Rightarrow> f r s')"

definition liftR :: "'a result \<Rightarrow> ('s, 'a) st" where
  "liftR r = (\<lambda>s. (r, s))"

text \<open>\<open>for _, x := range xs { if err := f(x); err != nil { return err } }\<close>\<close>

fun forS :: "'a list \<Rightarrow> ('a \<Rightarrow> ('s, unit) st) \<Rightarrow> ('s, unit) st" where
  "forS [] f = retS ()"
| "forS (x # xs) f = bindS (f x) (\<lambda>_. forS xs f)"

lemma retS_eq [run_simps]: "retS v s = (r, s') \<longleftrightarrow> r = Inr v \<and> s' = s"
  by (auto simp: retS_def)

lemma failS_eq [run_simps]: "failS e s = (r, s') \<longleftrightarrow> r = Inl e \<and> s' = s"
  by (auto simp: failS_def)

lemma liftR_eq [run_simps]: "liftR r0 s = (r, s') \<longleftrightarrow> r0 = r \<and> s' = s"
  by (auto simp: liftR_def)

lemma bindS_Inr [run_simps]:
  "bindS m f s = (Inr v, s') \<longleftrightarrow> (\<exists>x s1. m s = (Inr x, s1) \<and> f x s1 = (Inr v, s'))"
  by (auto simp: bindS_def split: prod.splits sum.splits)

lemma bindS_Inl:
  "bindS m f s = (Inl e, s') \<longleftrightarrow>
     m s = (Inl e, s') \<or> (\<exists>x s1. m s = (Inr x, s1) \<and> f x s1 = (Inl e, s'))"
  by (auto simp: bindS_def split: prod.splits sum.splits)

lemma bindS_run: "m s = (Inr x, s1) \<Longrightarrow> bindS m f s = f x s1"
  by (simp add: bindS_def)

lemma bindS_err: "m s = (Inl e, s1) \<Longrightarrow> bindS m f s = (Inl e, s1)"
  by (simp add: bindS_def)

lemma tryS_eq [run_simps]:
  "tryS m f s = (r, s') \<longleftrightarrow> (\<exists>x s1. m s = (x, s1) \<and> f x s1 = (r, s'))"
  by (auto simp: tryS_def split: prod.splits)

text \<open>A guard of the form \<open>if bad { return err }\<close>.\<close>

lemma if_fail_Inr [run_simps]:
  "(if b then failS e else m) s = (Inr v, s') \<longleftrightarrow> \<not> b \<and> m s = (Inr v, s')"
  by (simp add: failS_eq)

text \<open>
  An operation keeps \<open>I\<close> when every successful run from a state with \<open>I\<close> ends in one; what
  an erroneous run leaves behind is rolled back and is not constrained.
\<close>

definition keepsS :: "('s \<Rightarrow> bool) \<Rightarrow> ('s, 'a) st \<Rightarrow> bool" where
  "keepsS I m \<longleftrightarrow> (\<forall>s v s'. I s \<longrightarrow> m s = (Inr v, s') \<longrightarrow> I s')"

lemma keepsSI: "(\<And>s v s'. I s \<Longrightarrow> m s = (Inr v, s') \<Longrightarrow> I s') \<Longrightarrow> keepsS I m"
  by (auto simp: keepsS_def)

lemma keepsSD: "keepsS I m \<Longrightarrow> I s \<Longrightarrow> m s = (Inr v, s') \<Longrightarrow> I s'"
  by (auto simp: keepsS_def)

lemma keepsS_ret: "keepsS I (retS v)"
  and keepsS_fail: "keepsS I (failS e)"
  and keepsS_lift: "keepsS I (liftR r)"
  by (auto simp: keepsS_def retS_def failS_def liftR_def)

lemma keepsS_bind:
  "keepsS I m \<Longrightarrow> (\<And>v. keepsS I (f v)) \<Longrightarrow> keepsS I (bindS m f)"
  unfolding keepsS_def bindS_Inr by meson

lemma keepsS_for: "(\<And>x. x \<in> set xs \<Longrightarrow> keepsS I (f x)) \<Longrightarrow> keepsS I (forS xs f)"
proof (induction xs)
  case Nil
  show ?case by (simp add: keepsS_ret)
next
  case (Cons x xs)
  then show ?case by (simp add: keepsS_bind)
qed

section \<open>Results\<close>

definition bindR :: "'a result \<Rightarrow> ('a \<Rightarrow> 'b result) \<Rightarrow> 'b result" where
  "bindR r f = (case r of Inl e \<Rightarrow> Inl e | Inr v \<Rightarrow> f v)"

definition guardR :: "bool \<Rightarrow> error \<Rightarrow> unit result" where
  "guardR b e = (if b then Inr () else Inl e)"

lemma bindR_simps [simp]: "bindR (Inl e) f = Inl e" "bindR (Inr v) f = f v"
  by (simp_all add: bindR_def)

lemma bindR_Inr [run_simps]: "bindR r f = Inr v \<longleftrightarrow> (\<exists>x. r = Inr x \<and> f x = Inr v)"
  by (auto simp: bindR_def split: sum.splits)

lemma guardR_eq [run_simps]: "guardR b e = Inr u \<longleftrightarrow> b"
  by (auto simp: guardR_def)

section \<open>Go maps\<close>

text \<open>
  A Go map is a finite map.  Go's iteration order is unspecified; \<open>go_range\<close> visits the
  entries in the order of their keys, and the code's results do not depend on it.
\<close>

abbreviation go_range :: "('k::linorder, 'v) fmap \<Rightarrow> ('k \<times> 'v) list" where
  "go_range m \<equiv> sorted_list_of_fmap m"

lemma set_go_range: "set (go_range m) = {(k, v). fmlookup m k = Some v}"
  by (auto simp: sorted_list_of_fmap_def fmlookup_dom_iff image_iff)

lemma in_go_range [simp]: "(k, v) \<in> set (go_range m) \<longleftrightarrow> fmlookup m k = Some v"
  by (simp add: set_go_range)

lemma sorted_go_range: "sorted (map fst (go_range m))" "distinct (map fst (go_range m))"
proof -
  have "sorted (sorted_list_of_fset S) \<and> distinct (sorted_list_of_fset S)"
    for S :: "'a::linorder fset"
    by (simp add: sorted_list_of_fset.rep_eq)
  then show "sorted (map fst (go_range m))" "distinct (map fst (go_range m))"
    by (simp_all add: sorted_list_of_fmap_def comp_def)
qed

declare sorted_go_range [simp]

text \<open>The values visited by \<open>for _, v := range m\<close> and the keys visited by \<open>for k := range m\<close>.\<close>

abbreviation go_values :: "('k::linorder, 'v) fmap \<Rightarrow> 'v list" where
  "go_values m \<equiv> map snd (go_range m)"

abbreviation go_keys :: "('k::linorder, 'v) fmap \<Rightarrow> 'k list" where
  "go_keys m \<equiv> map fst (go_range m)"

lemma set_go_values: "set (go_values m) = {v. \<exists>k. fmlookup m k = Some v}"
  by (force simp: set_go_range)

lemma in_go_values [simp]: "v \<in> set (go_values m) \<longleftrightarrow> (\<exists>k. fmlookup m k = Some v)"
  by (simp only: set_go_values mem_Collect_eq)

lemma list_ex_go_values [simp]:
  "list_ex P (go_values m) \<longleftrightarrow> (\<exists>k v. fmlookup m k = Some v \<and> P v)"
  using set_go_values[of m] by (auto simp: list_ex_iff simp del: in_go_values set_map)

lemma set_go_keys: "set (go_keys m) = {k. \<exists>v. fmlookup m k = Some v}"
  by (force simp: set_go_range)

text \<open>\<open>m[k]\<close> with its \<open>ok\<close>, as \<open>get\<close> of the stores wants it: a deletion loop that removes the
  entries whose value satisfies \<open>P\<close>.\<close>

definition delete_where :: "('v \<Rightarrow> bool) \<Rightarrow> ('k, 'v) fmap \<Rightarrow> ('k, 'v) fmap" where
  "delete_where P m = fmfilter (\<lambda>k. case fmlookup m k of None \<Rightarrow> False | Some v \<Rightarrow> \<not> P v) m"

lemma lookup_delete_where [simp]:
  "fmlookup (delete_where P m) k =
     (case fmlookup m k of None \<Rightarrow> None | Some v \<Rightarrow> if P v then None else Some v)"
  by (auto simp: delete_where_def split: option.splits)

lemma delete_where_Some:
  "fmlookup (delete_where P m) k = Some v \<longleftrightarrow> fmlookup m k = Some v \<and> \<not> P v"
  by (auto split: option.splits if_splits)

text \<open>
  \<open>grows R m m'\<close>: no key of \<open>m\<close> is gone in \<open>m'\<close>, and each value is related to its successor.
\<close>

definition grows :: "('v \<Rightarrow> 'v \<Rightarrow> bool) \<Rightarrow> ('k, 'v) fmap \<Rightarrow> ('k, 'v) fmap \<Rightarrow> bool" where
  "grows R m m' \<longleftrightarrow> (\<forall>k v. fmlookup m k = Some v \<longrightarrow> (\<exists>v'. fmlookup m' k = Some v' \<and> R v v'))"

lemma growsD: "grows R m m' \<Longrightarrow> fmlookup m k = Some v \<Longrightarrow> \<exists>v'. fmlookup m' k = Some v' \<and> R v v'"
  by (simp add: grows_def)

lemma grows_refl: "(\<And>v. R v v) \<Longrightarrow> grows R m m"
  by (auto simp: grows_def)

lemma grows_insert: "(\<And>v. R v v) \<Longrightarrow> fmlookup m k = None \<Longrightarrow> grows R m (fmupd k w m)"
  by (auto simp: grows_def)

lemma grows_update:
  "(\<And>v. R v v) \<Longrightarrow> fmlookup m k = Some v0 \<Longrightarrow> R v0 w \<Longrightarrow> grows R m (fmupd k w m)"
  by (auto simp: grows_def)

lemma grows_trans:
  assumes trans: "\<And>x y z. R x y \<Longrightarrow> R y z \<Longrightarrow> R x z" and 1: "grows R m1 m2" and 2: "grows R m2 m3"
  shows "grows R m1 m3"
  unfolding grows_def
proof (intro allI impI)
  fix k v
  assume "fmlookup m1 k = Some v"
  from growsD[OF 1 this] obtain v2 where "fmlookup m2 k = Some v2" and a: "R v v2" by blast
  from growsD[OF 2 this(1)] obtain v3 where "fmlookup m3 k = Some v3" and "R v2 v3" by blast
  with a trans show "\<exists>v'. fmlookup m3 k = Some v' \<and> R v v'" by blast
qed

end
