(* ===== verification/GoStd.thy ===== *)
theory GoStd
  imports Prelude
begin

text \<open>
  The part of Go's standard library the program's decisions rest on: instants and durations,
  the string functions used by the validators, and \<open>context.Context\<close> as the answers it gives.

  Time.  A \<open>time.Time\<close> is the number of nanoseconds since the zero instant, 1 January of year 1
  UTC, so \<open>IsZero\<close> is equality with 0, \<open>After\<close> and \<open>Before\<close> are the order, and \<open>Unix\<close> is the
  floor to seconds shifted to 1970.  \<open>UTC()\<close> changes the location only, not the instant: it is
  the identity here.  A \<open>time.Duration\<close> is a number of nanoseconds.  Years beyond the 292
  billion that Go's 64-bit seconds hold are not modelled.
\<close>

type_synonym go_time = int
type_synonym duration = int

definition zero_time :: go_time where "zero_time = 0"

definition time_IsZero :: "go_time \<Rightarrow> bool" where
  "time_IsZero t \<longleftrightarrow> t = zero_time"

definition time_Unix :: "go_time \<Rightarrow> int" where
  "time_Unix t = t div 1000000000 - 62135596800"

definition time_UTC :: "go_time \<Rightarrow> go_time" where
  "time_UTC t = t"

definition Second :: duration where "Second = 1000000000"
definition Minute :: duration where "Minute = 60 * Second"
definition Hour :: duration where "Hour = 60 * Minute"

text \<open>\<open>Sub\<close> saturates at the largest and smallest \<open>Duration\<close>.\<close>

definition time_Sub :: "go_time \<Rightarrow> go_time \<Rightarrow> duration" where
  "time_Sub a b = max (- (2 ^ 63)) (min (2 ^ 63 - 1) (a - b))"

lemma time_UTC_id [simp]: "time_UTC t = t"
  by (simp add: time_UTC_def)

lemma time_Unix_mono: "a \<le> b \<Longrightarrow> time_Unix a \<le> time_Unix b"
  by (simp add: time_Unix_def zdiv_mono1)

lemma time_Unix_Second: "time_Unix (t + k * Second) = time_Unix t + k"
  by (simp add: time_Unix_def Second_def)

text \<open>\<open>math.MaxInt64\<close> against \<open>uint64\<close> counters.\<close>

type_synonym uint64 = "64 word"

definition MaxInt64 :: uint64 where "MaxInt64 = 0x7FFFFFFFFFFFFFFF"

text \<open>
  Counters that stay below \<open>MaxInt64\<close> never wrap: \<open>c + 1\<close> is the next number, is positive and
  is at most \<open>MaxInt64\<close>.
\<close>

lemma unat_MaxInt64: "unat MaxInt64 = 2 ^ 63 - 1"
  by (simp add: MaxInt64_def)

lemma counter_next:
  assumes "c < MaxInt64"
  shows "unat (c + 1) = unat c + 1" "0 < c + 1" "c + 1 \<le> MaxInt64" "c < c + 1"
proof -
  have c: "unat c < 2 ^ 63 - 1"
    using assms by (simp add: word_less_nat_alt unat_MaxInt64)
  show eq: "unat (c + 1) = unat c + 1"
    using c by (simp add: unat_word_ariths)
  show "0 < c + 1" "c + 1 \<le> MaxInt64" "c < c + 1"
    using eq c by (simp_all add: word_less_nat_alt word_le_nat_alt unat_MaxInt64)
qed

section \<open>Strings\<close>

text \<open>
  A Go string is a sequence of bytes, as a \<open>string\<close> of HOL is.  \<open>strings.TrimSpace\<close> removes the
  UTF-8 encodings of the white-space code points at both ends; \<open>white_space\<close> lists them.
\<close>

definition white_space :: "string list" where
  "white_space =
     [[CHR 0x09], [CHR 0x0A], [CHR 0x0B], [CHR 0x0C], [CHR 0x0D], [CHR 0x20],
      [CHR 0xC2, CHR 0x85], [CHR 0xC2, CHR 0xA0], [CHR 0xE1, CHR 0x9A, CHR 0x80],
      [CHR 0xE2, CHR 0x80, CHR 0xA8], [CHR 0xE2, CHR 0x80, CHR 0xA9],
      [CHR 0xE2, CHR 0x80, CHR 0xAF], [CHR 0xE2, CHR 0x81, CHR 0x9F],
      [CHR 0xE3, CHR 0x80, CHR 0x80], [CHR 0xE2, CHR 0x80, CHR 0x80],
      [CHR 0xE2, CHR 0x80, CHR 0x81], [CHR 0xE2, CHR 0x80, CHR 0x82],
      [CHR 0xE2, CHR 0x80, CHR 0x83], [CHR 0xE2, CHR 0x80, CHR 0x84],
      [CHR 0xE2, CHR 0x80, CHR 0x85], [CHR 0xE2, CHR 0x80, CHR 0x86],
      [CHR 0xE2, CHR 0x80, CHR 0x87], [CHR 0xE2, CHR 0x80, CHR 0x88],
      [CHR 0xE2, CHR 0x80, CHR 0x89], [CHR 0xE2, CHR 0x80, CHR 0x8A]]"

text \<open>Drop, as long as there is one, a leading member of \<open>ws\<close>.\<close>

function trim_front :: "string list \<Rightarrow> string \<Rightarrow> string" where
  "trim_front ws s =
     (case find (\<lambda>w. w \<noteq> [] \<and> prefix w s) ws of
        None \<Rightarrow> s
      | Some w \<Rightarrow> trim_front ws (drop (length w) s))"
  by pat_completeness auto
termination
  by (relation "measure (\<lambda>(ws, s). length s)")
     (auto simp: find_Some_iff prefix_def)

declare trim_front.simps [simp del]

definition TrimSpace :: "string \<Rightarrow> string" where
  "TrimSpace s =
     rev (trim_front (map rev white_space) (rev (trim_front white_space s)))"

lemma trim_front_Nil [simp]: "trim_front ws [] = []"
  by (subst trim_front.simps) (auto split: option.splits simp: find_Some_iff)

lemma TrimSpace_Nil [simp]: "TrimSpace [] = []"
  by (simp add: TrimSpace_def)

text \<open>\<open>strings.Contains\<close> and \<open>strings.HasPrefix\<close>.\<close>

fun contains :: "string \<Rightarrow> string \<Rightarrow> bool" where
  "contains [] frag = (frag = [])"
| "contains (c # cs) frag = (prefix frag (c # cs) \<or> contains cs frag)"

lemma contains_sublist: "contains s frag \<longleftrightarrow> sublist frag s"
  by (induction s) (auto simp: sublist_Cons_right)

text \<open>
  \<open>strings.ToLower\<close>, up to what the program can observe of it: the result is only searched for,
  and compared with, ASCII text.  The ASCII capitals are lowered, and so are the only two other
  code points whose lower case is an ASCII letter, U+212A (Kelvin sign, to \<open>k\<close>) and U+0130
  (dotted capital I, to \<open>i\<close>).  The case of the remaining letters stays: neither form is ASCII.
\<close>

definition lower_char :: "char \<Rightarrow> char" where
  "lower_char c = (let n = (of_char c :: int) in if 65 \<le> n \<and> n \<le> 90 then char_of (n + 32) else c)"

function ToLower :: "string \<Rightarrow> string" where
  "ToLower s =
     (if s = [] then []
      else if prefix [CHR 0xE2, CHR 0x84, CHR 0xAA] s then CHR ''k'' # ToLower (drop 3 s)
      else if prefix [CHR 0xC4, CHR 0xB0] s then CHR ''i'' # ToLower (drop 2 s)
      else lower_char (hd s) # ToLower (tl s))"
  by pat_completeness auto
termination
  by (relation "measure length") auto

declare ToLower.simps [simp del]

text \<open>The decimal text of a natural number (\<open>%d\<close>).\<close>

fun decimal :: "nat \<Rightarrow> string" where
  "decimal n =
     (if n < 10 then [char_of (48 + n)] else decimal (n div 10) @ [char_of (48 + n mod 10)])"

declare decimal.simps [simp del]

definition ReplaceAll_char :: "char \<Rightarrow> char \<Rightarrow> string \<Rightarrow> string" where
  "ReplaceAll_char a b s = map (\<lambda>c. if c = a then b else c) s"

section \<open>Contexts\<close>

text \<open>
  A \<open>context.Context\<close> is known by the answers it gives.  A repository call asks three times:
  while waiting for the lock, once it holds the lock, and before the commit; \<open>None\<close> is "not
  cancelled" (for the first, that the lock was taken).
\<close>

record context3 =
  ctx_lock :: "error option"
  ctx_before :: "error option"
  ctx_after :: "error option"

definition Background :: context3 where
  "Background = \<lparr>ctx_lock = None, ctx_before = None, ctx_after = None\<rparr>"

end
