(* ===== verification/Protocol.thy ===== *)
theory Protocol
  imports GoStd
begin

text \<open>
  Package \<open>internal/protocol\<close>: identifiers, the message envelope, the operation descriptor
  (\<open>types.go\<close>) and their validation (\<open>validate.go\<close>).  The Go string types with named constants
  are datatypes with one constructor per constant and one, \<open>...Other\<close>, for every other string,
  which the \<open>default\<close> branches of the code meet.
\<close>

section \<open>Types (types.go)\<close>

definition ProtocolVersion :: string where "ProtocolVersion = ''1.0''"

type_synonym TaskID = string
type_synonym OperationID = string
type_synonym AttemptID = string
type_synonym MessageID = string
type_synonym LeaseID = string
type_synonym EvidenceID = string
type_synonym ActorID = string
type_synonym CorrelationID = string

datatype EffectClass = EffectReadOnly | EffectMutation | EffectClassOther string

datatype IdempotencyMode =
  IdempotencyUnknown | IdempotencyIdempotent | IdempotencyConditional | IdempotencyModeOther string

datatype MessageType =
    MessageCommand | MessageEvent | MessageObservation
  | MessageDecisionRequest | MessageDecisionResponse | MessageTypeOther string

record Actor =
  actor_ID :: ActorID
  actor_Role :: string

record LeaseRef =
  leaseref_ID :: LeaseID
  leaseref_Generation :: uint64

text \<open>
  A payload value (\<open>any\<close>) by its dynamic type.  The integer and floating-point kinds keep their
  value or their bits; \<open>PMap\<close> lists a map's entries in the order a \<open>range\<close> visits them (every
  theorem is about any order); \<open>POther\<close> is any other dynamic type, by its name.
\<close>

datatype payload =
    PNil | PBool bool | PString string | PInt int | PUint nat | PFloat uint64
  | PMap "(string \<times> payload) list" | PSlice "payload list" | POther string

record Envelope =
  env_ProtocolVersion :: string
  env_MessageID :: MessageID
  env_MessageType :: MessageType
  env_MessageName :: string
  env_TaskID :: TaskID
  env_OperationID :: OperationID
  env_AttemptID :: AttemptID
  env_CorrelationID :: CorrelationID
  env_CausationID :: MessageID
  env_Actor :: Actor
  env_IssuedAt :: go_time
  env_DeadlineAt :: "go_time option"
  env_Lease :: "LeaseRef option"
  env_Payload :: "(string \<times> payload) list"
  env_Extensions :: "(string \<times> payload) list"

record OperationDescriptor =
  od_ID :: OperationID
  od_TaskID :: TaskID
  od_Name :: string
  od_TargetRef :: string
  od_EffectClass :: EffectClass
  od_ConflictScope :: "string list"
  od_IdempotencyMode :: IdempotencyMode
  od_VerificationPolicyRef :: string
  od_AuthorizationPolicyRef :: string

section \<open>Validation (validate.go)\<close>

definition supportedMessageNames :: "string list" where
  "supportedMessageNames =
     [''operation.offer'', ''operation.cancel_request'', ''operation.accepted'',
      ''operation.rejected'', ''operation.started'', ''operation.progress'',
      ''operation.result_reported'', ''operation.execution_uncertain'',
      ''verification.observed'', ''verification.completed'',
      ''issue.opened'', ''issue.updated'', ''issue.closed'',
      ''escalation.requested'', ''escalation.resolved'']"

text \<open>The loop over \<open>d.ConflictScope\<close>, with the scopes already seen.\<close>

fun check_scopes :: "string list \<Rightarrow> string list \<Rightarrow> unit result" where
  "check_scopes seen [] = Inr ()"
| "check_scopes seen (scope # scopes) =
     (let t = TrimSpace scope in
      if t = '''' then Inl ErrInvalidDescriptor
      else if t \<in> set seen then Inl ErrInvalidDescriptor
      else check_scopes (t # seen) scopes)"

definition validate_descriptor :: "OperationDescriptor \<Rightarrow> unit result" where
  "validate_descriptor d =
     (if od_ID d = '''' \<or> od_TaskID d = '''' \<or> TrimSpace (od_Name d) = ''''
         \<or> TrimSpace (od_TargetRef d) = '''' then Inl ErrInvalidDescriptor
      else if od_EffectClass d \<notin> {EffectReadOnly, EffectMutation} then Inl ErrInvalidDescriptor
      else if od_IdempotencyMode d
         \<notin> {IdempotencyUnknown, IdempotencyIdempotent, IdempotencyConditional}
        then Inl ErrInvalidDescriptor
      else if TrimSpace (od_VerificationPolicyRef d) = ''''
         \<or> TrimSpace (od_AuthorizationPolicyRef d) = '''' then Inl ErrInvalidDescriptor
      else bindR (check_scopes [] (od_ConflictScope d)) (\<lambda>_.
        if od_EffectClass d = EffectMutation \<and> length (od_ConflictScope d) = 0
        then Inl ErrInvalidDescriptor else Inr ()))"

definition forbidden_fragments :: "string list" where
  "forbidden_fragments =
     [''password'', ''passphrase'', ''private_key'', ''authorization'', ''cookie'',
      ''credential'', ''access_token'', ''api_token'', ''session_token'', ''relay_token'',
      ''secret'']"

definition normal_key :: "string \<Rightarrow> string" where
  "normal_key key = ReplaceAll_char (CHR ''-'') (CHR ''_'') (ToLower (TrimSpace key))"

definition isForbiddenKey :: "string \<Rightarrow> bool" where
  "isForbiddenKey key =
     (let n = normal_key key in
      if n = ''secret_ref'' then False else list_ex (contains n) forbidden_fragments)"

fun ValidateNoSensitiveFields :: "payload \<Rightarrow> unit result"
  and validate_entries :: "(string \<times> payload) list \<Rightarrow> unit result"
  and validate_items :: "payload list \<Rightarrow> unit result" where
  "ValidateNoSensitiveFields (PMap kvs) = validate_entries kvs"
| "ValidateNoSensitiveFields (PSlice vs) = validate_items vs"
| "ValidateNoSensitiveFields (POther t) = Inl ErrInvalidPayloadValue"
| "ValidateNoSensitiveFields v = Inr ()"
| "validate_entries [] = Inr ()"
| "validate_entries ((key, value) # kvs) =
     (if isForbiddenKey key then Inl ErrSensitiveField
      else bindR (ValidateNoSensitiveFields value) (\<lambda>_. validate_entries kvs))"
| "validate_items [] = Inr ()"
| "validate_items (v # vs) = bindR (ValidateNoSensitiveFields v) (\<lambda>_. validate_items vs)"

definition validate_envelope :: "Envelope \<Rightarrow> unit result" where
  "validate_envelope e =
     (if env_ProtocolVersion e \<noteq> ProtocolVersion then Inl ErrInvalidProtocolVersion
      else if env_MessageID e = '''' \<or> env_TaskID e = '''' \<or> env_CorrelationID e = ''''
         \<or> actor_ID (env_Actor e) = '''' \<or> TrimSpace (actor_Role (env_Actor e)) = ''''
        then Inl (ErrText ''message identity, task, correlation, and actor are required'')
      else if env_MessageType e
         \<notin> {MessageCommand, MessageEvent, MessageObservation, MessageDecisionRequest,
             MessageDecisionResponse}
        then Inl (ErrText ''unknown message_type'')
      else if TrimSpace (env_MessageName e) = '''' \<or> time_IsZero (env_IssuedAt e)
        then Inl (ErrText ''message_name and issued_at are required'')
      else if env_MessageName e \<notin> set supportedMessageNames then Inl ErrUnsupportedMessage
      else if (prefix ''operation.'' (env_MessageName e)
          \<or> prefix ''verification.'' (env_MessageName e)) \<and> env_OperationID e = ''''
        then Inl (ErrText ''operation_id is required for operation and verification messages'')
      else bindR (ValidateNoSensitiveFields (PMap (env_Payload e))) (\<lambda>_.
           ValidateNoSensitiveFields (PMap (env_Extensions e))))"

section \<open>What validation establishes\<close>

text \<open>The keys of a payload value at every depth, and the dynamic types without a JSON form.\<close>

fun payload_keys :: "payload \<Rightarrow> string list"
  and entries_keys :: "(string \<times> payload) list \<Rightarrow> string list"
  and items_keys :: "payload list \<Rightarrow> string list" where
  "payload_keys (PMap kvs) = entries_keys kvs"
| "payload_keys (PSlice vs) = items_keys vs"
| "payload_keys v = []"
| "entries_keys [] = []"
| "entries_keys ((k, v) # kvs) = k # payload_keys v @ entries_keys kvs"
| "items_keys [] = []"
| "items_keys (v # vs) = payload_keys v @ items_keys vs"

fun payload_canonical :: "payload \<Rightarrow> bool"
  and entries_canonical :: "(string \<times> payload) list \<Rightarrow> bool"
  and items_canonical :: "payload list \<Rightarrow> bool" where
  "payload_canonical (PMap kvs) = entries_canonical kvs"
| "payload_canonical (PSlice vs) = items_canonical vs"
| "payload_canonical (POther t) = False"
| "payload_canonical v = True"
| "entries_canonical [] = True"
| "entries_canonical ((k, v) # kvs) = (payload_canonical v \<and> entries_canonical kvs)"
| "items_canonical [] = True"
| "items_canonical (v # vs) = (payload_canonical v \<and> items_canonical vs)"

lemma validate_payload_iff:
  "ValidateNoSensitiveFields v = Inr u \<longleftrightarrow>
     payload_canonical v \<and> (\<forall>k \<in> set (payload_keys v). \<not> isForbiddenKey k)"
  "validate_entries kvs = Inr u \<longleftrightarrow>
     entries_canonical kvs \<and> (\<forall>k \<in> set (entries_keys kvs). \<not> isForbiddenKey k)"
  "validate_items vs = Inr u \<longleftrightarrow>
     items_canonical vs \<and> (\<forall>k \<in> set (items_keys vs). \<not> isForbiddenKey k)"
  by (induction v and kvs and vs rule: ValidateNoSensitiveFields_validate_entries_validate_items.induct)
     (auto simp: bindR_Inr)

text \<open>Nothing but the two sentinels is reported about a payload.\<close>

lemma validate_payload_errors:
  "ValidateNoSensitiveFields v = Inl e \<Longrightarrow> e \<in> {ErrSensitiveField, ErrInvalidPayloadValue}"
  "validate_entries kvs = Inl e \<Longrightarrow> e \<in> {ErrSensitiveField, ErrInvalidPayloadValue}"
  "validate_items vs = Inl e \<Longrightarrow> e \<in> {ErrSensitiveField, ErrInvalidPayloadValue}"
  by (induction v and kvs and vs rule: ValidateNoSensitiveFields_validate_entries_validate_items.induct)
     (auto simp: bindR_def split: sum.splits if_splits)

lemma check_scopes_iff:
  "check_scopes seen scopes = Inr u \<longleftrightarrow>
     distinct (map TrimSpace scopes) \<and> (\<forall>s \<in> set scopes. TrimSpace s \<noteq> '''' \<and> TrimSpace s \<notin> set seen)"
proof (induction seen scopes rule: check_scopes.induct)
  case (2 seen scope scopes)
  have "TrimSpace scope \<in> TrimSpace ` set scopes \<longleftrightarrow> (\<exists>s \<in> set scopes. TrimSpace s = TrimSpace scope)"
    by (metis imageE imageI)
  with 2 show ?case by (simp add: Let_def) metis
qed simp

lemma check_scopes_distinct:
  "check_scopes seen scopes = Inr u \<Longrightarrow> distinct scopes \<and> '''' \<notin> set scopes"
  by (auto simp: check_scopes_iff distinct_map)

text \<open>What the rest of the program uses of a valid descriptor.\<close>

lemma validate_descriptorD:
  assumes "validate_descriptor d = Inr u"
  shows "od_ID d \<noteq> ''''" "od_TaskID d \<noteq> ''''"
    "od_EffectClass d \<in> {EffectReadOnly, EffectMutation}"
    "od_IdempotencyMode d
       \<in> {IdempotencyUnknown, IdempotencyIdempotent, IdempotencyConditional}"
    "distinct (od_ConflictScope d)" "'''' \<notin> set (od_ConflictScope d)"
    "od_EffectClass d = EffectMutation \<Longrightarrow> od_ConflictScope d \<noteq> []"
  using assms check_scopes_distinct[of "[]" "od_ConflictScope d"]
  by (auto simp: validate_descriptor_def bindR_Inr split: if_splits)

lemma validate_envelopeD:
  assumes "validate_envelope e = Inr u"
  shows "env_MessageID e \<noteq> ''''" "env_TaskID e \<noteq> ''''" "\<not> time_IsZero (env_IssuedAt e)"
    "env_MessageName e \<in> set supportedMessageNames"
    "\<forall>k \<in> set (entries_keys (env_Payload e) @ entries_keys (env_Extensions e)). \<not> isForbiddenKey k"
  using assms
  by (auto simp: validate_envelope_def bindR_Inr validate_payload_iff split: if_splits)

end
