(* ===== verification/Sha256.thy ===== *)
theory Sha256
  imports GoStd
begin

text \<open>
  \<open>crypto/sha256\<close> and \<open>fmt.Sprintf("%x", ...)\<close>, as FIPS 180-4 defines the function, over 32-bit
  words.  The program uses the hexadecimal text of a digest only.
\<close>

unbundle bit_operations_syntax

type_synonym u32 = "32 word"

text \<open>The round constants and the initial state, in decimal.\<close>

definition sha_K :: "u32 list" where
  "sha_K = map word_of_int [
     1116352408, 1899447441, 3049323471, 3921009573, 961987163, 1508970993, 2453635748, 2870763221,
     3624381080, 310598401, 607225278, 1426881987, 1925078388, 2162078206, 2614888103, 3248222580,
     3835390401, 4022224774, 264347078, 604807628, 770255983, 1249150122, 1555081692, 1996064986,
     2554220882, 2821834349, 2952996808, 3210313671, 3336571891, 3584528711, 113926993, 338241895,
     666307205, 773529912, 1294757372, 1396182291, 1695183700, 1986661051, 2177026350, 2456956037,
     2730485921, 2820302411, 3259730800, 3345764771, 3516065817, 3600352804, 4094571909, 275423344,
     430227734, 506948616, 659060556, 883997877, 958139571, 1322822218, 1537002063, 1747873779,
     1955562222, 2024104815, 2227730452, 2361852424, 2428436474, 2756734187, 3204031479, 3329325298]"

definition sha_init :: "u32 list" where
  "sha_init = map word_of_int [
     1779033703, 3144134277, 1013904242, 2773480762, 1359893119, 2600822924, 528734635, 1541459225]"

definition small0 :: "u32 \<Rightarrow> u32" where
  "small0 x = word_rotr 7 x XOR word_rotr 18 x XOR drop_bit 3 x"
definition small1 :: "u32 \<Rightarrow> u32" where
  "small1 x = word_rotr 17 x XOR word_rotr 19 x XOR drop_bit 10 x"
definition big0 :: "u32 \<Rightarrow> u32" where
  "big0 x = word_rotr 2 x XOR word_rotr 13 x XOR word_rotr 22 x"
definition big1 :: "u32 \<Rightarrow> u32" where
  "big1 x = word_rotr 6 x XOR word_rotr 11 x XOR word_rotr 25 x"

text \<open>The message schedule: \<open>n\<close> more words after the \<open>ws\<close> there are.\<close>

fun sha_expand :: "nat \<Rightarrow> u32 list \<Rightarrow> u32 list" where
  "sha_expand 0 ws = ws"
| "sha_expand (Suc n) ws =
     (let t = length ws;
          w = small1 (ws ! (t - 2)) + ws ! (t - 7) + small0 (ws ! (t - 15)) + ws ! (t - 16)
      in sha_expand n (ws @ [w]))"

fun sha_round :: "u32 \<times> u32 \<Rightarrow> u32 list \<Rightarrow> u32 list" where
  "sha_round (k, w) [a, b, c, d, e, f, g, h] =
     (let t1 = h + big1 e + ((e AND f) XOR (NOT e AND g)) + k + w;
          t2 = big0 a + ((a AND b) XOR (a AND c) XOR (b AND c))
      in [t1 + t2, a, b, c, d + t1, e, f, g])"
| "sha_round _ hs = hs"

definition sha_block :: "u32 list \<Rightarrow> u32 list \<Rightarrow> u32 list" where
  "sha_block hs ws = map2 (+) hs (fold sha_round (zip sha_K (sha_expand 48 ws)) hs)"

text \<open>Bytes to words and blocks, big-endian.\<close>

fun be_words :: "int list \<Rightarrow> u32 list" where
  "be_words (a # b # c # d # bs) = word_of_int (((a * 256 + b) * 256 + c) * 256 + d) # be_words bs"
| "be_words _ = []"

definition be_bytes :: "nat \<Rightarrow> int \<Rightarrow> int list" where
  "be_bytes n x = map (\<lambda>i. x div 256 ^ (n - 1 - i) mod 256) [0..<n]"

definition sha_pad :: "int list \<Rightarrow> int list" where
  "sha_pad bs = bs @ [0x80] @ replicate ((119 - length bs mod 64) mod 64) 0
     @ be_bytes 8 (8 * int (length bs))"

function sha_blocks :: "u32 list \<Rightarrow> u32 list \<Rightarrow> u32 list" where
  "sha_blocks hs ws = (if ws = [] then hs else sha_blocks (sha_block hs (take 16 ws)) (drop 16 ws))"
  by pat_completeness auto
termination
  by (relation "measure (\<lambda>(hs, ws). length ws)") auto

declare sha_blocks.simps [simp del]

definition hex_digit :: "int \<Rightarrow> char" where
  "hex_digit n = char_of (if n < 10 then 48 + n else 87 + n)"

definition hex_byte :: "int \<Rightarrow> string" where
  "hex_byte n = [hex_digit (n div 16), hex_digit (n mod 16)]"

text \<open>\<open>fmt.Sprintf("%x", sha256.Sum256([]byte(s)))\<close>\<close>

definition sha256_hex :: "string \<Rightarrow> string" where
  "sha256_hex s =
     concat (map (\<lambda>w. concat (map hex_byte (be_bytes 4 (uint w))))
       (sha_blocks sha_init (be_words (sha_pad (map of_char s)))))"

section \<open>The shape of a digest\<close>

lemma sha_round_length [simp]: "length (sha_round kw hs) = length hs"
  by (induction kw hs rule: sha_round.induct) (auto simp: Let_def)

lemma fold_sha_round_length [simp]: "length (fold sha_round kws hs) = length hs"
  by (induction kws arbitrary: hs) auto

lemma sha_block_length [simp]: "length (sha_block hs ws) = length hs"
  by (simp add: sha_block_def)

lemma sha_blocks_length [simp]: "length (sha_blocks hs ws) = length hs"
proof (induction hs ws rule: sha_blocks.induct)
  case (1 hs ws)
  then show ?case by (subst sha_blocks.simps) simp
qed

lemma concat_same_length: "(\<And>x. x \<in> set xs \<Longrightarrow> length (f x) = n) \<Longrightarrow>
    length (concat (map f xs)) = n * length xs"
  by (induction xs) auto

definition is_hex_char :: "char \<Rightarrow> bool" where
  "is_hex_char c \<longleftrightarrow> c \<in> set ''0123456789abcdef''"

lemma hex_digit_is_hex: "0 \<le> n \<Longrightarrow> n < 16 \<Longrightarrow> is_hex_char (hex_digit n)"
proof -
  assume "0 \<le> n" "n < 16"
  then have "n \<in> set [0..15]" by simp
  moreover have "\<forall>n \<in> set [0..15]. is_hex_char (hex_digit n)" by code_simp
  ultimately show ?thesis by blast
qed

lemma hex_byte_length [simp]: "length (hex_byte n) = 2"
  by (simp add: hex_byte_def)

lemma hex_word_length: "length (concat (map hex_byte (be_bytes 4 n))) = 8"
  using concat_same_length[of "be_bytes 4 n" hex_byte 2] by (simp add: be_bytes_def)

text \<open>A digest is 64 lower-case hexadecimal digits.\<close>

lemma sha256_hex_length [simp]: "length (sha256_hex s) = 64"
proof -
  have "length sha_init = 8" by (simp add: sha_init_def)
  then show ?thesis
    unfolding sha256_hex_def by (subst concat_same_length[where n = 8]) (auto simp: hex_word_length)
qed

lemma sha256_hex_digits: "\<forall>c \<in> set (sha256_hex s). is_hex_char c"
proof -
  have "\<forall>c \<in> set (hex_byte b). is_hex_char c" if "0 \<le> b" "b < 256" for b
    using that by (simp add: hex_byte_def hex_digit_is_hex)
  moreover have "\<forall>b \<in> set (be_bytes 4 n). 0 \<le> b \<and> b < 256" for n
    by (auto simp: be_bytes_def)
  ultimately show ?thesis unfolding sha256_hex_def by fastforce
qed

end
