(* ===== verification/Contract.thy ===== *)
theory Contract
  imports Protocol Sha256
begin

text \<open>
  Package \<open>internal/execution\<close>, the contract between the controller and its workers: \<open>contract.go\<close>
  (limits, requests, grants, capabilities and the exact policy) and \<open>local.go\<close> (the local worker with
  its two deterministic providers).
\<close>

section \<open>Limits, requests, jobs (contract.go)\<close>

definition Version :: string where "Version = ''1.0''"
definition MaxBytes :: int where "MaxBytes = 64 * 1024"
definition MaxDuration :: duration where "MaxDuration = 5 * Minute"
definition MaxHeartbeats :: nat where "MaxHeartbeats = 32"

record Limits =
  lim_Duration :: duration
  lim_InputBytes :: int
  lim_OutputBytes :: int
  lim_Units :: int

definition limits_valid :: "Limits \<Rightarrow> bool" where
  "limits_valid l \<longleftrightarrow> lim_Duration l > 0 \<and> lim_Duration l \<le> MaxDuration
     \<and> lim_InputBytes l > 0 \<and> lim_InputBytes l \<le> MaxBytes
     \<and> lim_OutputBytes l > 0 \<and> lim_OutputBytes l \<le> MaxBytes
     \<and> lim_Units l > 0 \<and> lim_Units l \<le> MaxBytes"

definition limits_fits :: "Limits \<Rightarrow> Limits \<Rightarrow> bool" where
  "limits_fits l mx \<longleftrightarrow> limits_valid l \<and> limits_valid mx \<and> lim_Duration l \<le> lim_Duration mx
     \<and> lim_InputBytes l \<le> lim_InputBytes mx \<and> lim_OutputBytes l \<le> lim_OutputBytes mx
     \<and> lim_Units l \<le> lim_Units mx"

record Capabilities =
  cap_Version :: string
  cap_Worker :: ActorID
  cap_Provider :: string
  cap_Models :: "string list"
  cap_Actions :: "string list"
  cap_Effects :: "EffectClass list"
  cap_DataClasses :: "string list"
  cap_External :: bool
  cap_Limits :: Limits

record Request =
  rq_Version :: string
  rq_MessageID :: MessageID
  rq_OperationID :: OperationID
  rq_AttemptID :: AttemptID
  rq_LeaseID :: LeaseID
  rq_RetryOf :: AttemptID
  rq_CorrelationID :: CorrelationID
  rq_Revision :: uint64
  rq_IssuedAt :: go_time
  rq_Deadline :: go_time
  rq_Provider :: string
  rq_Model :: string
  rq_DataClass :: string
  rq_Input :: string
  rq_Limits :: Limits

definition validate_request :: "Request \<Rightarrow> go_time \<Rightarrow> unit result" where
  "validate_request r now =
     (if rq_Version r \<noteq> Version then Inl ErrUnsupported
      else if rq_MessageID r = '''' \<or> rq_OperationID r = '''' \<or> rq_AttemptID r = '''' \<or> rq_LeaseID r = ''''
         \<or> rq_CorrelationID r = '''' \<or> rq_Revision r = 0 \<or> time_IsZero (rq_IssuedAt r)
         \<or> rq_IssuedAt r > now \<or> \<not> rq_Deadline r > now
         \<or> time_Sub (rq_Deadline r) (rq_IssuedAt r) > lim_Duration (rq_Limits r)
         \<or> rq_Provider r = '''' \<or> rq_Model r = '''' \<or> rq_DataClass r = ''''
         \<or> \<not> limits_valid (rq_Limits r)
        then Inl ErrInvalid
      else if int (length (rq_Input r)) > lim_InputBytes (rq_Limits r) then Inl ErrLimit
      else Inr ())"

record Job =
  job_Request :: Request
  job_Descriptor :: OperationDescriptor
  job_Worker :: ActorID
  job_Generation :: uint64

record Claim =
  cl_Output :: string
  cl_Units :: int

text \<open>
  What a worker does between its call and the moment the caller stops waiting for it: it returns, it
  panics, its context ends first (with that error) while it hangs, it calls \<open>heartbeat\<close>, or it asks
  its context for \<open>Err()\<close> and goes on with the answer.
\<close>

datatype script =
    Returns "Claim result" | Panics | Hangs error
  | Heartbeat "unit result \<Rightarrow> script" | AskCtx "error option \<Rightarrow> script"

record Worker =
  wk_Capabilities :: Capabilities
  wk_Accept :: "Job \<Rightarrow> unit result"
  wk_Run :: "Job \<Rightarrow> script"

record ProviderRequest =
  pr_Model :: string
  pr_Input :: string
  pr_Limits :: Limits

record Provider =
  prov_ID :: string
  prov_Models :: "string list"
  prov_External :: bool
  prov_Generate :: "ProviderRequest \<Rightarrow> script"

type_synonym Policy = "Job \<Rightarrow> Capabilities \<Rightarrow> go_time \<Rightarrow> unit result"

section \<open>The exact policy (contract.go)\<close>

record Grant =
  gt_PolicyRef :: string
  gt_Worker :: ActorID
  gt_Provider :: string
  gt_Model :: string
  gt_Action :: string
  gt_Target :: string
  gt_DataClass :: string
  gt_Effect :: EffectClass
  gt_AllowExternal :: bool
  gt_Expires :: go_time
  gt_Limits :: Limits

definition grant_matches :: "Job \<Rightarrow> Capabilities \<Rightarrow> go_time \<Rightarrow> Grant \<Rightarrow> bool" where
  "grant_matches j c now g \<longleftrightarrow>
     gt_PolicyRef g = od_AuthorizationPolicyRef (job_Descriptor j) \<and> gt_Worker g = job_Worker j
     \<and> gt_Provider g = rq_Provider (job_Request j) \<and> gt_Model g = rq_Model (job_Request j)
     \<and> gt_Action g = od_Name (job_Descriptor j) \<and> gt_Target g = od_TargetRef (job_Descriptor j)
     \<and> gt_Effect g = od_EffectClass (job_Descriptor j) \<and> gt_DataClass g = rq_DataClass (job_Request j)
     \<and> (\<not> cap_External c \<or> gt_AllowExternal g) \<and> now < gt_Expires g
     \<and> \<not> rq_Deadline (job_Request j) > gt_Expires g
     \<and> limits_fits (rq_Limits (job_Request j)) (gt_Limits g)"

fun ExactPolicy_Check :: "Grant list \<Rightarrow> Policy" where
  "ExactPolicy_Check [] j c now = Inl ErrDenied"
| "ExactPolicy_Check (g # grants) j c now =
     (if grant_matches j c now g then Inr () else ExactPolicy_Check grants j c now)"

definition supports :: "Capabilities \<Rightarrow> Job \<Rightarrow> unit result" where
  "supports c j =
     (if cap_Version c \<noteq> Version \<or> cap_Worker c = '''' \<or> cap_Worker c \<noteq> job_Worker j
         \<or> cap_Provider c \<noteq> rq_Provider (job_Request j)
         \<or> rq_Model (job_Request j) \<notin> set (cap_Models c)
         \<or> od_Name (job_Descriptor j) \<notin> set (cap_Actions c)
         \<or> od_EffectClass (job_Descriptor j) \<notin> set (cap_Effects c)
         \<or> rq_DataClass (job_Request j) \<notin> set (cap_DataClasses c)
      then Inl ErrUnsupported
      else if \<not> limits_fits (rq_Limits (job_Request j)) (cap_Limits c) then Inl ErrLimit
      else Inr ())"

section \<open>The local worker (local.go)\<close>

record Local =
  loc_actor :: ActorID
  loc_provider :: Provider

definition NewLocal :: "ActorID \<Rightarrow> Provider option \<Rightarrow> Local result" where
  "NewLocal actor provider =
     (case provider of
        None \<Rightarrow> Inl ErrInvalid
      | Some p \<Rightarrow> if actor = '''' then Inl ErrInvalid else Inr \<lparr>loc_actor = actor, loc_provider = p\<rparr>)"

definition Local_Capabilities :: "Local \<Rightarrow> Capabilities" where
  "Local_Capabilities l = \<lparr>cap_Version = Version, cap_Worker = loc_actor l,
     cap_Provider = prov_ID (loc_provider l), cap_Models = prov_Models (loc_provider l),
     cap_Actions = [''analyze''], cap_Effects = [EffectReadOnly],
     cap_DataClasses = [''synthetic'', ''public'', ''private''],
     cap_External = prov_External (loc_provider l),
     cap_Limits = \<lparr>lim_Duration = MaxDuration, lim_InputBytes = MaxBytes, lim_OutputBytes = MaxBytes,
       lim_Units = MaxBytes\<rparr>\<rparr>"

definition Local_Accept :: "Local \<Rightarrow> Job \<Rightarrow> unit result" where
  "Local_Accept l j = supports (Local_Capabilities l) j"

definition Local_Run :: "Local \<Rightarrow> Job \<Rightarrow> script" where
  "Local_Run l j =
     (case Local_Accept l j of
        Inl e \<Rightarrow> Returns (Inl e)
      | Inr _ \<Rightarrow> Heartbeat (\<lambda>beat. case beat of
          Inl e \<Rightarrow> Returns (Inl e)
        | Inr _ \<Rightarrow> prov_Generate (loc_provider l)
            \<lparr>pr_Model = rq_Model (job_Request j), pr_Input = rq_Input (job_Request j),
             pr_Limits = rq_Limits (job_Request j)\<rparr>))"

definition Local_Worker :: "Local \<Rightarrow> Worker" where
  "Local_Worker l = \<lparr>wk_Capabilities = Local_Capabilities l, wk_Accept = Local_Accept l, wk_Run = Local_Run l\<rparr>"

definition providerCheck :: "error option \<Rightarrow> ProviderRequest \<Rightarrow> string \<Rightarrow> unit result" where
  "providerCheck done_err r model =
     (case done_err of Some e \<Rightarrow> Inl e | None \<Rightarrow>
      if pr_Model r \<noteq> model then Inl ErrUnsupported
      else if \<not> limits_valid (pr_Limits r) \<or> int (length (pr_Input r)) > lim_InputBytes (pr_Limits r)
         \<or> int (length (pr_Input r)) > lim_Units (pr_Limits r) then Inl ErrLimit
      else Inr ())"

definition echo_claim :: "error option \<Rightarrow> ProviderRequest \<Rightarrow> Claim result" where
  "echo_claim done_err r =
     bindR (providerCheck done_err r ''echo-v1'') (\<lambda>_.
      if int (length (pr_Input r)) > lim_OutputBytes (pr_Limits r) then Inl ErrLimit
      else Inr \<lparr>cl_Output = pr_Input r, cl_Units = int (length (pr_Input r))\<rparr>)"

definition EchoProvider_Generate :: "ProviderRequest \<Rightarrow> script" where
  "EchoProvider_Generate r = AskCtx (\<lambda>done_err. Returns (echo_claim done_err r))"

definition EchoProvider :: Provider where
  "EchoProvider = \<lparr>prov_ID = ''test.echo'', prov_Models = [''echo-v1''], prov_External = False,
     prov_Generate = EchoProvider_Generate\<rparr>"

definition digest_claim :: "error option \<Rightarrow> ProviderRequest \<Rightarrow> Claim result" where
  "digest_claim done_err r =
     bindR (providerCheck done_err r ''sha256-v1'') (\<lambda>_.
      let out = sha256_hex (pr_Input r)
      in if int (length out) > lim_OutputBytes (pr_Limits r) then Inl ErrLimit
         else Inr \<lparr>cl_Output = out, cl_Units = int (length (pr_Input r))\<rparr>)"

definition DigestProvider_Generate :: "ProviderRequest \<Rightarrow> script" where
  "DigestProvider_Generate r = AskCtx (\<lambda>done_err. Returns (digest_claim done_err r))"

definition DigestProvider :: Provider where
  "DigestProvider = \<lparr>prov_ID = ''test.digest'', prov_Models = [''sha256-v1''], prov_External = False,
     prov_Generate = DigestProvider_Generate\<rparr>"

section \<open>What the contract promises\<close>

lemma limits_fits_valid: "limits_fits l mx \<Longrightarrow> limits_valid l"
  by (simp add: limits_fits_def)

lemma limits_fits_trans: "limits_fits a b \<Longrightarrow> limits_fits b c \<Longrightarrow> limits_fits a c"
  by (simp add: limits_fits_def)

lemma supports_Inr:
  "supports c j = Inr u \<longleftrightarrow> cap_Version c = Version \<and> cap_Worker c \<noteq> '''' \<and> cap_Worker c = job_Worker j
     \<and> cap_Provider c = rq_Provider (job_Request j) \<and> rq_Model (job_Request j) \<in> set (cap_Models c)
     \<and> od_Name (job_Descriptor j) \<in> set (cap_Actions c)
     \<and> od_EffectClass (job_Descriptor j) \<in> set (cap_Effects c)
     \<and> rq_DataClass (job_Request j) \<in> set (cap_DataClasses c)
     \<and> limits_fits (rq_Limits (job_Request j)) (cap_Limits c)"
  by (auto simp: supports_def)

lemma ExactPolicy_Check_cases:
  "ExactPolicy_Check grants j c now = (if \<exists>g \<in> set grants. grant_matches j c now g then Inr () else Inl ErrDenied)"
  by (induction grants) auto

lemma validate_request_Inr:
  assumes "validate_request r now = Inr u"
  shows "rq_IssuedAt r \<le> now" "now < rq_Deadline r" "rq_Revision r \<noteq> 0" "limits_valid (rq_Limits r)"
    "int (length (rq_Input r)) \<le> lim_InputBytes (rq_Limits r)" "rq_MessageID r \<noteq> ''''"
    "rq_Deadline r - rq_IssuedAt r \<le> lim_Duration (rq_Limits r)"
  using assms
  by (auto simp: validate_request_def time_Sub_def limits_valid_def MaxDuration_def Minute_def Second_def
      split: if_splits)

lemma validate_request_errors:
  "validate_request r now = Inl e \<Longrightarrow> e \<in> {ErrUnsupported, ErrInvalid, ErrLimit}"
  by (auto simp: validate_request_def split: if_splits)

text \<open>
  The two providers keep within the limits of the request: what they return passes the controller's
  own check of the claim.
\<close>

definition within :: "Limits \<Rightarrow> Claim \<Rightarrow> bool" where
  "within l cl \<longleftrightarrow> int (length (cl_Output cl)) \<le> lim_OutputBytes l \<and> 0 \<le> cl_Units cl \<and> cl_Units cl \<le> lim_Units l"

lemma echo_claim_Inr: "echo_claim done_err r = Inr cl \<Longrightarrow> within (pr_Limits r) cl \<and> cl_Output cl = pr_Input r"
  by (auto simp: echo_claim_def bindR_Inr providerCheck_def within_def split: if_splits option.splits)

lemma digest_claim_Inr: "digest_claim done_err r = Inr cl \<Longrightarrow> within (pr_Limits r) cl \<and> cl_Output cl = sha256_hex (pr_Input r)"
  by (auto simp: digest_claim_def bindR_Inr providerCheck_def within_def Let_def split: if_splits option.splits)

end
