(* ===== verification/StateMachine.thy ===== *)
theory StateMachine
  imports Protocol
begin

text \<open>
  Package \<open>internal/state\<close>: tasks, operations and attempts (\<open>model.go\<close>) and the operation state
  machine (\<open>machine.go\<close>), with its specification, the transition table of
  \<open>docs/state_model.md\<close>.
\<close>

section \<open>Model (model.go)\<close>

datatype TaskState =
    TaskPlanned | TaskActive | TaskBlocked | TaskAwaitingDecision
  | TaskCompleted | TaskFailed | TaskCancelled | TaskStateOther string

record Task =
  task_ID :: TaskID
  task_State :: TaskState
  task_Revision :: uint64
  task_CreatedAt :: go_time
  task_UpdatedAt :: go_time

datatype OperationState =
    OperationPlanned | OperationReady | OperationExecuting | OperationVerifying
  | OperationUnknownOutcome | OperationSucceeded | OperationFailed | OperationCancelled
  | OperationStateOther string

datatype AttemptState =
    AttemptCreated | AttemptRunning | AttemptReported | AttemptRejected | AttemptNotStarted
  | AttemptUncertain | AttemptClosed | AttemptStateOther string

record Attempt =
  att_ID :: AttemptID
  att_OperationID :: OperationID
  att_LeaseID :: LeaseID
  att_LeaseGeneration :: uint64
  att_OwnerActorID :: ActorID
  att_RetryOf :: AttemptID
  att_State :: AttemptState
  att_CreatedAt :: go_time
  att_UpdatedAt :: go_time

record Operation =
  op_Descriptor :: OperationDescriptor
  op_State :: OperationState
  op_Revision :: uint64
  op_LeaseGeneration :: uint64
  op_ActiveAttemptID :: AttemptID
  op_CreatedAt :: go_time
  op_UpdatedAt :: go_time

definition HoldsConflictReservation :: "Operation \<Rightarrow> bool" where
  "HoldsConflictReservation opn =
     (if od_EffectClass (op_Descriptor opn) \<noteq> EffectMutation then False
      else (case op_State opn of
              OperationExecuting \<Rightarrow> True
            | OperationVerifying \<Rightarrow> True
            | OperationUnknownOutcome \<Rightarrow> True
            | _ \<Rightarrow> False))"

section \<open>Transitions (machine.go)\<close>

fun allowedTransitions :: "OperationState \<Rightarrow> OperationState list" where
  "allowedTransitions OperationPlanned = [OperationReady, OperationCancelled]"
| "allowedTransitions OperationReady = [OperationExecuting, OperationCancelled]"
| "allowedTransitions OperationExecuting =
     [OperationVerifying, OperationReady, OperationUnknownOutcome]"
| "allowedTransitions OperationVerifying =
     [OperationSucceeded, OperationReady, OperationFailed, OperationUnknownOutcome]"
| "allowedTransitions OperationUnknownOutcome = [OperationVerifying]"
| "allowedTransitions _ = []"

definition Transition :: "Operation \<Rightarrow> uint64 \<Rightarrow> OperationState \<Rightarrow> go_time \<Rightarrow> Operation result" where
  "Transition opn expectedRevision to now =
     (if op_Revision opn \<noteq> expectedRevision then Inl ErrRevisionConflict
      else if op_Revision opn = 0 \<or> op_Revision opn \<ge> MaxInt64
        then Inl (ErrText ''revision exhausted or invalid'')
      else if time_IsZero now then Inl (ErrText ''transition time is required'')
      else if to \<notin> set (allowedTransitions (op_State opn)) then Inl ErrInvalidTransition
      else let opn = opn\<lparr>op_State := to, op_Revision := op_Revision opn + 1, op_UpdatedAt := now\<rparr> in
        Inr (if to \<in> {OperationReady, OperationSucceeded, OperationFailed, OperationCancelled}
             then opn\<lparr>op_ActiveAttemptID := ''''\<rparr> else opn))"

definition state_StartAttempt ::
  "Operation \<Rightarrow> uint64 \<Rightarrow> AttemptID \<Rightarrow> go_time \<Rightarrow> (Operation \<times> Attempt) result" where
  "state_StartAttempt opn expectedRevision attemptID now =
     (if attemptID = '''' then Inl (ErrText ''attempt id is required'')
      else bindR (Transition opn expectedRevision OperationExecuting now) (\<lambda>next.
        if op_LeaseGeneration next \<ge> MaxInt64 then Inl (ErrText ''lease generation exhausted'')
        else let next = next\<lparr>op_LeaseGeneration := op_LeaseGeneration next + 1,
                             op_ActiveAttemptID := attemptID\<rparr> in
          Inr (next, \<lparr>att_ID = attemptID, att_OperationID = od_ID (op_Descriptor opn),
                      att_LeaseID = '''', att_LeaseGeneration = op_LeaseGeneration next,
                      att_OwnerActorID = '''', att_RetryOf = '''', att_State = AttemptRunning,
                      att_CreatedAt = now, att_UpdatedAt = now\<rparr>)))"

definition LoseExecutionCertainty :: "Operation \<Rightarrow> uint64 \<Rightarrow> go_time \<Rightarrow> Operation result" where
  "LoseExecutionCertainty opn expected now =
     (if op_State opn \<noteq> OperationUnknownOutcome
        then Transition opn expected OperationUnknownOutcome now
      else if op_Revision opn \<noteq> expected then Inl ErrRevisionConflict
      else if time_IsZero now \<or> op_Revision opn = 0 \<or> op_Revision opn \<ge> MaxInt64
        then Inl (ErrText ''invalid time or exhausted revision'')
      else Inr (opn\<lparr>op_Revision := op_Revision opn + 1, op_UpdatedAt := now\<rparr>))"

section \<open>The documented machine\<close>

text \<open>The table "Operation transitions" of \<open>docs/state_model.md\<close>, one rule per row.\<close>

inductive documented :: "OperationState \<Rightarrow> OperationState \<Rightarrow> bool" where
  "documented OperationPlanned OperationReady"
| "documented OperationReady OperationExecuting"
| "documented OperationExecuting OperationVerifying"
| "documented OperationExecuting OperationReady"
| "documented OperationExecuting OperationUnknownOutcome"
| "documented OperationVerifying OperationSucceeded"
| "documented OperationVerifying OperationReady"
| "documented OperationVerifying OperationFailed"
| "documented OperationVerifying OperationUnknownOutcome"
| "documented OperationUnknownOutcome OperationVerifying"
| "documented OperationPlanned OperationCancelled"
| "documented OperationReady OperationCancelled"

code_pred (modes: i \<Rightarrow> i \<Rightarrow> bool, i \<Rightarrow> o \<Rightarrow> bool) documented .

inductive_cases documented_from_unknown: "documented OperationUnknownOutcome to"
inductive_cases documented_to_succeeded: "documented from OperationSucceeded"

text \<open>Terminal operation states, and those in which an attempt is in charge.\<close>

definition terminal_operation :: "OperationState \<Rightarrow> bool" where
  "terminal_operation st \<longleftrightarrow> st \<in> {OperationSucceeded, OperationFailed, OperationCancelled}"

definition in_execution :: "OperationState \<Rightarrow> bool" where
  "in_execution st \<longleftrightarrow> st \<in> {OperationExecuting, OperationVerifying, OperationUnknownOutcome}"

lemma allowed_documented: "to \<in> set (allowedTransitions from) \<longleftrightarrow> documented from to"
  by (cases "from") (auto intro: documented.intros elim: documented.cases)

lemma terminal_no_exit: "terminal_operation from \<Longrightarrow> \<not> documented from to"
  by (auto simp: terminal_operation_def elim: documented.cases)

lemma documented_known: "documented from to \<Longrightarrow>
    in_execution to \<or> to \<in> {OperationReady, OperationSucceeded, OperationFailed, OperationCancelled}"
  by (auto simp: in_execution_def elim: documented.cases)

lemma HoldsConflictReservation_iff:
  "HoldsConflictReservation opn \<longleftrightarrow>
     od_EffectClass (op_Descriptor opn) = EffectMutation \<and> in_execution (op_State opn)"
  by (auto simp: HoldsConflictReservation_def in_execution_def split: OperationState.splits)

text \<open>What a successful transition has checked and done.\<close>

lemma Transition_Inr:
  "Transition opn rv to now = Inr next \<longleftrightarrow>
     op_Revision opn = rv \<and> rv \<noteq> 0 \<and> rv < MaxInt64 \<and> \<not> time_IsZero now
     \<and> documented (op_State opn) to
     \<and> next = opn\<lparr>op_State := to, op_Revision := rv + 1, op_UpdatedAt := now,
                  op_ActiveAttemptID := (if in_execution to then op_ActiveAttemptID opn else '''')\<rparr>"
  using documented_known[of "op_State opn" to]
  by (auto simp: Transition_def Let_def allowed_documented in_execution_def not_le)

lemma documented_sources: "documented from OperationExecuting \<longleftrightarrow> from = OperationReady"
  "documented from OperationUnknownOutcome \<longleftrightarrow> from \<in> {OperationExecuting, OperationVerifying}"
  by (auto intro: documented.intros elim: documented.cases)

lemma state_StartAttempt_Inr:
  "state_StartAttempt opn rv aid now = Inr (next, a) \<longleftrightarrow>
     aid \<noteq> '''' \<and> op_Revision opn = rv \<and> rv \<noteq> 0 \<and> rv < MaxInt64 \<and> \<not> time_IsZero now
     \<and> op_State opn = OperationReady \<and> op_LeaseGeneration opn < MaxInt64
     \<and> next = opn\<lparr>op_State := OperationExecuting, op_Revision := rv + 1, op_UpdatedAt := now,
                  op_LeaseGeneration := op_LeaseGeneration opn + 1, op_ActiveAttemptID := aid\<rparr>
     \<and> a = \<lparr>att_ID = aid, att_OperationID = od_ID (op_Descriptor opn), att_LeaseID = '''',
            att_LeaseGeneration = op_LeaseGeneration opn + 1, att_OwnerActorID = '''',
            att_RetryOf = '''', att_State = AttemptRunning, att_CreatedAt = now,
            att_UpdatedAt = now\<rparr>"
  by (simp add: state_StartAttempt_def bindR_Inr Transition_Inr Let_def in_execution_def
      documented_sources flip: not_less) (safe; simp)

lemma LoseExecutionCertainty_Inr:
  "LoseExecutionCertainty opn rv now = Inr next \<longleftrightarrow>
     op_Revision opn = rv \<and> rv \<noteq> 0 \<and> rv < MaxInt64 \<and> \<not> time_IsZero now
     \<and> op_State opn \<in> {OperationExecuting, OperationVerifying, OperationUnknownOutcome}
     \<and> next = opn\<lparr>op_State := OperationUnknownOutcome, op_Revision := rv + 1,
                  op_UpdatedAt := now\<rparr>"
  by (cases opn; cases "op_State opn = OperationUnknownOutcome";
      simp add: LoseExecutionCertainty_def Transition_Inr in_execution_def documented_sources
        flip: not_less; (safe; simp)?)

end
