(* ===== verification/Evidence.thy ===== *)
theory Evidence
  imports StateMachine
begin

text \<open>Package \<open>internal/evidence\<close> (\<open>model.go\<close>): evidence records, verifications, validation.\<close>

datatype Kind =
    KindDeliveryReceipt | KindWorkerReport | KindProviderReport | KindTransportObservation
  | KindTargetObservation | KindProcessObservation | KindArtifactObservation
  | KindVerificationResult | KindUserDecision | KindPolicyDecision | KindOther string

datatype Verdict =
    VerdictSatisfied | VerdictNotSatisfiedRetryable | VerdictNotSatisfiedTerminal
  | VerdictInconclusive | VerdictOther string

record Record =
  ev_ID :: EvidenceID
  ev_TaskID :: TaskID
  ev_OperationID :: OperationID
  ev_AttemptID :: AttemptID
  ev_Kind :: Kind
  ev_SourceActorID :: ActorID
  ev_ObservedAt :: go_time
  ev_SubjectRef :: string
  ev_Summary :: string
  ev_ArtifactRef :: string
  ev_Digest :: string

definition validate_record :: "Record \<Rightarrow> unit result" where
  "validate_record r =
     (if ev_ID r = '''' \<or> ev_TaskID r = '''' \<or> ev_OperationID r = '''' \<or> ev_SourceActorID r = ''''
        then Inl (ErrText ''evidence identity, task, operation, and source are required'')
      else if time_IsZero (ev_ObservedAt r) \<or> TrimSpace (ev_SubjectRef r) = ''''
        then Inl (ErrText ''observed_at and subject_ref are required'')
      else (case ev_Kind r of
              KindOther k \<Rightarrow> Inl (ErrText ''unknown evidence kind'')
            | _ \<Rightarrow> Inr ()))"

record Verification =
  ver_ID :: string
  ver_OperationID :: OperationID
  ver_AttemptID :: AttemptID
  ver_PolicyRef :: string
  ver_EvidenceIDs :: "EvidenceID list"
  ver_Verdict :: Verdict
  ver_RetryExecutionSafe :: bool
  ver_ActualStateSummary :: string
  ver_VerifiedAt :: go_time
  ver_VerifierActorID :: ActorID

definition validate_verification :: "Verification \<Rightarrow> unit result" where
  "validate_verification v =
     (if TrimSpace (ver_ID v) = '''' \<or> ver_OperationID v = '''' \<or> TrimSpace (ver_PolicyRef v) = ''''
         \<or> ver_VerifierActorID v = ''''
        then Inl (ErrText ''verification identity, operation, policy, and verifier are required'')
      else if time_IsZero (ver_VerifiedAt v) \<or> length (ver_EvidenceIDs v) = 0
        then Inl (ErrText ''verification timestamp and evidence are required'')
      else (case ver_Verdict v of
              VerdictSatisfied \<Rightarrow> Inr ()
            | VerdictNotSatisfiedTerminal \<Rightarrow> Inr ()
            | VerdictInconclusive \<Rightarrow> Inr ()
            | VerdictNotSatisfiedRetryable \<Rightarrow>
                (if \<not> ver_RetryExecutionSafe v
                 then Inl (ErrText ''retryable verdict requires execution safety confirmation'')
                 else Inr ())
            | VerdictOther s \<Rightarrow> Inl (ErrText ''unknown verification verdict'')))"

lemma validate_recordD:
  assumes "validate_record r = Inr u"
  shows "ev_ID r \<noteq> ''''" "ev_TaskID r \<noteq> ''''" "ev_OperationID r \<noteq> ''''"
    "ev_SourceActorID r \<noteq> ''''" "ev_Kind r \<noteq> KindOther k"
  using assms by (auto simp: validate_record_def split: if_splits)

lemma validate_verificationD:
  assumes "validate_verification v = Inr u"
  shows "ver_ID v \<noteq> ''''" "ver_OperationID v \<noteq> ''''" "ver_EvidenceIDs v \<noteq> []"
    "ver_Verdict v \<noteq> VerdictOther s"
    "ver_Verdict v = VerdictNotSatisfiedRetryable \<Longrightarrow> ver_RetryExecutionSafe v"
  using assms by (auto simp: validate_verification_def split: if_splits)

end
