(* ===== verification/Persistence.thy ===== *)
theory Persistence
  imports Evidence
begin

text \<open>
  Package \<open>internal/persistence\<close>: the stored records (\<open>repository.go\<close>), the retention constants
  (\<open>retention.go\<close>), and the contract of a keyed table of the \<open>Reader\<close>/\<open>Tx\<close> interfaces as a
  locale.  The interfaces' operations are interpreted by the memory store in \<open>Memory\<close>.
\<close>

record Message =
  msg_ID :: MessageID
  msg_TaskID :: TaskID
  msg_OperationID :: OperationID
  msg_AttemptID :: AttemptID
  msg_Digest :: string
  msg_IssuedAt :: go_time
  msg_ExpiresAt :: int

record Reservation =
  res_Scope :: string
  res_OperationID :: OperationID
  res_AttemptID :: AttemptID
  res_LeaseID :: LeaseID
  res_Generation :: uint64
  res_CreatedAt :: go_time

record Revocation =
  rvk_AttemptID :: AttemptID
  rvk_OperationID :: OperationID
  rvk_EvidenceID :: EvidenceID
  rvk_Reason :: string
  rvk_RevokedAt :: go_time

definition MaxPageSize :: int where "MaxPageSize = 100"

record TaskSummary =
  sum_Operations :: int
  sum_Pending :: int
  sum_Failed :: int
  sum_Cancelled :: int

definition ReplayWindow :: duration where "ReplayWindow = 7 * 24 * Hour"
definition TerminalRetention :: duration where "TerminalRetention = 30 * 24 * Hour"
definition MaxGCRows :: int where "MaxGCRows = 10000"

section \<open>The contract of a keyed table\<close>

text \<open>
  \<open>lookup\<close> is a method of \<open>Reader\<close> (\<open>Task\<close>, \<open>Operation\<close>, \<open>Attempt\<close>, ...), \<open>insert\<close> the \<open>Insert...\<close>
  method of \<open>Tx\<close> for the same table (\<open>Reserve\<close> for the reservations) and \<open>key\<close> the identity of a
  row.  The core relies on: reading changes nothing; a row that was inserted is found, and found
  unchanged; an insert never replaces a row and changes no other row; a refused insert changes
  nothing.
\<close>

locale keyed_table =
  fixes lookup :: "'k \<Rightarrow> ('s, 'v) st"
    and insert :: "'v \<Rightarrow> ('s, unit) st"
    and key :: "'v \<Rightarrow> 'k"
  assumes lookup_pure: "lookup k s = (r, s') \<Longrightarrow> s' = s"
    and lookup_absent: "lookup k s = (Inl e, s') \<Longrightarrow> e = ErrNotFound"
    and insert_found: "insert v s = (Inr u, s') \<Longrightarrow> fst (lookup (key v) s') = Inr v"
    and insert_fresh: "insert v s = (Inr u, s') \<Longrightarrow> fst (lookup (key v) s) = Inl ErrNotFound"
    and insert_other: "insert v s = (Inr u, s') \<Longrightarrow> k \<noteq> key v \<Longrightarrow> fst (lookup k s') = fst (lookup k s)"
    and insert_refused: "insert v s = (Inl e, s') \<Longrightarrow> s' = s"
begin

lemma lookup_state [simp]: "snd (lookup k s) = s"
  using lookup_pure[of k s "fst (lookup k s)" "snd (lookup k s)"] by simp

text \<open>Once a row is there, an insert with its key is refused.\<close>

lemma insert_taken:
  assumes "fst (lookup (key v) s) = Inr w"
  shows "\<exists>e. insert v s = (Inl e, s)"
proof (cases "insert v s")
  case (Pair r s')
  show ?thesis
  proof (cases r)
    case (Inl e)
    with Pair insert_refused[of v s e s'] show ?thesis by auto
  next
    case (Inr u)
    with Pair insert_fresh[of v s u s'] assms show ?thesis by simp
  qed
qed

lemma insert_twice:
  "insert v s = (Inr u, s') \<Longrightarrow> key w = key v \<Longrightarrow> \<exists>e. insert w s' = (Inl e, s')"
  using insert_found[of v s u s'] insert_taken[of w s' v] by simp

text \<open>Rows survive every further insert, successful or refused.\<close>

lemma insert_keeps:
  assumes "fst (lookup k s) = Inr w" and "insert v s = (r, s')"
  shows "fst (lookup k s') = Inr w"
proof (cases r)
  case (Inl e)
  with assms insert_refused show ?thesis by metis
next
  case (Inr u)
  with assms have ins: "insert v s = (Inr u, s')" by simp
  have "k \<noteq> key v" using insert_fresh[OF ins] assms(1) by auto
  then show ?thesis using insert_other[OF ins] assms(1) by simp
qed

text \<open>A loop of inserts leaves every inserted row, and keeps the rows that were there.\<close>

lemma insert_all_keeps:
  "fst (lookup k s) = Inr w \<Longrightarrow> forS vs insert s = (r, s') \<Longrightarrow> fst (lookup k s') = Inr w"
proof (induction vs arbitrary: s)
  case Nil
  then show ?case by (simp add: retS_eq)
next
  case (Cons v vs)
  obtain r1 s1 where 1: "insert v s = (r1, s1)" by fastforce
  have keep: "fst (lookup k s1) = Inr w" by (rule insert_keeps[OF Cons.prems(1) 1])
  show ?case
  proof (cases r1)
    case (Inl e)
    with 1 Cons.prems(2) keep show ?thesis by (simp add: bindS_err)
  next
    case (Inr u)
    with 1 Cons.prems(2) Cons.IH[OF keep] show ?thesis by (simp add: bindS_run)
  qed
qed

lemma insert_all_found:
  "forS vs insert s = (Inr u, s') \<Longrightarrow> v \<in> set vs \<Longrightarrow> fst (lookup (key v) s') = Inr v"
proof (induction vs arbitrary: s)
  case (Cons x vs)
  from Cons.prems(1) obtain u1 s1 where x: "insert x s = (Inr u1, s1)"
    and rest: "forS vs insert s1 = (Inr u, s')"
    by (auto simp: bindS_Inr)
  show ?case
  proof (cases "v \<in> set vs")
    case True
    with rest Cons.IH show ?thesis by blast
  next
    case False
    with Cons.prems(2) have "v = x" by simp
    with insert_all_keeps[OF insert_found[OF x] rest] show ?thesis by simp
  qed
qed simp

end

end
