(* ===== verification/Memory.thy ===== *)
theory Memory
  imports Persistence
begin

text \<open>
  Package \<open>internal/persistence/memory\<close>: the transactional reference store.  \<open>data\<close> is the struct of
  the same name, a \<open>transaction\<close> is the copy the callback works on with its write flag, and
  \<open>Repository\<close> the store itself.  Values are copied on input and output in the code
  (\<open>cloneOp\<close>, \<open>cloneVerification\<close>), so rows share nothing mutable: they are plain values here.
\<close>

section \<open>State (memory.go)\<close>

record data =
  d_messageFloor :: int
  d_revocations :: "(AttemptID, Revocation) fmap"
  d_tasks :: "(TaskID, Task) fmap"
  d_ops :: "(OperationID, Operation) fmap"
  d_attempts :: "(AttemptID, Attempt) fmap"
  d_evidence :: "(EvidenceID, Record) fmap"
  d_verifications :: "(string, Verification) fmap"
  d_messages :: "(MessageID, Message) fmap"
  d_reservations :: "(string, Reservation) fmap"

record transaction =
  tx_d :: data
  tx_write :: bool

record Repository =
  repo_d :: data
  repo_closed :: bool

type_synonym 'a tx = "(transaction, 'a) st"

definition empty_data :: data where
  "empty_data = \<lparr>d_messageFloor = 0, d_revocations = fmempty, d_tasks = fmempty, d_ops = fmempty,
     d_attempts = fmempty, d_evidence = fmempty, d_verifications = fmempty,
     d_messages = fmempty, d_reservations = fmempty\<rparr>"

definition memory_New :: Repository where
  "memory_New = \<lparr>repo_d = empty_data, repo_closed = False\<rparr>"

section \<open>Rows by key\<close>

definition map_get :: "('k, 'v) fmap \<Rightarrow> 'k \<Rightarrow> 'v result" where
  "map_get m k = (case fmlookup m k of None \<Rightarrow> Inl ErrNotFound | Some v \<Rightarrow> Inr v)"

definition readT :: "(data \<Rightarrow> 'a result) \<Rightarrow> 'a tx" where
  "readT f = (\<lambda>t. (f (tx_d t), t))"

text \<open>
  A write to \<open>t.d\<close>.  \<open>insert_into\<close> is the generic \<open>insert\<close> of \<open>memory.go\<close>; \<open>sel\<close> and \<open>upd\<close> name the
  table it works on.
\<close>

definition writeT :: "(data \<Rightarrow> data) \<Rightarrow> unit tx" where
  "writeT f = (\<lambda>t. (Inr (), t\<lparr>tx_d := f (tx_d t)\<rparr>))"

definition insert_into ::
  "(data \<Rightarrow> ('k, 'v) fmap) \<Rightarrow> ((('k, 'v) fmap \<Rightarrow> ('k, 'v) fmap) \<Rightarrow> data \<Rightarrow> data) \<Rightarrow> 'k \<Rightarrow> 'v \<Rightarrow> unit tx" where
  "insert_into sel upd k v = (\<lambda>t.
     if \<not> tx_write t then (Inl ErrIntegrity, t)
     else if fmlookup (sel (tx_d t)) k \<noteq> None then (Inl ErrDuplicateID, t)
     else writeT (upd (fmupd k v)) t)"

definition tx_Task :: "TaskID \<Rightarrow> Task tx" where
  [tx_defs]: "tx_Task ident = readT (\<lambda>d. map_get (d_tasks d) ident)"

definition tx_Operation :: "OperationID \<Rightarrow> Operation tx" where
  [tx_defs]: "tx_Operation ident = readT (\<lambda>d. map_get (d_ops d) ident)"

definition tx_Attempt :: "AttemptID \<Rightarrow> Attempt tx" where
  [tx_defs]: "tx_Attempt ident = readT (\<lambda>d. map_get (d_attempts d) ident)"

definition tx_Evidence :: "EvidenceID \<Rightarrow> Record tx" where
  [tx_defs]: "tx_Evidence ident = readT (\<lambda>d. map_get (d_evidence d) ident)"

definition tx_Verification :: "string \<Rightarrow> Verification tx" where
  [tx_defs]: "tx_Verification ident = readT (\<lambda>d. map_get (d_verifications d) ident)"

definition tx_Message :: "MessageID \<Rightarrow> Message tx" where
  [tx_defs]: "tx_Message ident = readT (\<lambda>d. map_get (d_messages d) ident)"

definition tx_Reservation :: "string \<Rightarrow> Reservation tx" where
  [tx_defs]: "tx_Reservation scope = readT (\<lambda>d. map_get (d_reservations d) scope)"

definition tx_Revocation :: "AttemptID \<Rightarrow> Revocation tx" where
  [tx_defs]: "tx_Revocation ident = readT (\<lambda>d. map_get (d_revocations d) ident)"

text \<open>\<open>sort.Slice\<close> by ident: the rows of the operation, in the order of their keys.\<close>

definition tx_EvidenceForOperation :: "OperationID \<Rightarrow> Record list tx" where
  [tx_defs]: "tx_EvidenceForOperation ident = readT (\<lambda>d.
     Inr (sort_key ev_ID (filter (\<lambda>v. ev_OperationID v = ident) (go_values (d_evidence d)))))"

definition tx_InsertTask :: "Task \<Rightarrow> unit tx" where
  [tx_defs]: "tx_InsertTask v = insert_into d_tasks d_tasks_update (task_ID v) v"

definition tx_InsertOperation :: "Operation \<Rightarrow> unit tx" where
  [tx_defs]: "tx_InsertOperation v =
     bindS (tx_Task (od_TaskID (op_Descriptor v))) (\<lambda>_.
       insert_into d_ops d_ops_update (od_ID (op_Descriptor v)) v)"

text \<open>Write methods that do not go through \<open>insert\<close> check the write flag themselves.\<close>

definition require_write :: "unit tx" where
  "require_write = (\<lambda>t. if \<not> tx_write t then (Inl ErrIntegrity, t) else (Inr (), t))"

definition tx_UpdateOperation :: "Operation \<Rightarrow> uint64 \<Rightarrow> unit tx" where
  [tx_defs]: "tx_UpdateOperation v expected =
     bindS require_write (\<lambda>_.
     bindS (tx_Operation (od_ID (op_Descriptor v))) (\<lambda>old.
     if op_Revision old \<noteq> expected then failS ErrRevisionConflict
     else if op_Revision v \<noteq> expected + 1 then failS ErrIntegrity
     else let v = v\<lparr>op_Descriptor := op_Descriptor old\<rparr> in
       writeT (d_ops_update (fmupd (od_ID (op_Descriptor v)) v))))"

definition tx_InsertAttempt :: "Attempt \<Rightarrow> unit tx" where
  [tx_defs]: "tx_InsertAttempt v =
     bindS (readT (\<lambda>d. guardR
         (\<not> list_ex (\<lambda>a. att_LeaseID a = att_LeaseID v) (go_values (d_attempts d)))
         ErrDuplicateID)) (\<lambda>_.
       insert_into d_attempts d_attempts_update (att_ID v) v)"

definition tx_UpdateAttempt :: "Attempt \<Rightarrow> unit tx" where
  [tx_defs]: "tx_UpdateAttempt v =
     bindS require_write (\<lambda>_.
     bindS (tx_Attempt (att_ID v)) (\<lambda>old.
     if att_OperationID old \<noteq> att_OperationID v \<or> att_LeaseID old \<noteq> att_LeaseID v
        \<or> att_LeaseGeneration old \<noteq> att_LeaseGeneration v
        \<or> att_OwnerActorID old \<noteq> att_OwnerActorID v then failS ErrIntegrity
     else writeT (d_attempts_update (fmupd (att_ID v) v))))"

definition tx_InsertEvidence :: "Record \<Rightarrow> unit tx" where
  [tx_defs]: "tx_InsertEvidence v = insert_into d_evidence d_evidence_update (ev_ID v) v"

definition tx_InsertVerification :: "Verification \<Rightarrow> unit tx" where
  [tx_defs]: "tx_InsertVerification v =
     insert_into d_verifications d_verifications_update (ver_ID v) v"

definition tx_InsertMessage :: "Message \<Rightarrow> unit tx" where
  [tx_defs]: "tx_InsertMessage v = insert_into d_messages d_messages_update (msg_ID v) v"

definition tx_Reserve :: "Reservation \<Rightarrow> unit tx" where
  [tx_defs]: "tx_Reserve v =
     bindS (readT (\<lambda>d. guardR (fmlookup (d_reservations d) (res_Scope v) = None) ErrConflictScope))
       (\<lambda>_. insert_into d_reservations d_reservations_update (res_Scope v) v)"

definition tx_Release :: "OperationID \<Rightarrow> unit tx" where
  [tx_defs]: "tx_Release ident =
     bindS require_write (\<lambda>_.
       writeT (d_reservations_update (delete_where (\<lambda>v. res_OperationID v = ident))))"

definition tx_OperationsAfter :: "OperationID \<Rightarrow> int \<Rightarrow> Operation list tx" where
  [tx_defs]: "tx_OperationsAfter after limit = readT (\<lambda>d.
     if limit < 1 \<or> limit > MaxPageSize then Inl ErrIntegrity
     else let ids = take (nat limit) (sort (filter (\<lambda>ident. ident > after) (go_keys (d_ops d))))
       in Inr (map (\<lambda>ident. the (fmlookup (d_ops d) ident)) ids))"

definition tx_InsertRevocation :: "Revocation \<Rightarrow> unit tx" where
  [tx_defs]: "tx_InsertRevocation v =
     insert_into d_revocations d_revocations_update (rvk_AttemptID v) v"

section \<open>Retention (retention.go)\<close>

definition tx_MessageFloor :: "int tx" where
  [tx_defs]: "tx_MessageFloor = readT (\<lambda>d. Inr (d_messageFloor d))"

definition tx_SetMessageFloor :: "int \<Rightarrow> unit tx" where
  [tx_defs]: "tx_SetMessageFloor v =
     bindS require_write (\<lambda>_.
       writeT (\<lambda>d. if v > d_messageFloor d then d\<lparr>d_messageFloor := v\<rparr> else d))"

definition memory_terminal :: "TaskState \<Rightarrow> bool" where
  "memory_terminal s \<longleftrightarrow> s = TaskCompleted \<or> s = TaskFailed \<or> s = TaskCancelled"

definition tx_UpdateTask :: "Task \<Rightarrow> uint64 \<Rightarrow> unit tx" where
  [tx_defs]: "tx_UpdateTask v revision =
     bindS require_write (\<lambda>_.
     bindS (tx_Task (task_ID v)) (\<lambda>old.
     if task_Revision old \<noteq> revision then failS ErrRevisionConflict
     else if task_Revision v \<noteq> revision + 1 then failS ErrIntegrity
     else writeT (d_tasks_update (fmupd (task_ID v) v))))"

definition summary_step :: "data \<Rightarrow> TaskID \<Rightarrow> TaskSummary \<Rightarrow> Operation \<Rightarrow> TaskSummary" where
  "summary_step d ident out opn =
     (if od_TaskID (op_Descriptor opn) \<noteq> ident then out
      else let out = out\<lparr>sum_Operations := sum_Operations out + 1\<rparr>;
               out = (case op_State opn of
                   OperationSucceeded \<Rightarrow> out
                 | OperationFailed \<Rightarrow> out\<lparr>sum_Failed := sum_Failed out + 1\<rparr>
                 | OperationCancelled \<Rightarrow> out\<lparr>sum_Cancelled := sum_Cancelled out + 1\<rparr>
                 | _ \<Rightarrow> out\<lparr>sum_Pending := sum_Pending out + 1\<rparr>)
           in if list_ex (\<lambda>v. res_OperationID v = od_ID (op_Descriptor opn))
                (go_values (d_reservations d))
              then out\<lparr>sum_Pending := sum_Pending out + 1\<rparr> else out)"

definition task_summary :: "data \<Rightarrow> TaskID \<Rightarrow> TaskSummary" where
  "task_summary d ident =
     foldl (summary_step d ident)
       \<lparr>sum_Operations = 0, sum_Pending = 0, sum_Failed = 0, sum_Cancelled = 0\<rparr>
       (go_values (d_ops d))"

definition tx_TaskSummary :: "TaskID \<Rightarrow> TaskSummary tx" where
  [tx_defs]: "tx_TaskSummary ident = readT (\<lambda>d. Inr (task_summary d ident))"

definition tx_TerminalTasksAfter :: "TaskID \<Rightarrow> int \<Rightarrow> int \<Rightarrow> Task list tx" where
  [tx_defs]: "tx_TerminalTasksAfter after cutoff limit = readT (\<lambda>d.
     if limit < 1 \<or> limit > MaxPageSize then Inl ErrIntegrity
     else let ids = take (nat limit) (sort (map fst (filter
         (\<lambda>(ident, v). ident > after \<and> memory_terminal (task_State v)
                   \<and> time_Unix (task_UpdatedAt v) < cutoff) (go_range (d_tasks d)))))
       in Inr (map (\<lambda>ident. the (fmlookup (d_tasks d) ident)) ids))"

definition tx_TaskOperations :: "TaskID \<Rightarrow> int \<Rightarrow> OperationID list tx" where
  [tx_defs]: "tx_TaskOperations ident limit = readT (\<lambda>d.
     if limit < 1 \<or> limit > MaxGCRows then Inl ErrIntegrity
     else Inr (take (nat limit) (sort (map fst (filter
         (\<lambda>(key, opn). od_TaskID (op_Descriptor opn) = ident) (go_range (d_ops d)))))))"

text \<open>The \<open>n++\<close> of the counting loops.\<close>

definition count_rows :: "('v \<Rightarrow> bool) \<Rightarrow> ('k::linorder, 'v) fmap \<Rightarrow> int" where
  "count_rows P m = int (length (filter P (go_values m)))"

definition operation_rows :: "data \<Rightarrow> OperationID \<Rightarrow> Operation \<Rightarrow> int" where
  "operation_rows d ident opn =
     1 + int (length (od_ConflictScope (op_Descriptor opn)))
     + count_rows (\<lambda>v. att_OperationID v = ident) (d_attempts d)
     + count_rows (\<lambda>v. ev_OperationID v = ident) (d_evidence d)
     + (\<Sum>v \<leftarrow> filter (\<lambda>v. ver_OperationID v = ident) (go_values (d_verifications d)).
          1 + int (length (ver_EvidenceIDs v)))
     + count_rows (\<lambda>v. rvk_OperationID v = ident) (d_revocations d)"

definition tx_OperationRows :: "OperationID \<Rightarrow> int \<Rightarrow> int tx" where
  [tx_defs]: "tx_OperationRows ident limit =
     bindS (tx_Operation ident) (\<lambda>opn.
       readT (\<lambda>d. Inr (min (operation_rows d ident opn) limit)))"

definition message_expired :: "data \<Rightarrow> TaskID \<Rightarrow> bool \<Rightarrow> int \<Rightarrow> int \<Rightarrow> Message \<Rightarrow> bool" where
  "message_expired d ident orphan now mfloor v =
     (let matches =
        (if orphan then fmlookup (d_tasks d) (msg_TaskID v) = None
           \<and> fmlookup (d_ops d) (msg_OperationID v) = None
           \<and> fmlookup (d_attempts d) (msg_AttemptID v) = None
         else msg_TaskID v = ident)
      in matches \<and> msg_ExpiresAt v < now \<and> time_Unix (msg_IssuedAt v) < mfloor)"

definition tx_ExpiredMessages :: "TaskID \<Rightarrow> bool \<Rightarrow> int \<Rightarrow> int \<Rightarrow> int \<Rightarrow> MessageID list tx" where
  [tx_defs]: "tx_ExpiredMessages ident orphan now mfloor limit = readT (\<lambda>d.
     if limit < 1 \<or> limit > MaxGCRows then Inl ErrIntegrity
     else Inr (take (nat limit) (sort (map fst (filter
         (\<lambda>(key, v). message_expired d ident orphan now mfloor v) (go_range (d_messages d)))))))"

definition tx_TaskHasMessages :: "TaskID \<Rightarrow> bool tx" where
  [tx_defs]: "tx_TaskHasMessages ident = readT (\<lambda>d.
     Inr (list_ex (\<lambda>v. msg_TaskID v = ident) (go_values (d_messages d))))"

text \<open>A missing attempt or operation reads as Go's zero value, whose task is the empty string.\<close>

definition task_of_op :: "data \<Rightarrow> OperationID \<Rightarrow> TaskID" where
  "task_of_op d ident =
     (case fmlookup (d_ops d) ident of None \<Rightarrow> '''' | Some opn \<Rightarrow> od_TaskID (op_Descriptor opn))"

definition message_unsafe :: "data \<Rightarrow> TaskID \<Rightarrow> int \<Rightarrow> int \<Rightarrow> Message \<Rightarrow> bool" where
  "message_unsafe d ident now mfloor v \<longleftrightarrow>
     msg_TaskID v = ident
     \<and> (msg_ExpiresAt v \<ge> now \<or> time_Unix (msg_IssuedAt v) \<ge> mfloor
        \<or> (fmlookup (d_ops d) (msg_OperationID v) \<noteq> None \<and> task_of_op d (msg_OperationID v) \<noteq> ident)
        \<or> (case fmlookup (d_attempts d) (msg_AttemptID v) of
             None \<Rightarrow> False | Some a \<Rightarrow> task_of_op d (att_OperationID a) \<noteq> ident))"

definition tx_TaskMessagesSafe :: "TaskID \<Rightarrow> int \<Rightarrow> int \<Rightarrow> bool tx" where
  [tx_defs]: "tx_TaskMessagesSafe ident now mfloor = readT (\<lambda>d.
     Inr (\<not> list_ex (message_unsafe d ident now mfloor) (go_values (d_messages d))))"

definition tx_DeleteOperationGraph :: "OperationID \<Rightarrow> unit tx" where
  [tx_defs]: "tx_DeleteOperationGraph ident =
     bindS require_write (\<lambda>_.
     bindS (readT (\<lambda>d. guardR
         (\<not> list_ex (\<lambda>v. res_OperationID v = ident) (go_values (d_reservations d))) ErrIntegrity)) (\<lambda>_.
     bindS (writeT (d_revocations_update (delete_where (\<lambda>v. rvk_OperationID v = ident)))) (\<lambda>_.
     bindS (writeT (d_verifications_update (delete_where (\<lambda>v. ver_OperationID v = ident)))) (\<lambda>_.
     bindS (writeT (d_evidence_update (delete_where (\<lambda>v. ev_OperationID v = ident)))) (\<lambda>_.
     bindS (writeT (d_attempts_update (delete_where (\<lambda>v. att_OperationID v = ident)))) (\<lambda>_.
     writeT (d_ops_update (fmdrop ident))))))))"

definition tx_DeleteMessages :: "MessageID list \<Rightarrow> unit tx" where
  [tx_defs]: "tx_DeleteMessages ids =
     bindS require_write (\<lambda>_. forS ids (\<lambda>ident. writeT (d_messages_update (fmdrop ident))))"

definition tx_DeleteTask :: "TaskID \<Rightarrow> unit tx" where
  [tx_defs]: "tx_DeleteTask ident =
     bindS require_write (\<lambda>_.
     bindS (tx_TaskSummary ident) (\<lambda>summary.
     bindS (tx_TaskHasMessages ident) (\<lambda>has.
     if sum_Operations summary \<noteq> 0 \<or> has then failS ErrIntegrity
     else writeT (d_tasks_update (fmdrop ident)))))"

section \<open>Transactions (memory.go: run, View, Update, Close)\<close>

text \<open>
  \<open>run\<close> works on a copy and installs it only when the callback and the context agree.  The
  timeout \<open>run\<close> puts on the context, and the wait for the lock, are in the context's answers.
\<close>

definition memory_run ::
  "context3 \<Rightarrow> bool \<Rightarrow> 'a tx \<Rightarrow> Repository \<Rightarrow> 'a result \<times> Repository" where
  "memory_run ctx write fn r =
     (case ctx_lock ctx of Some e \<Rightarrow> (Inl e, r) | None \<Rightarrow>
      case ctx_before ctx of Some e \<Rightarrow> (Inl e, r) | None \<Rightarrow>
      if repo_closed r then (Inl ErrClosed, r)
      else (case fn \<lparr>tx_d = repo_d r, tx_write = write\<rparr> of
          (Inl e, t) \<Rightarrow> (Inl e, r)
        | (Inr v, t) \<Rightarrow> (case ctx_after ctx of
              Some e \<Rightarrow> (Inl e, r)
            | None \<Rightarrow> (Inr v, if write then r\<lparr>repo_d := tx_d t\<rparr> else r))))"

definition memory_View :: "context3 \<Rightarrow> 'a tx \<Rightarrow> Repository \<Rightarrow> 'a result \<times> Repository" where
  "memory_View ctx fn r = memory_run ctx False fn r"

definition memory_Update :: "context3 \<Rightarrow> 'a tx \<Rightarrow> Repository \<Rightarrow> 'a result \<times> Repository" where
  "memory_Update ctx fn r = memory_run ctx True fn r"

definition memory_Close :: "context3 \<Rightarrow> Repository \<Rightarrow> unit result \<times> Repository" where
  "memory_Close ctx r =
     (case ctx_lock ctx of Some e \<Rightarrow> (Inl e, r) | None \<Rightarrow> (Inr (), r\<lparr>repo_closed := True\<rparr>))"

section \<open>What a successful storage operation did\<close>

lemma map_get_Inr [run_simps]: "map_get m k = Inr v \<longleftrightarrow> fmlookup m k = Some v"
  and map_get_Inl [run_simps]: "map_get m k = Inl e \<longleftrightarrow> fmlookup m k = None \<and> e = ErrNotFound"
  by (auto simp: map_get_def split: option.splits)

lemma readT_eq [run_simps]: "readT f t = (r, t') \<longleftrightarrow> f (tx_d t) = r \<and> t' = t"
  by (auto simp: readT_def)

lemma writeT_eq [run_simps]: "writeT f t = (r, t') \<longleftrightarrow> r = Inr () \<and> t' = t\<lparr>tx_d := f (tx_d t)\<rparr>"
  by (auto simp: writeT_def)

lemma require_write_eq [run_simps]: "require_write t = (Inr u, t') \<longleftrightarrow> tx_write t \<and> t' = t"
  by (auto simp: require_write_def)

lemma insert_into_Inr [run_simps]:
  "insert_into sel upd k v t = (Inr u, t') \<longleftrightarrow>
     tx_write t \<and> fmlookup (sel (tx_d t)) k = None
     \<and> t' = t\<lparr>tx_d := upd (fmupd k v) (tx_d t)\<rparr>"
  by (auto simp: insert_into_def writeT_def)

lemma insert_into_Inl:
  "insert_into sel upd k v t = (Inl e, t') \<Longrightarrow> t' = t"
  by (auto simp: insert_into_def writeT_def split: if_splits)

lemma tx_reads [run_simps]:
  "tx_Task ident t = (r, t') \<longleftrightarrow> map_get (d_tasks (tx_d t)) ident = r \<and> t' = t"
  "tx_Operation ident t = (ro, t') \<longleftrightarrow> map_get (d_ops (tx_d t)) ident = ro \<and> t' = t"
  "tx_Attempt ident t = (ra, t') \<longleftrightarrow> map_get (d_attempts (tx_d t)) ident = ra \<and> t' = t"
  "tx_Evidence ident t = (re, t') \<longleftrightarrow> map_get (d_evidence (tx_d t)) ident = re \<and> t' = t"
  "tx_Verification ident t = (rv, t') \<longleftrightarrow> map_get (d_verifications (tx_d t)) ident = rv \<and> t' = t"
  "tx_Message ident t = (rm, t') \<longleftrightarrow> map_get (d_messages (tx_d t)) ident = rm \<and> t' = t"
  "tx_Reservation scope t = (rr, t') \<longleftrightarrow> map_get (d_reservations (tx_d t)) scope = rr \<and> t' = t"
  "tx_Revocation ident t = (rk, t') \<longleftrightarrow> map_get (d_revocations (tx_d t)) ident = rk \<and> t' = t"
  "tx_MessageFloor t = (rf, t') \<longleftrightarrow> rf = Inr (d_messageFloor (tx_d t)) \<and> t' = t"
  "tx_TaskSummary ident t = (rs, t') \<longleftrightarrow> rs = Inr (task_summary (tx_d t) ident) \<and> t' = t"
  "tx_TaskHasMessages ident t = (rh, t') \<longleftrightarrow>
     rh = Inr (\<exists>k v. fmlookup (d_messages (tx_d t)) k = Some v \<and> msg_TaskID v = ident) \<and> t' = t"
  by (auto simp: tx_defs readT_eq)

lemma tx_InsertTask_Inr [run_simps]:
  "tx_InsertTask v t = (Inr u, t') \<longleftrightarrow> tx_write t \<and> fmlookup (d_tasks (tx_d t)) (task_ID v) = None
     \<and> t' = t\<lparr>tx_d := d_tasks_update (fmupd (task_ID v) v) (tx_d t)\<rparr>"
  by (simp add: tx_defs run_simps)

lemma tx_InsertOperation_Inr [run_simps]:
  "tx_InsertOperation v t = (Inr u, t') \<longleftrightarrow>
     (\<exists>task. fmlookup (d_tasks (tx_d t)) (od_TaskID (op_Descriptor v)) = Some task)
     \<and> tx_write t \<and> fmlookup (d_ops (tx_d t)) (od_ID (op_Descriptor v)) = None
     \<and> t' = t\<lparr>tx_d := d_ops_update (fmupd (od_ID (op_Descriptor v)) v) (tx_d t)\<rparr>"
  unfolding tx_InsertOperation_def by (auto simp: run_simps)

lemma tx_UpdateOperation_Inr [run_simps]:
  "tx_UpdateOperation v expected t = (Inr u, t') \<longleftrightarrow>
     (\<exists>old. fmlookup (d_ops (tx_d t)) (od_ID (op_Descriptor v)) = Some old
       \<and> tx_write t \<and> op_Revision old = expected \<and> op_Revision v = expected + 1
       \<and> t' = t\<lparr>tx_d := d_ops_update (fmupd (od_ID (op_Descriptor old))
            (v\<lparr>op_Descriptor := op_Descriptor old\<rparr>)) (tx_d t)\<rparr>)"
  unfolding tx_UpdateOperation_def by (auto simp: run_simps split: if_splits)

lemma tx_InsertAttempt_Inr [run_simps]:
  "tx_InsertAttempt v t = (Inr u, t') \<longleftrightarrow>
     (\<forall>k a. fmlookup (d_attempts (tx_d t)) k = Some a \<longrightarrow> att_LeaseID a \<noteq> att_LeaseID v)
     \<and> tx_write t \<and> fmlookup (d_attempts (tx_d t)) (att_ID v) = None
     \<and> t' = t\<lparr>tx_d := d_attempts_update (fmupd (att_ID v) v) (tx_d t)\<rparr>"
  unfolding tx_InsertAttempt_def by (auto simp: run_simps)

lemma tx_UpdateAttempt_Inr [run_simps]:
  "tx_UpdateAttempt v t = (Inr u, t') \<longleftrightarrow>
     (\<exists>old. fmlookup (d_attempts (tx_d t)) (att_ID v) = Some old \<and> tx_write t
       \<and> att_OperationID old = att_OperationID v \<and> att_LeaseID old = att_LeaseID v
       \<and> att_LeaseGeneration old = att_LeaseGeneration v
       \<and> att_OwnerActorID old = att_OwnerActorID v
       \<and> t' = t\<lparr>tx_d := d_attempts_update (fmupd (att_ID v) v) (tx_d t)\<rparr>)"
  unfolding tx_UpdateAttempt_def by (auto simp: run_simps split: if_splits)

lemma tx_simple_inserts [run_simps]:
  "tx_InsertEvidence v t = (Inr u, t') \<longleftrightarrow> tx_write t
     \<and> fmlookup (d_evidence (tx_d t)) (ev_ID v) = None
     \<and> t' = t\<lparr>tx_d := d_evidence_update (fmupd (ev_ID v) v) (tx_d t)\<rparr>"
  "tx_InsertVerification w t = (Inr u, t') \<longleftrightarrow> tx_write t
     \<and> fmlookup (d_verifications (tx_d t)) (ver_ID w) = None
     \<and> t' = t\<lparr>tx_d := d_verifications_update (fmupd (ver_ID w) w) (tx_d t)\<rparr>"
  "tx_InsertMessage m t = (Inr u, t') \<longleftrightarrow> tx_write t
     \<and> fmlookup (d_messages (tx_d t)) (msg_ID m) = None
     \<and> t' = t\<lparr>tx_d := d_messages_update (fmupd (msg_ID m) m) (tx_d t)\<rparr>"
  "tx_InsertRevocation x t = (Inr u, t') \<longleftrightarrow> tx_write t
     \<and> fmlookup (d_revocations (tx_d t)) (rvk_AttemptID x) = None
     \<and> t' = t\<lparr>tx_d := d_revocations_update (fmupd (rvk_AttemptID x) x) (tx_d t)\<rparr>"
  by (simp_all add: tx_defs run_simps)

lemma tx_Reserve_Inr [run_simps]:
  "tx_Reserve v t = (Inr u, t') \<longleftrightarrow> tx_write t
     \<and> fmlookup (d_reservations (tx_d t)) (res_Scope v) = None
     \<and> t' = t\<lparr>tx_d := d_reservations_update (fmupd (res_Scope v) v) (tx_d t)\<rparr>"
  unfolding tx_Reserve_def by (auto simp: run_simps)

lemma tx_Release_Inr [run_simps]:
  "tx_Release ident t = (Inr u, t') \<longleftrightarrow> tx_write t
     \<and> t' = t\<lparr>tx_d := d_reservations_update (delete_where (\<lambda>v. res_OperationID v = ident)) (tx_d t)\<rparr>"
  unfolding tx_Release_def by (auto simp: run_simps)

lemma tx_UpdateTask_Inr [run_simps]:
  "tx_UpdateTask v revision t = (Inr u, t') \<longleftrightarrow>
     (\<exists>old. fmlookup (d_tasks (tx_d t)) (task_ID v) = Some old \<and> tx_write t
       \<and> task_Revision old = revision \<and> task_Revision v = revision + 1
       \<and> t' = t\<lparr>tx_d := d_tasks_update (fmupd (task_ID v) v) (tx_d t)\<rparr>)"
  unfolding tx_UpdateTask_def by (auto simp: run_simps split: if_splits)

section \<open>The tables of the store meet the contract\<close>

lemma keyed_insert_into:
  assumes look: "\<And>k t. lookup k t = (map_get (sel (tx_d t)) k, t)"
    and sel: "\<And>f d. sel (upd f d) = f (sel d)"
    and ins: "\<And>v t u t'. add v t = (Inr u, t') \<Longrightarrow>
        insert_into sel upd (key v) v t = (Inr u, t')"
    and refused: "\<And>v t e t'. add v t = (Inl e, t') \<Longrightarrow> t' = t"
  shows "keyed_table lookup add key"
proof (unfold_locales, goal_cases)
  case (3 v s u s')
  from ins[OF 3] have "s' = s\<lparr>tx_d := upd (fmupd (key v) v) (tx_d s)\<rparr>" by (simp add: run_simps)
  then show ?case by (simp add: look sel map_get_def)
next
  case (5 v s u s' k)
  from ins[OF 5(1)] have "s' = s\<lparr>tx_d := upd (fmupd (key v) v) (tx_d s)\<rparr>" by (simp add: run_simps)
  with 5(2) show ?case by (simp add: look sel map_get_def)
qed (use ins refused in \<open>force simp: look run_simps map_get_def split: option.splits\<close>)+

lemma refused_pure: "bindS (readT f) (\<lambda>x. insert_into sel upd k v) t = (Inl e, t') \<Longrightarrow> t' = t"
  by (auto simp: bindS_Inl readT_eq dest: insert_into_Inl)

interpretation tasks: keyed_table tx_Task tx_InsertTask task_ID
  by (rule keyed_insert_into[where sel = d_tasks and upd = d_tasks_update])
     (auto simp: tx_defs readT_def dest: insert_into_Inl)

interpretation operations: keyed_table tx_Operation tx_InsertOperation "\<lambda>v. od_ID (op_Descriptor v)"
  by (rule keyed_insert_into[where sel = d_ops and upd = d_ops_update])
     (auto simp: tx_defs bindS_Inr readT_eq readT_def dest: refused_pure[unfolded readT_def])

interpretation attempts: keyed_table tx_Attempt tx_InsertAttempt att_ID
  by (rule keyed_insert_into[where sel = d_attempts and upd = d_attempts_update])
     (auto simp: tx_defs bindS_Inr readT_eq readT_def dest: refused_pure[unfolded readT_def])

interpretation evidence: keyed_table tx_Evidence tx_InsertEvidence ev_ID
  by (rule keyed_insert_into[where sel = d_evidence and upd = d_evidence_update])
     (auto simp: tx_defs readT_def dest: insert_into_Inl)

interpretation verifications: keyed_table tx_Verification tx_InsertVerification ver_ID
  by (rule keyed_insert_into[where sel = d_verifications and upd = d_verifications_update])
     (auto simp: tx_defs readT_def dest: insert_into_Inl)

interpretation messages: keyed_table tx_Message tx_InsertMessage msg_ID
  by (rule keyed_insert_into[where sel = d_messages and upd = d_messages_update])
     (auto simp: tx_defs readT_def dest: insert_into_Inl)

interpretation reservations: keyed_table tx_Reservation tx_Reserve res_Scope
  by (rule keyed_insert_into[where sel = d_reservations and upd = d_reservations_update])
     (auto simp: tx_defs bindS_Inr readT_eq readT_def dest: refused_pure[unfolded readT_def])

interpretation revocations: keyed_table tx_Revocation tx_InsertRevocation rvk_AttemptID
  by (rule keyed_insert_into[where sel = d_revocations and upd = d_revocations_update])
     (auto simp: tx_defs readT_def dest: insert_into_Inl)

section \<open>Transactions are atomic\<close>

text \<open>
  The contract of a repository as the store uses it: a call that fails leaves the repository as
  it was, reading leaves it as it was, and a call that succeeds installs exactly what the callback
  left.  An invariant of the data that a callback keeps is then kept by the call.
\<close>

locale atomic_repository =
  fixes view update :: "'c \<Rightarrow> ('t, 'a) st \<Rightarrow> 'r \<Rightarrow> 'a result \<times> 'r"
    and open_tx :: "bool \<Rightarrow> 'r \<Rightarrow> 't"
    and install :: "'t \<Rightarrow> 'r \<Rightarrow> 'r"
  assumes update_failed: "update c f r = (Inl e, r') \<Longrightarrow> r' = r"
    and update_ran: "update c f r = (Inr v, r') \<Longrightarrow>
        \<exists>t. f (open_tx True r) = (Inr v, t) \<and> r' = install t r"
    and view_same: "view c f r = (x, r') \<Longrightarrow> r' = r"
    and view_ran: "view c f r = (Inr v, r') \<Longrightarrow> \<exists>t. f (open_tx False r) = (Inr v, t)"
begin

lemma update_keeps:
  assumes "I r" and "\<And>t v. f (open_tx True r) = (Inr v, t) \<Longrightarrow> I (install t r)"
    and "update c f r = (x, r')"
  shows "I r'"
proof (cases x)
  case (Inl e)
  with assms(1,3) update_failed show ?thesis by metis
next
  case (Inr v)
  with assms(2,3) update_ran show ?thesis by metis
qed

lemma view_keeps: "I r \<Longrightarrow> view c f r = (x, r') \<Longrightarrow> I r'"
  using view_same by metis

end

definition begin_tx :: "bool \<Rightarrow> Repository \<Rightarrow> transaction" where
  "begin_tx write r = \<lparr>tx_d = repo_d r, tx_write = write\<rparr>"

definition commit_tx :: "transaction \<Rightarrow> Repository \<Rightarrow> Repository" where
  "commit_tx t r = r\<lparr>repo_d := tx_d t\<rparr>"

interpretation memory: atomic_repository memory_View memory_Update begin_tx commit_tx
  by unfold_locales
     (auto simp: memory_View_def memory_Update_def memory_run_def begin_tx_def commit_tx_def
        split: option.splits if_splits prod.splits sum.splits)

end
