(* ===== verification/Core.thy ===== *)
theory Core
  imports Memory Sha256
begin

text \<open>
  Package \<open>internal/core\<close>: the decisions of the control plane (\<open>store.go\<close>, \<open>worker.go\<close>, the writing
  half of \<open>recovery.go\<close>) over one storage transaction.  The unexported methods of \<open>Transaction\<close> are
  functions of the storage transaction; where Go returns a value beside a non-nil error, only
  the error is kept, as every caller does.  \<open>s.now\<close> is an argument.
\<close>

section \<open>Messages (store.go: registerMessage)\<close>

text \<open>
  \<open>json.Marshal\<close> of an envelope is the parameter \<open>marshal\<close> (its number formatting is not modelled);
  the digest over the encoded bytes is computed.
\<close>

type_synonym marshal = "Envelope \<Rightarrow> string result"

definition message_digest :: "marshal \<Rightarrow> Envelope \<Rightarrow> string result" where
  "message_digest marshal env =
     bindR (marshal env) (\<lambda>encoded. Inr (''v1:'' @ sha256_hex encoded))"

definition terminalTask :: "TaskState \<Rightarrow> bool" where
  "terminalTask s \<longleftrightarrow> s = TaskCompleted \<or> s = TaskFailed \<or> s = TaskCancelled"

text \<open>
  The idiom \<open>v, e := read(); if e == nil && bad(v) { return err }; if e != nil && !errors.Is(e,
  ErrNotFound) { return e }\<close>: an absent row is fine, a present one must not be bad.
\<close>

definition reject_found :: "'a tx \<Rightarrow> ('a \<Rightarrow> bool) \<Rightarrow> error \<Rightarrow> unit tx" where
  "reject_found m bad err = tryS m (\<lambda>r. case r of
       Inr v \<Rightarrow> if bad v then failS err else retS ()
     | Inl e \<Rightarrow> if errors_is e ErrNotFound then retS () else failS e)"

definition registerMessage :: "marshal \<Rightarrow> go_time \<Rightarrow> Envelope \<Rightarrow> bool tx" where
  "registerMessage marshal now env =
     bindS (liftR (validate_envelope env)) (\<lambda>_.
     bindS tx_MessageFloor (\<lambda>mfloor.
     let cutoff = time_Unix (now - ReplayWindow);
         cutoff = (if mfloor > cutoff then mfloor else cutoff)
     in if time_Unix (env_IssuedAt env) < cutoff \<or> env_IssuedAt env > now + 5 * Minute
        then failS ErrExpiredMessage
     else
     let env = env\<lparr>env_IssuedAt := time_UTC (env_IssuedAt env),
                   env_DeadlineAt := map_option time_UTC (env_DeadlineAt env)\<rparr>
     in bindS (liftR (message_digest marshal env)) (\<lambda>digest.
     tryS (tx_Message (env_MessageID env)) (\<lambda>existing. case existing of
       Inr m \<Rightarrow> if msg_Digest m = digest then retS True else failS ErrMessageIDCollision
     | Inl err \<Rightarrow>
       if \<not> errors_is err ErrNotFound then failS err else
       bindS (if env_OperationID env \<noteq> ''''
              then reject_found (tx_Operation (env_OperationID env))
                (\<lambda>opn. od_TaskID (op_Descriptor opn) \<noteq> env_TaskID env) ErrEvidenceScope
              else retS ()) (\<lambda>_.
       bindS (if env_AttemptID env \<noteq> ''''
              then reject_found (tx_Attempt (env_AttemptID env))
                (\<lambda>a. att_OperationID a \<noteq> env_OperationID env) ErrEvidenceScope
              else retS ()) (\<lambda>_.
       bindS (reject_found (tx_Task (env_TaskID env))
                (\<lambda>task. terminalTask (task_State task)) ErrTaskTerminal) (\<lambda>_.
       let expires = time_Unix (now + ReplayWindow);
           other = time_Unix (env_IssuedAt env + ReplayWindow);
           expires = (if other > expires then other else expires)
       in bindS (tx_InsertMessage \<lparr>msg_ID = env_MessageID env, msg_TaskID = env_TaskID env,
            msg_OperationID = env_OperationID env, msg_AttemptID = env_AttemptID env,
            msg_Digest = digest, msg_IssuedAt = env_IssuedAt env, msg_ExpiresAt = expires\<rparr>)
          (\<lambda>_. retS False))))))))"

section \<open>Tasks and operations (store.go)\<close>

definition createTask :: "TaskID \<Rightarrow> go_time \<Rightarrow> Task tx" where
  "createTask ident now =
     (if ident = '''' \<or> time_IsZero now then failS (ErrText ''task id and time are required'')
      else let v = \<lparr>task_ID = ident, task_State = TaskPlanned, task_Revision = 1,
                    task_CreatedAt = time_UTC now, task_UpdatedAt = time_UTC now\<rparr>
        in bindS (tx_InsertTask v) (\<lambda>_. retS v))"

definition createOperation :: "OperationDescriptor \<Rightarrow> go_time \<Rightarrow> Operation tx" where
  "createOperation d now =
     bindS (liftR (validate_descriptor d)) (\<lambda>_.
     if time_IsZero now then failS (ErrText ''creation time is required'')
     else bindS (tx_Task (od_TaskID d)) (\<lambda>task.
     if terminalTask (task_State task) then failS ErrTaskTerminal
     else let v = \<lparr>op_Descriptor = d, op_State = OperationPlanned, op_Revision = 1,
                   op_LeaseGeneration = 0, op_ActiveAttemptID = '''',
                   op_CreatedAt = time_UTC now, op_UpdatedAt = time_UTC now\<rparr>
       in bindS (tx_InsertOperation v) (\<lambda>_. retS v)))"

text \<open>
  \<open>transition\<close>: the attempt state \<open>as\<close> is \<open>None\<close> for Go's empty string, "leave it".
\<close>

definition transition ::
  "Operation \<Rightarrow> uint64 \<Rightarrow> OperationState \<Rightarrow> AttemptState option \<Rightarrow> go_time \<Rightarrow> Operation tx" where
  "transition opn rvn to as now =
     bindS (liftR (Transition opn rvn to (time_UTC now))) (\<lambda>next.
     bindS (if op_ActiveAttemptID opn \<noteq> ''''
            then bindS (tx_Attempt (op_ActiveAttemptID opn)) (\<lambda>a.
              let a = (case as of None \<Rightarrow> a | Some st \<Rightarrow> a\<lparr>att_State := st\<rparr>)
              in tx_UpdateAttempt (a\<lparr>att_UpdatedAt := time_UTC now\<rparr>))
            else retS ()) (\<lambda>_.
     bindS (if \<not> HoldsConflictReservation next then tx_Release (od_ID (op_Descriptor opn))
            else retS ()) (\<lambda>_.
     bindS (tx_UpdateOperation next rvn) (\<lambda>_. retS next))))"

definition markReady :: "OperationID \<Rightarrow> uint64 \<Rightarrow> go_time \<Rightarrow> Operation tx" where
  "markReady ident expectedRevision now =
     bindS (tx_Operation ident) (\<lambda>opn.
     if op_State opn \<noteq> OperationPlanned then failS ErrInvalidTransition
     else transition opn expectedRevision OperationReady None now)"

definition startAttempt ::
  "OperationID \<Rightarrow> uint64 \<Rightarrow> AttemptID \<Rightarrow> LeaseID \<Rightarrow> ActorID \<Rightarrow> AttemptID \<Rightarrow> go_time
     \<Rightarrow> (Operation \<times> Attempt) tx" where
  "startAttempt ident expectedRevision attemptID leaseID owner retryOf now =
     (if leaseID = '''' \<or> owner = '''' then failS (ErrText ''lease id and owner are required'')
      else bindS (tx_Operation ident) (\<lambda>opn.
      bindS (if retryOf \<noteq> ''''
             then bindS (tx_Attempt retryOf) (\<lambda>prior.
               if att_OperationID prior \<noteq> ident then failS ErrStaleOwnership else retS ())
             else retS ()) (\<lambda>_.
      bindS (liftR (state_StartAttempt opn expectedRevision attemptID (time_UTC now))) (\<lambda>(next, a).
      let a = a\<lparr>att_LeaseID := leaseID, att_OwnerActorID := owner, att_RetryOf := retryOf\<rparr>
      in bindS (tx_InsertAttempt a) (\<lambda>_.
      bindS (if od_EffectClass (op_Descriptor opn) = EffectMutation
             then forS (od_ConflictScope (op_Descriptor opn)) (\<lambda>scope.
               tx_Reserve \<lparr>res_Scope = scope, res_OperationID = ident, res_AttemptID = att_ID a,
                 res_LeaseID = att_LeaseID a, res_Generation = att_LeaseGeneration a,
                 res_CreatedAt = time_UTC now\<rparr>)
             else retS ()) (\<lambda>_.
      bindS (tx_UpdateOperation next expectedRevision) (\<lambda>_. retS (next, a))))))))"

definition beginVerification :: "OperationID \<Rightarrow> uint64 \<Rightarrow> go_time \<Rightarrow> Operation tx" where
  "beginVerification ident expectedRevision now =
     bindS (tx_Operation ident) (\<lambda>opn.
     transition opn expectedRevision OperationVerifying
       (if op_State opn = OperationExecuting then Some AttemptReported else None) now)"

definition markUnknownOutcome :: "OperationID \<Rightarrow> uint64 \<Rightarrow> go_time \<Rightarrow> Operation tx" where
  "markUnknownOutcome ident expectedRevision now =
     bindS (tx_Operation ident) (\<lambda>opn.
     transition opn expectedRevision OperationUnknownOutcome (Some AttemptUncertain) now)"

section \<open>Evidence and verification (store.go)\<close>

definition registerEvidence :: "Record \<Rightarrow> unit tx" where
  "registerEvidence v =
     bindS (liftR (validate_record v)) (\<lambda>_.
     bindS (tx_Operation (ev_OperationID v)) (\<lambda>opn.
     if od_TaskID (op_Descriptor opn) \<noteq> ev_TaskID v then failS ErrEvidenceScope
     else bindS (if ev_AttemptID v \<noteq> ''''
            then bindS (tx_Attempt (ev_AttemptID v)) (\<lambda>a.
              if att_OperationID a \<noteq> ev_OperationID v then failS ErrEvidenceScope else retS ())
            else retS ()) (\<lambda>_.
     bindS (tx_Task (ev_TaskID v)) (\<lambda>task.
     if terminalTask (task_State task) then failS ErrTaskTerminal
     else tx_InsertEvidence (v\<lparr>ev_ObservedAt := time_UTC (ev_ObservedAt v)\<rparr>)))))"

text \<open>The loop over \<open>v.EvidenceIDs\<close>, with the ids already seen.\<close>

fun check_evidence :: "Verification \<Rightarrow> EvidenceID list \<Rightarrow> EvidenceID list \<Rightarrow> unit tx" where
  "check_evidence v seen [] = retS ()"
| "check_evidence v seen (ident # ids) =
     (if ident \<in> set seen then failS ErrEvidenceScope
      else bindS (tx_Evidence ident) (\<lambda>r.
        if ev_OperationID r \<noteq> ver_OperationID v \<or> ev_AttemptID r \<noteq> ver_AttemptID v
        then failS ErrEvidenceScope
        else check_evidence v (ident # seen) ids))"

definition validateVerification :: "Operation \<Rightarrow> Verification \<Rightarrow> unit tx" where
  "validateVerification opn v =
     bindS (liftR (validate_verification v)) (\<lambda>_.
     if ver_OperationID v \<noteq> od_ID (op_Descriptor opn)
        \<or> ver_PolicyRef v \<noteq> od_VerificationPolicyRef (op_Descriptor opn)
        \<or> ver_AttemptID v = '''' \<or> ver_AttemptID v \<noteq> op_ActiveAttemptID opn
     then failS ErrEvidenceScope
     else check_evidence v [] (ver_EvidenceIDs v))"

text \<open>The map from verdict to state; a missing key reads as the empty string.\<close>

fun verdict_state :: "Verdict \<Rightarrow> OperationState" where
  "verdict_state VerdictSatisfied = OperationSucceeded"
| "verdict_state VerdictNotSatisfiedRetryable = OperationReady"
| "verdict_state VerdictNotSatisfiedTerminal = OperationFailed"
| "verdict_state VerdictInconclusive = OperationUnknownOutcome"
| "verdict_state (VerdictOther s) = OperationStateOther ''''"

definition apply_verdict ::
  "OperationID \<Rightarrow> uint64 \<Rightarrow> Verification \<Rightarrow> go_time \<Rightarrow> bool \<Rightarrow> Operation tx" where
  "apply_verdict ident rvn v now notStarted =
     bindS (tx_Operation ident) (\<lambda>opn.
     bindS (validateVerification opn v) (\<lambda>_.
     let to = verdict_state (ver_Verdict v);
         as = (if to = OperationUnknownOutcome then AttemptUncertain else AttemptClosed);
         as = (if notStarted then AttemptNotStarted else as)
     in bindS (tx_InsertVerification (v\<lparr>ver_VerifiedAt := time_UTC (ver_VerifiedAt v)\<rparr>)) (\<lambda>_.
        transition opn rvn to (Some as) now)))"

definition markNotStarted :: "OperationID \<Rightarrow> uint64 \<Rightarrow> Verification \<Rightarrow> go_time \<Rightarrow> Operation tx" where
  "markNotStarted ident expectedRevision v now =
     (if ver_Verdict v \<noteq> VerdictNotSatisfiedRetryable \<or> \<not> ver_RetryExecutionSafe v
      then failS (ErrText ''not-started transition requires retry-safe verification'')
      else apply_verdict ident expectedRevision v now True)"

definition applyVerification :: "OperationID \<Rightarrow> uint64 \<Rightarrow> Verification \<Rightarrow> go_time \<Rightarrow> Operation tx" where
  "applyVerification ident expectedRevision v now =
     apply_verdict ident expectedRevision v now False"

section \<open>Ownership (store.go: checkActive; worker.go; recovery.go: InvalidateAttempt)\<close>

definition checkActive ::
  "OperationID \<Rightarrow> AttemptID \<Rightarrow> LeaseID \<Rightarrow> uint64 \<Rightarrow> ActorID \<Rightarrow> unit tx" where
  "checkActive ident attemptID leaseID generation owner =
     bindS (tx_Operation ident) (\<lambda>opn.
     if op_ActiveAttemptID opn = '''' \<or> op_ActiveAttemptID opn \<noteq> attemptID
        \<or> op_LeaseGeneration opn \<noteq> generation then failS ErrStaleOwnership
     else bindS (tx_Attempt attemptID) (\<lambda>a.
     tryS (tx_Revocation attemptID) (\<lambda>rvk. case rvk of
       Inr _ \<Rightarrow> failS ErrStaleOwnership
     | Inl err \<Rightarrow>
       if \<not> errors_is err ErrNotFound then failS err
       else if att_State a \<noteq> AttemptRunning \<and> att_State a \<noteq> AttemptReported
         then failS ErrStaleOwnership
       else if att_LeaseID a \<noteq> leaseID \<or> att_LeaseGeneration a \<noteq> generation
           \<or> att_OwnerActorID a \<noteq> owner then failS ErrStaleOwnership
       else if op_State opn \<noteq> OperationExecuting \<and> op_State opn \<noteq> OperationVerifying
           \<and> op_State opn \<noteq> OperationUnknownOutcome then failS ErrStaleOwnership
       else retS ())))"

text \<open>
  \<open>RecordWorkerReport\<close> and \<open>InvalidateAttempt\<close> call exported methods of the same transaction; their
  wrapper adds nothing here, since an error ends the outer method with the same sticky error.
\<close>

definition recordWorkerReport ::
  "go_time \<Rightarrow> Record \<Rightarrow> LeaseID \<Rightarrow> uint64 \<Rightarrow> go_time \<Rightarrow> bool tx" where
  "recordWorkerReport now record1 lease generation expires =
     bindS (tx_Operation (ev_OperationID record1)) (\<lambda>opn.
     bindS (tx_Attempt (ev_AttemptID record1)) (\<lambda>a.
     if time_IsZero expires \<or> ev_Kind record1 \<noteq> KindWorkerReport
        \<or> att_OperationID a \<noteq> ev_OperationID record1
        \<or> att_OwnerActorID a \<noteq> ev_SourceActorID record1 \<or> att_LeaseID a \<noteq> lease
        \<or> att_LeaseGeneration a \<noteq> generation
        \<or> ev_SubjectRef record1 \<noteq> od_TargetRef (op_Descriptor opn)
     then failS ErrEvidenceScope
     else bindS (registerEvidence record1) (\<lambda>_.
     tryS (checkActive (ev_OperationID record1) (att_ID a) lease generation
             (ev_SourceActorID record1)) (\<lambda>err. case err of
       Inl e \<Rightarrow> if errors_is e ErrStaleOwnership then retS False else failS e
     | Inr _ \<Rightarrow>
       if \<not> now < expires then failS DeadlineExceeded
       else if op_State opn \<noteq> OperationExecuting then retS False
       else bindS (beginVerification (ev_OperationID record1) (op_Revision opn) now)
              (\<lambda>_. retS True)))))"

datatype LossReason = ControllerRestart | LeaseExpired | OwnershipLost | LossReasonOther string

fun loss_text :: "LossReason \<Rightarrow> string" where
  "loss_text ControllerRestart = ''controller_restart''"
| "loss_text LeaseExpired = ''lease_expired''"
| "loss_text OwnershipLost = ''ownership_lost''"
| "loss_text (LossReasonOther s) = s"

definition invalidateAttempt ::
  "OperationID \<Rightarrow> uint64 \<Rightarrow> AttemptID \<Rightarrow> LossReason \<Rightarrow> Record \<Rightarrow> go_time \<Rightarrow> Operation tx" where
  "invalidateAttempt ident revision attemptID reason observation now =
     (if reason \<noteq> ControllerRestart \<and> reason \<noteq> LeaseExpired \<and> reason \<noteq> OwnershipLost
      then failS (ErrText ''invalid ownership loss reason'')
      else bindS (tx_Operation ident) (\<lambda>opn.
      if op_Revision opn \<noteq> revision then failS ErrRevisionConflict
      else if attemptID = '''' \<or> op_ActiveAttemptID opn \<noteq> attemptID then failS ErrStaleOwnership
      else bindS (reject_found (tx_Revocation attemptID) (\<lambda>_. True) ErrStaleOwnership) (\<lambda>_.
      if ev_OperationID observation \<noteq> ident \<or> ev_AttemptID observation \<noteq> attemptID
         \<or> (ev_Kind observation \<noteq> KindProcessObservation
            \<and> ev_Kind observation \<noteq> KindTransportObservation
            \<and> ev_Kind observation \<noteq> KindPolicyDecision)
      then failS ErrEvidenceScope
      else bindS (liftR (LoseExecutionCertainty opn revision (time_UTC now))) (\<lambda>next.
      bindS (registerEvidence observation) (\<lambda>_.
      bindS (tx_InsertRevocation \<lparr>rvk_AttemptID = attemptID, rvk_OperationID = ident,
               rvk_EvidenceID = ev_ID observation, rvk_Reason = loss_text reason,
               rvk_RevokedAt = time_UTC now\<rparr>) (\<lambda>_.
      bindS (tx_Attempt attemptID) (\<lambda>a.
      bindS (tx_UpdateAttempt (a\<lparr>att_State := AttemptUncertain, att_UpdatedAt := time_UTC now\<rparr>)) (\<lambda>_.
      bindS (tx_UpdateOperation next revision) (\<lambda>_. retS next)))))))))"

section \<open>Completion of tasks (retention.go)\<close>

definition finalizeTask :: "TaskID \<Rightarrow> uint64 \<Rightarrow> go_time \<Rightarrow> Task tx" where
  "finalizeTask ident revision now =
     bindS (tx_Task ident) (\<lambda>task.
     if task_Revision task \<noteq> revision then failS ErrRevisionConflict
     else if terminalTask (task_State task) then failS ErrTaskTerminal
     else if time_IsZero now \<or> revision = 0 \<or> revision \<ge> MaxInt64
       then failS (ErrText ''invalid task time or revision'')
     else bindS (tx_TaskSummary ident) (\<lambda>summary.
     if sum_Operations summary = 0 \<or> sum_Pending summary > 0
       then failS (ErrText ''task still has unresolved work'')
     else bindS (if sum_Failed summary > 0 then retS TaskFailed
            else if sum_Cancelled summary = sum_Operations summary then retS TaskCancelled
            else if sum_Cancelled summary > 0
              then failS (ErrText ''mixed cancellation needs explicit task policy'')
            else retS TaskCompleted) (\<lambda>st.
     let task = task\<lparr>task_State := st, task_Revision := task_Revision task + 1,
                     task_UpdatedAt := time_UTC now\<rparr>
     in bindS (tx_UpdateTask task revision) (\<lambda>_. retS task))))"

end
