(* ===== verification/Store.thy ===== *)
theory Store
  imports Core
begin

text \<open>
  The exported face of \<open>internal/core\<close>: the \<open>Transaction\<close> handed to a callback, whose first error
  sticks; \<open>Store\<close> with its transactional methods; and the step relation of the whole store, one
  step per exported call.
\<close>

section \<open>The transaction of a callback (store.go: Transaction)\<close>

record Transaction =
  t_tx :: transaction
  t_failed :: "error option"
  t_now :: go_time

text \<open>
  The exported methods are all written the same way: refuse if \<open>t.failed\<close> is set, call the
  unexported method, remember its error.
\<close>

definition exported :: "'a tx \<Rightarrow> Transaction \<Rightarrow> 'a result \<times> Transaction" where
  "exported m t =
     (case t_failed t of
        Some err \<Rightarrow> (Inl err, t)
      | None \<Rightarrow> (case m (t_tx t) of
          (Inl err, s) \<Rightarrow> (Inl err, t\<lparr>t_tx := s, t_failed := Some err\<rparr>)
        | (Inr v, s) \<Rightarrow> (Inr v, t\<lparr>t_tx := s\<rparr>)))"

definition t_RegisterMessage where
  "t_RegisterMessage marshal env t = exported (registerMessage marshal (t_now t) env) t"
definition t_CreateTask where
  "t_CreateTask ident now = exported (createTask ident now)"
definition t_CreateOperation where
  "t_CreateOperation d now = exported (createOperation d now)"
definition t_MarkReady where
  "t_MarkReady ident rvn now = exported (markReady ident rvn now)"
definition t_BeginVerification where
  "t_BeginVerification ident rvn now = exported (beginVerification ident rvn now)"
definition t_MarkUnknownOutcome where
  "t_MarkUnknownOutcome ident rvn now = exported (markUnknownOutcome ident rvn now)"
definition t_MarkNotStarted where
  "t_MarkNotStarted ident rvn v now = exported (markNotStarted ident rvn v now)"
definition t_ApplyVerification where
  "t_ApplyVerification ident rvn v now = exported (applyVerification ident rvn v now)"
definition t_StartAttempt where
  "t_StartAttempt ident rvn attempt lease owner retry now =
     exported (startAttempt ident rvn attempt lease owner retry now)"
definition t_RegisterEvidence where
  "t_RegisterEvidence v = exported (registerEvidence v)"
definition t_CheckActiveAttemptContext where
  "t_CheckActiveAttemptContext ident attempt lease generation owner =
     exported (checkActive ident attempt lease generation owner)"
definition t_RecordWorkerReport where
  "t_RecordWorkerReport record1 lease generation expires t =
     exported (recordWorkerReport (t_now t) record1 lease generation expires) t"
definition t_InvalidateAttempt where
  "t_InvalidateAttempt ident revision attempt reason observation now =
     exported (invalidateAttempt ident revision attempt reason observation now)"

lemmas t_defs =
  t_RegisterMessage_def t_CreateTask_def t_CreateOperation_def t_MarkReady_def
  t_BeginVerification_def t_MarkUnknownOutcome_def t_MarkNotStarted_def t_ApplyVerification_def
  t_StartAttempt_def t_RegisterEvidence_def t_CheckActiveAttemptContext_def
  t_RecordWorkerReport_def t_InvalidateAttempt_def

section \<open>Callbacks\<close>

text \<open>
  A callback of \<open>ProcessMessage\<close> is Go code that may call any exported method of the transaction,
  look at its answer and go on, and finally returns its own error or nil; it has no other way to
  the store.  A terminating callback is therefore a finite tree: \<open>Call c k\<close> makes the call \<open>c\<close> and
  continues with \<open>k\<close> of the answer.
\<close>

datatype call =
    CRegisterMessage Envelope
  | CCreateTask TaskID go_time
  | CCreateOperation OperationDescriptor go_time
  | CMarkReady OperationID uint64 go_time
  | CBeginVerification OperationID uint64 go_time
  | CMarkUnknownOutcome OperationID uint64 go_time
  | CMarkNotStarted OperationID uint64 Verification go_time
  | CApplyVerification OperationID uint64 Verification go_time
  | CStartAttempt OperationID uint64 AttemptID LeaseID ActorID AttemptID go_time
  | CRegisterEvidence Record
  | CCheckActiveAttemptContext OperationID AttemptID LeaseID uint64 ActorID
  | CRecordWorkerReport Record LeaseID uint64 go_time
  | CInvalidateAttempt OperationID uint64 AttemptID LossReason Record go_time

datatype reply = RBool bool | RTask Task | ROperation Operation | RStart Operation Attempt | RUnit

definition mapR :: "('a \<Rightarrow> 'b) \<Rightarrow> 'a result \<times> 's \<Rightarrow> 'b result \<times> 's" where
  "mapR f x = (case x of (Inl e, s) \<Rightarrow> (Inl e, s) | (Inr v, s) \<Rightarrow> (Inr (f v), s))"

fun t_call :: "marshal \<Rightarrow> call \<Rightarrow> Transaction \<Rightarrow> reply result \<times> Transaction" where
  "t_call mj (CRegisterMessage env) t = mapR RBool (t_RegisterMessage mj env t)"
| "t_call mj (CCreateTask ident now) t = mapR RTask (t_CreateTask ident now t)"
| "t_call mj (CCreateOperation d now) t = mapR ROperation (t_CreateOperation d now t)"
| "t_call mj (CMarkReady ident rvn now) t = mapR ROperation (t_MarkReady ident rvn now t)"
| "t_call mj (CBeginVerification ident rvn now) t =
     mapR ROperation (t_BeginVerification ident rvn now t)"
| "t_call mj (CMarkUnknownOutcome ident rvn now) t =
     mapR ROperation (t_MarkUnknownOutcome ident rvn now t)"
| "t_call mj (CMarkNotStarted ident rvn v now) t =
     mapR ROperation (t_MarkNotStarted ident rvn v now t)"
| "t_call mj (CApplyVerification ident rvn v now) t =
     mapR ROperation (t_ApplyVerification ident rvn v now t)"
| "t_call mj (CStartAttempt ident rvn attempt lease owner retry now) t =
     mapR (\<lambda>(opn, a). RStart opn a) (t_StartAttempt ident rvn attempt lease owner retry now t)"
| "t_call mj (CRegisterEvidence v) t = mapR (\<lambda>_. RUnit) (t_RegisterEvidence v t)"
| "t_call mj (CCheckActiveAttemptContext ident attempt lease generation owner) t =
     mapR (\<lambda>_. RUnit) (t_CheckActiveAttemptContext ident attempt lease generation owner t)"
| "t_call mj (CRecordWorkerReport record1 lease generation expires) t =
     mapR RBool (t_RecordWorkerReport record1 lease generation expires t)"
| "t_call mj (CInvalidateAttempt ident revision attempt reason observation now) t =
     mapR ROperation (t_InvalidateAttempt ident revision attempt reason observation now t)"

datatype callback = Finish "unit result" | Call call "reply result \<Rightarrow> callback"

primrec run_callback :: "marshal \<Rightarrow> callback \<Rightarrow> Transaction \<Rightarrow> unit result \<times> Transaction" where
  "run_callback mj (Finish r) = (\<lambda>t. (r, t))"
| "run_callback mj (Call c k) = (\<lambda>t. case t_call mj c t of (r, t') \<Rightarrow> run_callback mj (k r) t')"

section \<open>The store (store.go: writeValue, readValue, ProcessMessage)\<close>

definition writeValue ::
  "context3 \<Rightarrow> go_time \<Rightarrow> (Transaction \<Rightarrow> 'a result \<times> Transaction) \<Rightarrow> Repository
     \<Rightarrow> 'a result \<times> Repository" where
  "writeValue ctx clock fn r = memory_Update ctx (\<lambda>s.
     case fn \<lparr>t_tx = s, t_failed = None, t_now = time_UTC clock\<rparr> of
       (out, t) \<Rightarrow> ((case out of
           Inl e \<Rightarrow> Inl e
         | Inr v \<Rightarrow> (case t_failed t of Some e \<Rightarrow> Inl e | None \<Rightarrow> Inr v)), t_tx t)) r"

definition readValue :: "context3 \<Rightarrow> 'a tx \<Rightarrow> Repository \<Rightarrow> 'a result \<times> Repository" where
  "readValue ctx fn r = memory_View ctx fn r"

definition process_message ::
  "marshal \<Rightarrow> Envelope \<Rightarrow> callback option \<Rightarrow> Transaction \<Rightarrow> bool result \<times> Transaction" where
  "process_message mj env fn t =
     (case t_RegisterMessage mj env t of
        (Inl err, t) \<Rightarrow> (Inl err, t)
      | (Inr duplicate, t) \<Rightarrow>
          if duplicate then (Inr duplicate, t)
          else (case fn of None \<Rightarrow> (Inr False, t)
            | Some f \<Rightarrow> (case run_callback mj f t of
                (Inl err, t) \<Rightarrow> (Inl err, t) | (Inr _, t) \<Rightarrow> (Inr False, t))))"

definition ProcessMessage where
  "ProcessMessage mj ctx clock env fn r = writeValue ctx clock (process_message mj env fn) r"

definition store_RegisterMessage where
  "store_RegisterMessage mj ctx clock env r = writeValue ctx clock (t_RegisterMessage mj env) r"
definition store_CreateTask where
  "store_CreateTask ctx clock ident now r = writeValue ctx clock (t_CreateTask ident now) r"
definition store_CreateOperation where
  "store_CreateOperation ctx clock d now r = writeValue ctx clock (t_CreateOperation d now) r"
definition store_MarkReady where
  "store_MarkReady ctx clock ident rvn now r = writeValue ctx clock (t_MarkReady ident rvn now) r"
definition store_BeginVerification where
  "store_BeginVerification ctx clock ident rvn now r =
     writeValue ctx clock (t_BeginVerification ident rvn now) r"
definition store_MarkUnknownOutcome where
  "store_MarkUnknownOutcome ctx clock ident rvn now r =
     writeValue ctx clock (t_MarkUnknownOutcome ident rvn now) r"
definition store_MarkNotStarted where
  "store_MarkNotStarted ctx clock ident rvn v now r =
     writeValue ctx clock (t_MarkNotStarted ident rvn v now) r"
definition store_ApplyVerification where
  "store_ApplyVerification ctx clock ident rvn v now r =
     writeValue ctx clock (t_ApplyVerification ident rvn v now) r"
definition store_RegisterEvidence where
  "store_RegisterEvidence ctx clock v r = writeValue ctx clock (t_RegisterEvidence v) r"
definition store_StartAttempt where
  "store_StartAttempt ctx clock ident rvn attempt lease owner retry now r =
     writeValue ctx clock (t_StartAttempt ident rvn attempt lease owner retry now) r"
definition store_InvalidateAttempt where
  "store_InvalidateAttempt ctx clock ident revision attempt reason observation now r =
     writeValue ctx clock (t_InvalidateAttempt ident revision attempt reason observation now) r"
definition store_CheckActiveAttemptContext where
  "store_CheckActiveAttemptContext ctx ident attempt lease generation owner r =
     memory_View ctx (checkActive ident attempt lease generation owner) r"

text \<open>\<open>FinalizeTask\<close> works on the storage transaction inside \<open>writeValue\<close>, without the wrapper.\<close>

definition store_FinalizeTask where
  "store_FinalizeTask ctx clock ident revision now r =
     writeValue ctx clock (\<lambda>t. case finalizeTask ident revision now (t_tx t) of
       (v, s) \<Rightarrow> (v, t\<lparr>t_tx := s\<rparr>)) r"

definition store_GetTask where
  "store_GetTask ctx ident r = readValue ctx (tx_Task ident) r"
definition store_GetOperation where
  "store_GetOperation ctx ident r = readValue ctx (tx_Operation ident) r"
definition store_GetAttempt where
  "store_GetAttempt ctx ident r = readValue ctx (tx_Attempt ident) r"
definition store_GetVerification where
  "store_GetVerification ctx ident r = readValue ctx (tx_Verification ident) r"
definition store_EvidenceForOperation where
  "store_EvidenceForOperation ctx ident r = readValue ctx (tx_EvidenceForOperation ident) r"

section \<open>What callbacks and transactions keep\<close>

lemma exported_failed: "t_failed t = Some e \<Longrightarrow> exported m t = (Inl e, t)"
  by (simp add: exported_def)

lemma exported_now [simp]: "exported m t = (r, t') \<Longrightarrow> t_now t' = t_now t"
  by (auto simp: exported_def split: option.splits prod.splits sum.splits)

text \<open>
  Once a method has failed the transaction is stuck: every later call of every callback reports
  the same error and changes nothing.
\<close>

lemma t_call_failed: "t_failed t = Some e \<Longrightarrow> t_call mj c t = (Inl e, t)"
  by (cases c) (simp_all add: t_defs exported_failed mapR_def)

lemma run_callback_failed:
  "t_failed t = Some e \<Longrightarrow> run_callback mj f t = (r, t') \<Longrightarrow> t' = t"
  by (induction f arbitrary: r) (auto simp: t_call_failed split: prod.splits)

text \<open>
  \<open>fine I t\<close>: the transaction has failed, or its data satisfies \<open>I\<close>.  Calls keep it when each
  unexported method keeps \<open>I\<close> on success.
\<close>

definition fine :: "(transaction \<Rightarrow> bool) \<Rightarrow> Transaction \<Rightarrow> bool" where
  "fine I t \<longleftrightarrow> t_failed t \<noteq> None \<or> I (t_tx t)"

lemma exported_fine:
  assumes "keepsS I m" and "fine I t" and "exported m t = (r, t')"
  shows "fine I t'"
  using assms
  by (auto simp: exported_def fine_def keepsS_def split: option.splits prod.splits sum.splits)

definition call_keeps :: "marshal \<Rightarrow> (transaction \<Rightarrow> bool) \<Rightarrow> bool" where
  "call_keeps mj I \<longleftrightarrow> (\<forall>c t r t'. fine I t \<longrightarrow> t_call mj c t = (r, t') \<longrightarrow> fine I t')"

lemma run_callback_fine:
  assumes "call_keeps mj I"
  shows "fine I t \<Longrightarrow> run_callback mj f t = (r, t') \<Longrightarrow> fine I t'"
proof (induction f arbitrary: t)
  case (Finish x)
  then show ?case by simp
next
  case (Call c k)
  obtain r1 t1 where c: "t_call mj c t = (r1, t1)" by fastforce
  with assms Call.prems(1) have "fine I t1" by (auto simp: call_keeps_def)
  with Call.IH[of "k r1" t1] c Call.prems(2) show ?case by simp
qed

lemma process_message_fine:
  assumes keeps: "call_keeps mj I" and "fine I t" and "process_message mj env fn t = (r, t')"
  shows "fine I t'"
proof -
  obtain r1 t1 where reg: "t_RegisterMessage mj env t = (r1, t1)" by fastforce
  then have "t_call mj (CRegisterMessage env) t = (case r1 of Inl e \<Rightarrow> Inl e | Inr v \<Rightarrow> Inr (RBool v), t1)"
    by (simp add: mapR_def split: sum.splits)
  with assms(1,2) have 1: "fine I t1" unfolding call_keeps_def by blast
  from assms(3) reg have "t' = t1 \<or> (\<exists>f r2. run_callback mj f t1 = (r2, t'))"
    by (auto simp: process_message_def split: sum.splits if_splits option.splits prod.splits)
  with 1 run_callback_fine[OF keeps] show ?thesis by blast
qed

text \<open>
  A write installs data that satisfies \<open>I\<close>, or changes nothing.
\<close>

lemma writeValue_keeps:
  assumes "I \<lparr>tx_d = repo_d r, tx_write = True\<rparr>"
    and "\<And>t x t'. fine I t \<Longrightarrow> fn t = (x, t') \<Longrightarrow> fine I t'"
    and "writeValue ctx clock fn r = (x, r')"
  shows "r' = r \<or> (\<exists>t. I t \<and> r' = r\<lparr>repo_d := tx_d t\<rparr>)"
proof -
  let ?t0 = "\<lparr>t_tx = \<lparr>tx_d = repo_d r, tx_write = True\<rparr>, t_failed = None, t_now = time_UTC clock\<rparr>"
  obtain out t where run: "fn ?t0 = (out, t)" by fastforce
  have "fine I ?t0" using assms(1) by (simp add: fine_def)
  with assms(2) run have "fine I t" by blast
  with assms(3) run show ?thesis
    by (auto simp: writeValue_def memory_Update_def memory_run_def fine_def
        split: option.splits if_splits sum.splits)
qed

text \<open>A write succeeds only if the callback returned no error and no method of it has failed.\<close>

lemma writeValue_ok:
  assumes "writeValue ctx clock fn r = (Inr v, r')"
  shows "\<exists>t. fn \<lparr>t_tx = \<lparr>tx_d = repo_d r, tx_write = True\<rparr>, t_failed = None, t_now = time_UTC clock\<rparr>
           = (Inr v, t) \<and> t_failed t = None \<and> r' = r\<lparr>repo_d := tx_d (t_tx t)\<rparr>"
  using assms
  by (auto simp: writeValue_def memory_Update_def memory_run_def
      split: option.splits if_splits sum.splits prod.splits)

lemma writeValue_error: "writeValue ctx clock fn r = (Inl e, r') \<Longrightarrow> r' = r"
  unfolding writeValue_def by (rule memory.update_failed)

end
