(* ===== verification/Integrity.thy ===== *)
theory Integrity
  imports Store
begin

text \<open>
  The integrity of the stored data: every constraint that the SQLite schema
  (\<open>internal/persistence/sqlite/migrations/*.sql\<close>) declares over the tables, and the agreement
  between operations, attempts, reservations and tasks that the decisions of the core rest on.
  The memory store checks almost none of it; the theories below show that the core never breaks
  it.
\<close>

section \<open>Rows\<close>

definition live :: "Attempt \<Rightarrow> bool" where
  "live a \<longleftrightarrow> att_State a \<in> {AttemptRunning, AttemptReported}"

text \<open>The state of the active attempt of an operation in execution.\<close>

fun attempt_matches :: "OperationState \<Rightarrow> AttemptState \<Rightarrow> bool" where
  "attempt_matches OperationExecuting st = (st = AttemptRunning)"
| "attempt_matches OperationVerifying st = (st = AttemptReported \<or> st = AttemptUncertain)"
| "attempt_matches OperationUnknownOutcome st = (st = AttemptUncertain)"
| "attempt_matches _ st = False"

definition op_row :: "data \<Rightarrow> OperationID \<Rightarrow> Operation \<Rightarrow> bool" where
  "op_row d k opn \<longleftrightarrow>
     od_ID (op_Descriptor opn) = k \<and> validate_descriptor (op_Descriptor opn) = Inr ()
     \<and> (\<exists>task. fmlookup (d_tasks d) (od_TaskID (op_Descriptor opn)) = Some task)
     \<and> op_Revision opn \<noteq> 0 \<and> op_Revision opn \<le> MaxInt64 \<and> op_LeaseGeneration opn \<le> MaxInt64
     \<and> (in_execution (op_State opn) \<longrightarrow>
          (\<exists>a. fmlookup (d_attempts d) (op_ActiveAttemptID opn) = Some a \<and> att_OperationID a = k
             \<and> att_LeaseGeneration a = op_LeaseGeneration opn
             \<and> attempt_matches (op_State opn) (att_State a)))
     \<and> (\<not> in_execution (op_State opn) \<longrightarrow> op_ActiveAttemptID opn = ''''
          \<and> (op_State opn \<in> {OperationPlanned, OperationReady} \<or> terminal_operation (op_State opn)))"

definition att_row :: "data \<Rightarrow> AttemptID \<Rightarrow> Attempt \<Rightarrow> bool" where
  "att_row d k a \<longleftrightarrow>
     att_ID a = k \<and> k \<noteq> '''' \<and> att_LeaseID a \<noteq> '''' \<and> att_OwnerActorID a \<noteq> ''''
     \<and> (\<exists>opn. fmlookup (d_ops d) (att_OperationID a) = Some opn \<and> att_LeaseGeneration a \<noteq> 0
          \<and> att_LeaseGeneration a \<le> op_LeaseGeneration opn)
     \<and> (att_RetryOf a \<noteq> '''' \<longrightarrow>
          (\<exists>b. fmlookup (d_attempts d) (att_RetryOf a) = Some b
             \<and> att_OperationID b = att_OperationID a))"

definition res_row :: "data \<Rightarrow> string \<Rightarrow> Reservation \<Rightarrow> bool" where
  "res_row d k r \<longleftrightarrow>
     res_Scope r = k
     \<and> (\<exists>opn a. fmlookup (d_ops d) (res_OperationID r) = Some opn
          \<and> HoldsConflictReservation opn \<and> k \<in> set (od_ConflictScope (op_Descriptor opn))
          \<and> res_AttemptID r = op_ActiveAttemptID opn
          \<and> fmlookup (d_attempts d) (res_AttemptID r) = Some a
          \<and> res_LeaseID r = att_LeaseID a \<and> res_Generation r = att_LeaseGeneration a)"

definition ev_row :: "data \<Rightarrow> EvidenceID \<Rightarrow> Record \<Rightarrow> bool" where
  "ev_row d k e \<longleftrightarrow>
     ev_ID e = k \<and> validate_record e = Inr ()
     \<and> (\<exists>opn. fmlookup (d_ops d) (ev_OperationID e) = Some opn
          \<and> od_TaskID (op_Descriptor opn) = ev_TaskID e)
     \<and> (ev_AttemptID e \<noteq> '''' \<longrightarrow>
          (\<exists>a. fmlookup (d_attempts d) (ev_AttemptID e) = Some a
             \<and> att_OperationID a = ev_OperationID e))"

definition ver_row :: "data \<Rightarrow> string \<Rightarrow> Verification \<Rightarrow> bool" where
  "ver_row d k v \<longleftrightarrow>
     ver_ID v = k \<and> validate_verification v = Inr () \<and> distinct (ver_EvidenceIDs v)
     \<and> (\<exists>a. fmlookup (d_attempts d) (ver_AttemptID v) = Some a
          \<and> att_OperationID a = ver_OperationID v)
     \<and> (\<forall>ident \<in> set (ver_EvidenceIDs v). \<exists>e. fmlookup (d_evidence d) ident = Some e
          \<and> ev_OperationID e = ver_OperationID v \<and> ev_AttemptID e = ver_AttemptID v)"

definition rvk_row :: "data \<Rightarrow> AttemptID \<Rightarrow> Revocation \<Rightarrow> bool" where
  "rvk_row d k r \<longleftrightarrow>
     rvk_AttemptID r = k
     \<and> rvk_Reason r \<in> {''controller_restart'', ''lease_expired'', ''ownership_lost''}
     \<and> (\<exists>a. fmlookup (d_attempts d) k = Some a \<and> att_OperationID a = rvk_OperationID r \<and> \<not> live a)
     \<and> (\<exists>e. fmlookup (d_evidence d) (rvk_EvidenceID r) = Some e
          \<and> ev_OperationID e = rvk_OperationID r \<and> ev_AttemptID e = k)"

definition task_row :: "data \<Rightarrow> TaskID \<Rightarrow> Task \<Rightarrow> bool" where
  "task_row d k task \<longleftrightarrow>
     task_ID task = k \<and> k \<noteq> '''' \<and> task_Revision task \<noteq> 0 \<and> task_Revision task \<le> MaxInt64
     \<and> (terminalTask (task_State task) \<longrightarrow>
          (\<forall>j opn. fmlookup (d_ops d) j = Some opn \<longrightarrow> od_TaskID (op_Descriptor opn) = k
             \<longrightarrow> terminal_operation (op_State opn)))"

definition msg_row :: "MessageID \<Rightarrow> Message \<Rightarrow> bool" where
  "msg_row k m \<longleftrightarrow> msg_ID m = k \<and> k \<noteq> ''''"

section \<open>Integrity\<close>

text \<open>A live attempt is the active one of an operation in execution.\<close>

definition live_ok :: "data \<Rightarrow> bool" where
  "live_ok d \<longleftrightarrow> (\<forall>k a. fmlookup (d_attempts d) k = Some a \<longrightarrow> live a \<longrightarrow>
     (\<exists>opn. fmlookup (d_ops d) (att_OperationID a) = Some opn \<and> in_execution (op_State opn)
        \<and> op_ActiveAttemptID opn = k))"

text \<open>Leases, and generations within an operation, are never shared.\<close>

definition uniq_ok :: "data \<Rightarrow> bool" where
  "uniq_ok d \<longleftrightarrow> (\<forall>k a j b. fmlookup (d_attempts d) k = Some a \<longrightarrow>
     fmlookup (d_attempts d) j = Some b \<longrightarrow>
     (att_LeaseID a = att_LeaseID b
      \<or> att_OperationID a = att_OperationID b \<and> att_LeaseGeneration a = att_LeaseGeneration b)
     \<longrightarrow> k = j)"

text \<open>Every scope of an operation that must hold its reservations is reserved by it.\<close>

definition held_ok :: "data \<Rightarrow> bool" where
  "held_ok d \<longleftrightarrow> (\<forall>k opn scope. fmlookup (d_ops d) k = Some opn \<longrightarrow>
     HoldsConflictReservation opn \<longrightarrow> scope \<in> set (od_ConflictScope (op_Descriptor opn)) \<longrightarrow>
     (\<exists>r. fmlookup (d_reservations d) scope = Some r \<and> res_OperationID r = k))"

definition integrity :: "data \<Rightarrow> bool" where
  "integrity d \<longleftrightarrow>
     (\<forall>k v. fmlookup (d_ops d) k = Some v \<longrightarrow> op_row d k v)
     \<and> (\<forall>k v. fmlookup (d_attempts d) k = Some v \<longrightarrow> att_row d k v)
     \<and> live_ok d \<and> uniq_ok d
     \<and> (\<forall>k v. fmlookup (d_reservations d) k = Some v \<longrightarrow> res_row d k v)
     \<and> held_ok d
     \<and> (\<forall>k v. fmlookup (d_evidence d) k = Some v \<longrightarrow> ev_row d k v)
     \<and> (\<forall>k v. fmlookup (d_verifications d) k = Some v \<longrightarrow> ver_row d k v)
     \<and> (\<forall>k v. fmlookup (d_revocations d) k = Some v \<longrightarrow> rvk_row d k v)
     \<and> (\<forall>k v. fmlookup (d_tasks d) k = Some v \<longrightarrow> task_row d k v)
     \<and> (\<forall>k v. fmlookup (d_messages d) k = Some v \<longrightarrow> msg_row k v)"

lemma integrityD:
  assumes "integrity d"
  shows "fmlookup (d_ops d) ko = Some vo \<Longrightarrow> op_row d ko vo"
    "fmlookup (d_attempts d) ka = Some va \<Longrightarrow> att_row d ka va"
    "live_ok d" "uniq_ok d"
    "fmlookup (d_reservations d) kr = Some vr \<Longrightarrow> res_row d kr vr"
    "held_ok d"
    "fmlookup (d_evidence d) ke = Some ve \<Longrightarrow> ev_row d ke ve"
    "fmlookup (d_verifications d) kv = Some vv \<Longrightarrow> ver_row d kv vv"
    "fmlookup (d_revocations d) kk = Some vk \<Longrightarrow> rvk_row d kk vk"
    "fmlookup (d_tasks d) kt = Some vt \<Longrightarrow> task_row d kt vt"
    "fmlookup (d_messages d) km = Some vm \<Longrightarrow> msg_row km vm"
  using assms by (simp_all add: integrity_def)

lemma held_okD:
  "held_ok d \<Longrightarrow> fmlookup (d_ops d) k = Some opn \<Longrightarrow> HoldsConflictReservation opn \<Longrightarrow>
   scope \<in> set (od_ConflictScope (op_Descriptor opn)) \<Longrightarrow>
   \<exists>r. fmlookup (d_reservations d) scope = Some r \<and> res_OperationID r = k"
  unfolding held_ok_def by blast

lemma integrity_empty: "integrity empty_data"
  by (simp add: integrity_def empty_data_def live_ok_def uniq_ok_def held_ok_def)

section \<open>History only grows\<close>

text \<open>
  \<open>extends d d'\<close>: no task, operation, attempt, evidence record, verification, revocation or message
  of \<open>d\<close> is gone in \<open>d'\<close>; descriptors, evidence and the identity of attempts are unchanged; lease
  generations and revisions have not gone back; no attempt has become live again.
\<close>

definition task_le :: "Task \<Rightarrow> Task \<Rightarrow> bool" where
  "task_le v v' \<longleftrightarrow> task_Revision v \<le> task_Revision v'"

definition op_le :: "Operation \<Rightarrow> Operation \<Rightarrow> bool" where
  "op_le v v' \<longleftrightarrow> op_Descriptor v' = op_Descriptor v
     \<and> op_LeaseGeneration v \<le> op_LeaseGeneration v' \<and> op_Revision v \<le> op_Revision v'"

definition att_le :: "Attempt \<Rightarrow> Attempt \<Rightarrow> bool" where
  "att_le v v' \<longleftrightarrow> att_ID v' = att_ID v \<and> att_OperationID v' = att_OperationID v
     \<and> att_LeaseID v' = att_LeaseID v \<and> att_LeaseGeneration v' = att_LeaseGeneration v
     \<and> att_OwnerActorID v' = att_OwnerActorID v \<and> att_RetryOf v' = att_RetryOf v
     \<and> (live v' \<longrightarrow> live v)"

definition extends :: "data \<Rightarrow> data \<Rightarrow> bool" where
  "extends d d' \<longleftrightarrow>
     grows task_le (d_tasks d) (d_tasks d') \<and> grows op_le (d_ops d) (d_ops d')
     \<and> grows att_le (d_attempts d) (d_attempts d') \<and> grows (=) (d_evidence d) (d_evidence d')
     \<and> grows (=) (d_verifications d) (d_verifications d')
     \<and> grows (=) (d_revocations d) (d_revocations d') \<and> grows (=) (d_messages d) (d_messages d')
     \<and> d_messageFloor d \<le> d_messageFloor d'"

lemma le_refl [simp]: "task_le t t" "op_le opn opn" "att_le a a"
  by (simp_all add: task_le_def op_le_def att_le_def)

lemma extends_refl: "extends d d"
  by (simp add: extends_def grows_refl)

lemma extends_trans: "extends d1 d2 \<Longrightarrow> extends d2 d3 \<Longrightarrow> extends d1 d3"
  unfolding extends_def
  by (auto elim!: grows_trans[rotated] simp: task_le_def op_le_def att_le_def)

lemma extendsD:
  assumes "extends d d'"
  shows "grows task_le (d_tasks d) (d_tasks d')" "grows op_le (d_ops d) (d_ops d')"
    "grows att_le (d_attempts d) (d_attempts d')" "grows (=) (d_evidence d) (d_evidence d')"
    "grows (=) (d_verifications d) (d_verifications d')"
    "grows (=) (d_revocations d) (d_revocations d')" "grows (=) (d_messages d) (d_messages d')"
    "d_messageFloor d \<le> d_messageFloor d'"
  using assms by (simp_all add: extends_def)

text \<open>Rows about the past stay true.\<close>

lemma ext_att:
  assumes "extends d d'" and "\<exists>a. fmlookup (d_attempts d) k = Some a \<and> att_OperationID a = i"
  shows "\<exists>a. fmlookup (d_attempts d') k = Some a \<and> att_OperationID a = i"
  using assms(2) growsD[OF extendsD(3)[OF assms(1)]] by (fastforce simp: att_le_def)

lemma att_row_mono:
  assumes ext: "extends d d'" and row: "att_row d k a"
  shows "att_row d' k a"
proof -
  from row obtain opn where opn: "fmlookup (d_ops d) (att_OperationID a) = Some opn"
    and gen: "att_LeaseGeneration a \<le> op_LeaseGeneration opn"
    by (auto simp: att_row_def)
  obtain opn' where "fmlookup (d_ops d') (att_OperationID a) = Some opn'"
    and "op_LeaseGeneration opn \<le> op_LeaseGeneration opn'"
    using growsD[OF extendsD(2)[OF ext] opn] by (auto simp: op_le_def)
  with gen row ext_att[OF ext, of "att_RetryOf a"] show ?thesis
    by (auto simp: att_row_def)
qed

lemma ev_row_mono:
  assumes ext: "extends d d'" and row: "ev_row d k e"
  shows "ev_row d' k e"
proof -
  from row obtain opn where opn: "fmlookup (d_ops d) (ev_OperationID e) = Some opn"
    and task: "od_TaskID (op_Descriptor opn) = ev_TaskID e"
    by (auto simp: ev_row_def)
  obtain opn' where "fmlookup (d_ops d') (ev_OperationID e) = Some opn'"
    and "op_Descriptor opn' = op_Descriptor opn"
    using growsD[OF extendsD(2)[OF ext] opn] by (auto simp: op_le_def)
  with task row ext_att[OF ext, of "ev_AttemptID e"] show ?thesis
    by (auto simp: ev_row_def)
qed

lemma ver_row_mono:
  assumes ext: "extends d d'" and row: "ver_row d k v"
  shows "ver_row d' k v"
proof -
  have "\<exists>e. fmlookup (d_evidence d') ident = Some e \<and> ev_OperationID e = ver_OperationID v
      \<and> ev_AttemptID e = ver_AttemptID v" if "ident \<in> set (ver_EvidenceIDs v)" for ident
    using that row growsD[OF extendsD(4)[OF ext]] by (fastforce simp: ver_row_def)
  with row ext_att[OF ext, of "ver_AttemptID v"] show ?thesis
    by (simp add: ver_row_def)
qed

lemma rvk_row_mono:
  assumes ext: "extends d d'" and row: "rvk_row d k r"
  shows "rvk_row d' k r"
proof -
  from row obtain a where a: "fmlookup (d_attempts d) k = Some a"
    and "att_OperationID a = rvk_OperationID r" "\<not> live a"
    by (auto simp: rvk_row_def)
  with growsD[OF extendsD(3)[OF ext] a] have
    "\<exists>a. fmlookup (d_attempts d') k = Some a \<and> att_OperationID a = rvk_OperationID r \<and> \<not> live a"
    by (auto simp: att_le_def)
  with row growsD[OF extendsD(4)[OF ext]] show ?thesis by (fastforce simp: rvk_row_def)
qed

end
