(* ===== verification/Frames.thy ===== *)
theory Frames
  imports Integrity
begin

text \<open>
  How integrity survives each kind of change to the data: one lemma per kind, all resting on
  \<open>integrityI_ext\<close>, which asks only for the rows that a change writes.
\<close>

section \<open>Frame lemmas\<close>

lemma op_row_frame:
  assumes ext: "extends d d'" and row: "op_row d k v"
    and same: "in_execution (op_State v) \<Longrightarrow>
      fmlookup (d_attempts d') (op_ActiveAttemptID v) = fmlookup (d_attempts d) (op_ActiveAttemptID v)"
  shows "op_row d' k v"
proof -
  have "\<exists>task. fmlookup (d_tasks d') (od_TaskID (op_Descriptor v)) = Some task"
    using row growsD[OF extendsD(1)[OF ext]] by (fastforce simp: op_row_def)
  with row same show ?thesis by (auto simp: op_row_def)
qed

lemma att_row_cong:
  "att_le a a' \<Longrightarrow> att_row d k a' = att_row d k a"
  by (auto simp: att_row_def att_le_def)

lemma integrityI_ext:
  assumes I: "integrity d" and ext: "extends d d'"
    and ops: "\<And>k v. fmlookup (d_ops d') k = Some v \<Longrightarrow> op_row d' k v"
    and atts: "\<And>k v. fmlookup (d_attempts d') k = Some v \<Longrightarrow>
        (\<exists>a. fmlookup (d_attempts d) k = Some a \<and> att_le a v) \<or> att_row d' k v"
    and live: "live_ok d'" and uniq: "uniq_ok d'"
    and res: "\<And>k v. fmlookup (d_reservations d') k = Some v \<Longrightarrow> res_row d' k v"
    and held: "held_ok d'"
    and ev: "\<And>k v. fmlookup (d_evidence d') k = Some v \<Longrightarrow>
        fmlookup (d_evidence d) k = Some v \<or> ev_row d' k v"
    and ver: "\<And>k v. fmlookup (d_verifications d') k = Some v \<Longrightarrow>
        fmlookup (d_verifications d) k = Some v \<or> ver_row d' k v"
    and rvk: "\<And>k v. fmlookup (d_revocations d') k = Some v \<Longrightarrow>
        fmlookup (d_revocations d) k = Some v \<or> rvk_row d' k v"
    and task: "\<And>k v. fmlookup (d_tasks d') k = Some v \<Longrightarrow> task_row d' k v"
    and msg: "\<And>k v. fmlookup (d_messages d') k = Some v \<Longrightarrow>
        fmlookup (d_messages d) k = Some v \<or> msg_row k v"
  shows "integrity d'"
proof -
  have "att_row d' k v" if "fmlookup (d_attempts d') k = Some v" for k v
    using atts[OF that] att_row_mono[OF ext] integrityD(2)[OF I] att_row_cong by blast
  moreover have "ev_row d' k v" if "fmlookup (d_evidence d') k = Some v" for k v
    using ev[OF that] ev_row_mono[OF ext] integrityD(7)[OF I] by blast
  moreover have "ver_row d' k v" if "fmlookup (d_verifications d') k = Some v" for k v
    using ver[OF that] ver_row_mono[OF ext] integrityD(8)[OF I] by blast
  moreover have "rvk_row d' k v" if "fmlookup (d_revocations d') k = Some v" for k v
    using rvk[OF that] rvk_row_mono[OF ext] integrityD(9)[OF I] by blast
  moreover have "msg_row k v" if "fmlookup (d_messages d') k = Some v" for k v
    using msg[OF that] integrityD(11)[OF I] by blast
  ultimately show ?thesis
    using ops live uniq res held task by (simp add: integrity_def)
qed

text \<open>Changes that leave operations, attempts, reservations and tasks alone.\<close>

lemma integrityI_records:
  assumes I: "integrity d" and ext: "extends d d'"
    and same: "d_ops d' = d_ops d" "d_attempts d' = d_attempts d"
      "d_reservations d' = d_reservations d" "d_tasks d' = d_tasks d"
    and "\<And>k v. fmlookup (d_evidence d') k = Some v \<Longrightarrow>
        fmlookup (d_evidence d) k = Some v \<or> ev_row d' k v"
    and "\<And>k v. fmlookup (d_verifications d') k = Some v \<Longrightarrow>
        fmlookup (d_verifications d) k = Some v \<or> ver_row d' k v"
    and "\<And>k v. fmlookup (d_revocations d') k = Some v \<Longrightarrow>
        fmlookup (d_revocations d) k = Some v \<or> rvk_row d' k v"
    and "\<And>k v. fmlookup (d_messages d') k = Some v \<Longrightarrow>
        fmlookup (d_messages d) k = Some v \<or> msg_row k v"
  shows "integrity d'"
proof (rule integrityI_ext[OF I ext])
  show "live_ok d'" "uniq_ok d'" "held_ok d'"
    using integrityD(3,4,6)[OF I] by (simp_all add: live_ok_def uniq_ok_def held_ok_def same)
  show "op_row d' k v" if "fmlookup (d_ops d') k = Some v" for k v
    using op_row_frame[OF ext integrityD(1)[OF I]] that by (simp add: same)
  show "res_row d' k v" if "fmlookup (d_reservations d') k = Some v" for k v
    using integrityD(5)[OF I, of k v] that by (simp add: res_row_def same)
  show "task_row d' k v" if "fmlookup (d_tasks d') k = Some v" for k v
    using integrityD(10)[OF I, of k v] that by (simp add: task_row_def same)
qed (use assms in auto)

section \<open>Inserts\<close>

lemma insert_message_step:
  assumes "integrity d" and "fmlookup (d_messages d) (msg_ID m) = None" and "msg_ID m \<noteq> ''''"
  shows "integrity (d_messages_update (fmupd (msg_ID m) m) d)"
    and "extends d (d_messages_update (fmupd (msg_ID m) m) d)"
proof -
  show ext: "extends d (d_messages_update (fmupd (msg_ID m) m) d)"
    using assms(2) by (simp add: extends_def grows_refl grows_insert)
  show "integrity (d_messages_update (fmupd (msg_ID m) m) d)"
    by (rule integrityI_records[OF assms(1) ext]) (use assms in \<open>auto simp: msg_row_def split: if_splits\<close>)
qed

lemma insert_evidence_step:
  assumes "integrity d" and "fmlookup (d_evidence d) (ev_ID e) = None"
    and row: "ev_row d (ev_ID e) e"
  shows "integrity (d_evidence_update (fmupd (ev_ID e) e) d)"
    and "extends d (d_evidence_update (fmupd (ev_ID e) e) d)"
proof -
  show ext: "extends d (d_evidence_update (fmupd (ev_ID e) e) d)"
    using assms(2) by (simp add: extends_def grows_refl grows_insert)
  show "integrity (d_evidence_update (fmupd (ev_ID e) e) d)"
    by (rule integrityI_records[OF assms(1) ext])
       (use ev_row_mono[OF ext row] in \<open>auto split: if_splits\<close>)
qed

lemma insert_verification_step:
  assumes "integrity d" and "fmlookup (d_verifications d) (ver_ID v) = None"
    and row: "ver_row d (ver_ID v) v"
  shows "integrity (d_verifications_update (fmupd (ver_ID v) v) d)"
    and "extends d (d_verifications_update (fmupd (ver_ID v) v) d)"
proof -
  show ext: "extends d (d_verifications_update (fmupd (ver_ID v) v) d)"
    using assms(2) by (simp add: extends_def grows_refl grows_insert)
  show "integrity (d_verifications_update (fmupd (ver_ID v) v) d)"
    by (rule integrityI_records[OF assms(1) ext])
       (use ver_row_mono[OF ext row] in \<open>auto split: if_splits\<close>)
qed

lemma insert_revocation_step:
  assumes "integrity d" and "fmlookup (d_revocations d) (rvk_AttemptID r) = None"
    and row: "rvk_row d (rvk_AttemptID r) r"
  shows "integrity (d_revocations_update (fmupd (rvk_AttemptID r) r) d)"
    and "extends d (d_revocations_update (fmupd (rvk_AttemptID r) r) d)"
proof -
  show ext: "extends d (d_revocations_update (fmupd (rvk_AttemptID r) r) d)"
    using assms(2) by (simp add: extends_def grows_refl grows_insert)
  show "integrity (d_revocations_update (fmupd (rvk_AttemptID r) r) d)"
    by (rule integrityI_records[OF assms(1) ext])
       (use rvk_row_mono[OF ext row] in \<open>auto split: if_splits\<close>)
qed

lemma insert_task_step:
  assumes I: "integrity d" and fresh: "fmlookup (d_tasks d) k = None"
    and v: "task_ID v = k" "k \<noteq> ''''" "task_Revision v \<noteq> 0" "task_Revision v \<le> MaxInt64"
      "\<not> terminalTask (task_State v)"
  shows "integrity (d_tasks_update (fmupd k v) d)"
    and "extends d (d_tasks_update (fmupd k v) d)"
proof -
  show ext: "extends d (d_tasks_update (fmupd k v) d)"
    using fresh by (simp add: extends_def grows_refl grows_insert)
  show "integrity (d_tasks_update (fmupd k v) d)"
  proof (rule integrityI_ext[OF I ext])
    show "op_row (d_tasks_update (fmupd k v) d) j w"
      if "fmlookup (d_ops (d_tasks_update (fmupd k v) d)) j = Some w" for j w
      using op_row_frame[OF ext integrityD(1)[OF I]] that by simp
    show "task_row (d_tasks_update (fmupd k v) d) j w"
      if "fmlookup (d_tasks (d_tasks_update (fmupd k v) d)) j = Some w" for j w
      using that v integrityD(10)[OF I, of j w] by (auto simp: task_row_def split: if_splits)
  qed (use integrityD(3-6)[OF I] in \<open>auto simp: live_ok_def uniq_ok_def held_ok_def res_row_def\<close>)
qed

lemma insert_operation_step:
  assumes I: "integrity d" and fresh: "fmlookup (d_ops d) k = None"
    and task: "fmlookup (d_tasks d) (od_TaskID (op_Descriptor v)) = Some task"
      "\<not> terminalTask (task_State task)"
    and v: "od_ID (op_Descriptor v) = k" "validate_descriptor (op_Descriptor v) = Inr ()"
      "op_State v = OperationPlanned" "op_Revision v = 1" "op_LeaseGeneration v = 0"
      "op_ActiveAttemptID v = ''''"
  shows "integrity (d_ops_update (fmupd k v) d)"
    and "extends d (d_ops_update (fmupd k v) d)"
proof -
  let ?d = "d_ops_update (fmupd k v) d"
  show ext: "extends d ?d"
    using fresh by (simp add: extends_def grows_refl grows_insert)
  have idle: "\<not> in_execution (op_State v)" "\<not> HoldsConflictReservation v"
    using v(3) by (auto simp: in_execution_def HoldsConflictReservation_iff)
  show "integrity ?d"
  proof (rule integrityI_ext[OF I ext])
    show "op_row ?d j w" if "fmlookup (d_ops ?d) j = Some w" for j w
      using op_row_frame[OF ext integrityD(1)[OF I]] that task v idle
      by (auto simp: op_row_def MaxInt64_def split: if_splits)
    show "live_ok ?d" "held_ok ?d"
      using integrityD(3,6)[OF I] fresh idle by (fastforce simp: live_ok_def held_ok_def)+
    show "res_row ?d j w" if "fmlookup (d_reservations ?d) j = Some w" for j w
      using integrityD(5)[OF I, of j w] that fresh by (fastforce simp: res_row_def)
    show "task_row ?d j w" if "fmlookup (d_tasks ?d) j = Some w" for j w
      using integrityD(10)[OF I, of j w] that task by (auto simp: task_row_def)
  qed (use integrityD(4)[OF I] in \<open>auto simp: uniq_ok_def\<close>)
qed

section \<open>An operation moves\<close>

text \<open>
  The operation \<open>k\<close> changes its state in place and its active attempt, if it has one, is rewritten;
  its reservations are kept exactly as long as it must hold them.  \<open>moves\<close> says what the change
  respects, \<open>moved\<close> is the data after it.
\<close>

definition moves :: "data \<Rightarrow> OperationID \<Rightarrow> Operation \<Rightarrow> Operation \<Rightarrow> (AttemptID, Attempt) fmap \<Rightarrow> bool" where
  "moves d k opn opn' A \<longleftrightarrow>
     fmlookup (d_ops d) k = Some opn \<and> \<not> terminal_operation (op_State opn)
     \<and> op_Descriptor opn' = op_Descriptor opn \<and> op_LeaseGeneration opn' = op_LeaseGeneration opn
     \<and> op_Revision opn < op_Revision opn' \<and> op_Revision opn' \<le> MaxInt64
     \<and> (if in_execution (op_State opn')
        then in_execution (op_State opn) \<and> op_ActiveAttemptID opn' = op_ActiveAttemptID opn
        else op_ActiveAttemptID opn' = ''''
          \<and> (op_State opn' \<in> {OperationPlanned, OperationReady} \<or> terminal_operation (op_State opn')))
     \<and> (if in_execution (op_State opn)
        then (\<exists>a a'. fmlookup (d_attempts d) (op_ActiveAttemptID opn) = Some a \<and> att_le a a'
          \<and> A = fmupd (op_ActiveAttemptID opn) a' (d_attempts d)
          \<and> (in_execution (op_State opn') \<longrightarrow> attempt_matches (op_State opn') (att_State a'))
          \<and> (\<not> in_execution (op_State opn') \<longrightarrow> \<not> live a'))
        else A = d_attempts d)"

definition moved :: "data \<Rightarrow> OperationID \<Rightarrow> Operation \<Rightarrow> (AttemptID, Attempt) fmap \<Rightarrow> data" where
  "moved d k opn' A = d\<lparr>d_ops := fmupd k opn' (d_ops d), d_attempts := A,
     d_reservations := (if HoldsConflictReservation opn' then d_reservations d
                        else delete_where (\<lambda>v. res_OperationID v = k) (d_reservations d))\<rparr>"

lemma moved_sel [simp]:
  "d_ops (moved d k opn' A) = fmupd k opn' (d_ops d)" "d_attempts (moved d k opn' A) = A"
  "d_tasks (moved d k opn' A) = d_tasks d" "d_evidence (moved d k opn' A) = d_evidence d"
  "d_verifications (moved d k opn' A) = d_verifications d"
  "d_revocations (moved d k opn' A) = d_revocations d"
  "d_messages (moved d k opn' A) = d_messages d"
  "d_messageFloor (moved d k opn' A) = d_messageFloor d"
  by (simp_all add: moved_def)

lemma moved_reservation:
  "fmlookup (d_reservations (moved d k opn' A)) s = Some r \<longleftrightarrow>
     fmlookup (d_reservations d) s = Some r
     \<and> (HoldsConflictReservation opn' \<or> res_OperationID r \<noteq> k)"
  by (auto simp: moved_def delete_where_Some simp del: lookup_delete_where)

lemma moves_attempts:
  assumes "moves d k opn opn' A"
  shows "grows att_le (d_attempts d) A"
    and "fmlookup A j = Some a' \<Longrightarrow> \<exists>a. fmlookup (d_attempts d) j = Some a \<and> att_le a a'"
    and "\<not> in_execution (op_State opn) \<or> j \<noteq> op_ActiveAttemptID opn \<Longrightarrow>
           fmlookup A j = fmlookup (d_attempts d) j"
  using assms by (auto simp: moves_def grows_refl intro!: grows_update split: if_splits)

lemma moves_extends: "moves d k opn opn' A \<Longrightarrow> extends d (moved d k opn' A)"
  using moves_attempts(1)[of d k opn opn' A]
  by (auto simp: extends_def grows_refl moves_def op_le_def intro!: grows_update)

lemma moves_op_rows:
  assumes I: "integrity d" and mv: "moves d k opn opn' A"
    and look: "fmlookup (d_ops (moved d k opn' A)) j = Some w"
  shows "op_row (moved d k opn' A) j w"
proof (cases "j = k")
  case True
  with look have w: "w = opn'" by simp
  have row: "op_row d k opn" using I mv by (auto simp: moves_def dest: integrityD(1))
  then obtain task where "fmlookup (d_tasks d) (od_TaskID (op_Descriptor opn)) = Some task"
    by (auto simp: op_row_def)
  with True w mv row show ?thesis
    by (auto simp: op_row_def moves_def att_le_def split: if_splits)
next
  case False
  with look have w: "fmlookup (d_ops d) j = Some w" by simp
  then have row: "op_row d j w" by (rule integrityD(1)[OF I])
  show ?thesis
  proof (rule op_row_frame[OF moves_extends[OF mv] row])
    assume exec: "in_execution (op_State w)"
    have "\<not> in_execution (op_State opn) \<or> op_ActiveAttemptID w \<noteq> op_ActiveAttemptID opn"
      using exec row False mv integrityD(1)[OF I, of k opn] by (auto simp: op_row_def moves_def)
    then show "fmlookup (d_attempts (moved d k opn' A)) (op_ActiveAttemptID w)
        = fmlookup (d_attempts d) (op_ActiveAttemptID w)"
      using moves_attempts(3)[OF mv] by simp
  qed
qed

lemma moves_live:
  assumes I: "integrity d" and mv: "moves d k opn opn' A"
  shows "live_ok (moved d k opn' A)"
  unfolding live_ok_def
proof (intro allI impI)
  fix j a'
  assume "fmlookup (d_attempts (moved d k opn' A)) j = Some a'" and live: "live a'"
  then have look: "fmlookup A j = Some a'" by simp
  obtain a where a: "fmlookup (d_attempts d) j = Some a" and le: "att_le a a'"
    using moves_attempts(2)[OF mv look] by blast
  from le live have "live a" by (auto simp: att_le_def)
  with a integrityD(3)[OF I] obtain p where p: "fmlookup (d_ops d) (att_OperationID a) = Some p"
    "in_execution (op_State p)" "op_ActiveAttemptID p = j" by (auto simp: live_ok_def)
  show "\<exists>p. fmlookup (d_ops (moved d k opn' A)) (att_OperationID a') = Some p
      \<and> in_execution (op_State p) \<and> op_ActiveAttemptID p = j"
  proof (cases "att_OperationID a = k")
    case True
    with p mv have "p = opn" by (auto simp: moves_def)
    with p look live mv have "in_execution (op_State opn')" "op_ActiveAttemptID opn' = j"
      by (auto simp: moves_def split: if_splits)
    with True le show ?thesis by (simp add: att_le_def)
  next
    case False
    with p le show ?thesis by (simp add: att_le_def)
  qed
qed

lemma moves_reservations:
  assumes I: "integrity d" and mv: "moves d k opn opn' A"
  shows "fmlookup (d_reservations (moved d k opn' A)) s = Some r \<Longrightarrow> res_row (moved d k opn' A) s r"
    and "held_ok (moved d k opn' A)"
proof -
  have holds: "HoldsConflictReservation opn' \<Longrightarrow>
      HoldsConflictReservation opn \<and> op_ActiveAttemptID opn' = op_ActiveAttemptID opn"
    using mv by (auto simp: moves_def HoldsConflictReservation_iff)
  have k: "fmlookup (d_ops d) k = Some opn" and desc: "op_Descriptor opn' = op_Descriptor opn"
    using mv by (simp_all add: moves_def)
  show "res_row (moved d k opn' A) s r"
    if "fmlookup (d_reservations (moved d k opn' A)) s = Some r"
  proof -
    from that have r: "fmlookup (d_reservations d) s = Some r"
      and own: "HoldsConflictReservation opn' \<or> res_OperationID r \<noteq> k"
      by (simp_all only: moved_reservation)
    from integrityD(5)[OF I r] obtain p a where row: "res_Scope r = s"
      "fmlookup (d_ops d) (res_OperationID r) = Some p" "HoldsConflictReservation p"
      "s \<in> set (od_ConflictScope (op_Descriptor p))" "res_AttemptID r = op_ActiveAttemptID p"
      "fmlookup (d_attempts d) (res_AttemptID r) = Some a" "res_LeaseID r = att_LeaseID a"
      "res_Generation r = att_LeaseGeneration a"
      by (auto simp: res_row_def)
    obtain a' where "fmlookup A (res_AttemptID r) = Some a'" "att_le a a'"
      using growsD[OF moves_attempts(1)[OF mv] row(6)] by blast
    with row own holds desc k show ?thesis by (auto simp: res_row_def att_le_def)
  qed
  show "held_ok (moved d k opn' A)"
    unfolding held_ok_def
  proof (intro allI impI)
    fix j p scope
    assume "fmlookup (d_ops (moved d k opn' A)) j = Some p"
      and p: "HoldsConflictReservation p" "scope \<in> set (od_ConflictScope (op_Descriptor p))"
    then obtain r where "fmlookup (d_reservations d) scope = Some r" "res_OperationID r = j"
      "j = k \<longrightarrow> HoldsConflictReservation opn'"
      using integrityD(6)[OF I] holds desc k by (fastforce simp: held_ok_def split: if_splits)
    then show "\<exists>r. fmlookup (d_reservations (moved d k opn' A)) scope = Some r \<and> res_OperationID r = j"
      using moved_reservation by fastforce
  qed
qed

lemma moves_step:
  assumes I: "integrity d" and mv: "moves d k opn opn' A"
  shows "integrity (moved d k opn' A)" and "extends d (moved d k opn' A)"
proof -
  show ext: "extends d (moved d k opn' A)" by (rule moves_extends[OF mv])
  show "integrity (moved d k opn' A)"
  proof (rule integrityI_ext[OF I ext])
    show "uniq_ok (moved d k opn' A)"
      unfolding uniq_ok_def
    proof (intro allI impI)
      fix i a j b
      assume "fmlookup (d_attempts (moved d k opn' A)) i = Some a"
        "fmlookup (d_attempts (moved d k opn' A)) j = Some b"
        and same: "att_LeaseID a = att_LeaseID b \<or>
          att_OperationID a = att_OperationID b \<and> att_LeaseGeneration a = att_LeaseGeneration b"
      with moves_attempts(2)[OF mv] obtain a0 b0 where
        "fmlookup (d_attempts d) i = Some a0" "att_le a0 a"
        "fmlookup (d_attempts d) j = Some b0" "att_le b0 b" by (metis moved_sel(2))
      with same integrityD(4)[OF I] show "i = j" unfolding uniq_ok_def att_le_def by metis
    qed
    show "task_row (moved d k opn' A) j w" if "fmlookup (d_tasks (moved d k opn' A)) j = Some w" for j w
      using integrityD(10)[OF I, of j w] that mv by (auto simp: task_row_def moves_def)
  qed (use moves_op_rows[OF I mv] moves_live[OF I mv] moves_reservations[OF I mv]
      moves_attempts(2)[OF mv] in auto)
qed

section \<open>An attempt starts\<close>

definition starts ::
  "data \<Rightarrow> OperationID \<Rightarrow> Operation \<Rightarrow> Operation \<Rightarrow> Attempt \<Rightarrow> (string, Reservation) fmap \<Rightarrow> bool" where
  "starts d k opn opn' a R \<longleftrightarrow>
     fmlookup (d_ops d) k = Some opn \<and> op_State opn = OperationReady
     \<and> op_LeaseGeneration opn < MaxInt64
     \<and> op_State opn' = OperationExecuting \<and> op_Descriptor opn' = op_Descriptor opn
     \<and> op_Revision opn < op_Revision opn' \<and> op_Revision opn' \<le> MaxInt64
     \<and> op_LeaseGeneration opn' = op_LeaseGeneration opn + 1 \<and> op_ActiveAttemptID opn' = att_ID a
     \<and> att_ID a \<noteq> '''' \<and> att_OperationID a = k \<and> att_LeaseID a \<noteq> '''' \<and> att_OwnerActorID a \<noteq> ''''
     \<and> att_LeaseGeneration a = op_LeaseGeneration opn + 1 \<and> att_State a = AttemptRunning
     \<and> fmlookup (d_attempts d) (att_ID a) = None
     \<and> (\<forall>j b. fmlookup (d_attempts d) j = Some b \<longrightarrow> att_LeaseID b \<noteq> att_LeaseID a)
     \<and> (att_RetryOf a \<noteq> '''' \<longrightarrow> (\<exists>b. fmlookup (d_attempts d) (att_RetryOf a) = Some b
          \<and> att_OperationID b = k))
     \<and> (\<forall>s. fmlookup R s =
          (if od_EffectClass (op_Descriptor opn) = EffectMutation
              \<and> s \<in> set (od_ConflictScope (op_Descriptor opn))
           then map_option (\<lambda>r. r\<lparr>res_Scope := s, res_OperationID := k, res_AttemptID := att_ID a,
                  res_LeaseID := att_LeaseID a, res_Generation := att_LeaseGeneration a\<rparr>) (fmlookup R s)
           else fmlookup (d_reservations d) s))
     \<and> (od_EffectClass (op_Descriptor opn) = EffectMutation \<longrightarrow>
          (\<forall>s \<in> set (od_ConflictScope (op_Descriptor opn)).
             fmlookup (d_reservations d) s = None \<and> fmlookup R s \<noteq> None))"

definition started :: "data \<Rightarrow> OperationID \<Rightarrow> Operation \<Rightarrow> Attempt \<Rightarrow> (string, Reservation) fmap \<Rightarrow> data" where
  "started d k opn' a R = d\<lparr>d_ops := fmupd k opn' (d_ops d),
     d_attempts := fmupd (att_ID a) a (d_attempts d), d_reservations := R\<rparr>"

lemma started_sel [simp]:
  "d_ops (started d k opn' a R) = fmupd k opn' (d_ops d)"
  "d_attempts (started d k opn' a R) = fmupd (att_ID a) a (d_attempts d)"
  "d_reservations (started d k opn' a R) = R"
  "d_tasks (started d k opn' a R) = d_tasks d" "d_evidence (started d k opn' a R) = d_evidence d"
  "d_verifications (started d k opn' a R) = d_verifications d"
  "d_revocations (started d k opn' a R) = d_revocations d"
  "d_messages (started d k opn' a R) = d_messages d"
  "d_messageFloor (started d k opn' a R) = d_messageFloor d"
  by (simp_all add: started_def)

lemma starts_new_reservation:
  assumes "starts d k opn opn' a R" and "fmlookup R s = Some r"
  shows "fmlookup (d_reservations d) s = Some r
    \<or> (HoldsConflictReservation opn' \<and> s \<in> set (od_ConflictScope (op_Descriptor opn))
       \<and> res_Scope r = s \<and> res_OperationID r = k \<and> res_AttemptID r = att_ID a
       \<and> res_LeaseID r = att_LeaseID a \<and> res_Generation r = att_LeaseGeneration a)"
proof -
  have eq: "fmlookup R s =
     (if od_EffectClass (op_Descriptor opn) = EffectMutation
         \<and> s \<in> set (od_ConflictScope (op_Descriptor opn))
      then map_option (\<lambda>r. r\<lparr>res_Scope := s, res_OperationID := k, res_AttemptID := att_ID a,
             res_LeaseID := att_LeaseID a, res_Generation := att_LeaseGeneration a\<rparr>) (fmlookup R s)
      else fmlookup (d_reservations d) s)"
    using assms(1) unfolding starts_def by blast
  show ?thesis
  proof (cases "od_EffectClass (op_Descriptor opn) = EffectMutation
         \<and> s \<in> set (od_ConflictScope (op_Descriptor opn))")
    case True
    have "HoldsConflictReservation opn'"
      using True assms(1) by (simp add: starts_def HoldsConflictReservation_iff in_execution_def)
    moreover have "r = r\<lparr>res_Scope := s, res_OperationID := k, res_AttemptID := att_ID a,
             res_LeaseID := att_LeaseID a, res_Generation := att_LeaseGeneration a\<rparr>"
      using eq True assms(2) by simp
    ultimately show ?thesis
      using True by (metis Reservation.select_convs(1-5) Reservation.surjective
          Reservation.update_convs(1-5))
  next
    case False
    with eq assms(2) show ?thesis by auto
  qed
qed

lemma starts_extends:
  assumes "starts d k opn opn' a R"
  shows "extends d (started d k opn' a R)"
proof -
  have "op_le opn opn'"
    using assms counter_next(4)[of "op_LeaseGeneration opn"] by (auto simp: starts_def op_le_def)
  with assms have "grows op_le (d_ops d) (fmupd k opn' (d_ops d))"
    by (auto simp: starts_def intro: grows_update)
  moreover have "grows att_le (d_attempts d) (fmupd (att_ID a) a (d_attempts d))"
    using assms by (auto simp: starts_def intro: grows_insert)
  ultimately show ?thesis by (simp add: extends_def grows_refl)
qed

lemma starts_uniq:
  assumes I: "integrity d" and st: "starts d k opn opn' a R"
  shows "uniq_ok (started d k opn' a R)"
proof -
  have "att_LeaseGeneration b < att_LeaseGeneration a"
    if "fmlookup (d_attempts d) j = Some b" "att_OperationID b = k" for j b
    using integrityD(2)[OF I that(1)] that(2) st counter_next(4)[of "op_LeaseGeneration opn"]
    by (auto simp: att_row_def starts_def)
  moreover have "att_LeaseID b \<noteq> att_LeaseID a" if "fmlookup (d_attempts d) j = Some b" for j b
    using st that by (auto simp: starts_def)
  moreover have "att_OperationID a = k" using st by (simp add: starts_def)
  ultimately show ?thesis
    using integrityD(4)[OF I] unfolding uniq_ok_def
    by (auto split: if_splits dest: less_imp_neq) (metis less_irrefl)+
qed

lemma starts_op_rows:
  assumes I: "integrity d" and st: "starts d k opn opn' a R"
    and look: "fmlookup (d_ops (started d k opn' a R)) j = Some w"
  shows "op_row (started d k opn' a R) j w"
proof (cases "j = k")
  case True
  have row: "op_row d k opn" using I st by (auto simp: starts_def dest: integrityD(1))
  then obtain task where "fmlookup (d_tasks d) (od_TaskID (op_Descriptor opn)) = Some task"
    by (auto simp: op_row_def)
  with True look row st counter_next(3)[of "op_LeaseGeneration opn"] show ?thesis
    by (auto simp: op_row_def starts_def in_execution_def)
next
  case False
  with look have row: "op_row d j w" using integrityD(1)[OF I] by simp
  show ?thesis
  proof (rule op_row_frame[OF starts_extends[OF st] row])
    assume "in_execution (op_State w)"
    with row st have "op_ActiveAttemptID w \<noteq> att_ID a" by (auto simp: op_row_def starts_def)
    then show "fmlookup (d_attempts (started d k opn' a R)) (op_ActiveAttemptID w)
        = fmlookup (d_attempts d) (op_ActiveAttemptID w)" by simp
  qed
qed

lemma starts_step:
  assumes I: "integrity d" and st: "starts d k opn opn' a R"
  shows "integrity (started d k opn' a R)" and "extends d (started d k opn' a R)"
proof -
  let ?d = "started d k opn' a R"
  show ext: "extends d ?d" by (rule starts_extends[OF st])
  have idle: "fmlookup (d_ops d) k = Some opn" "\<not> in_execution (op_State opn)"
    "op_Descriptor opn' = op_Descriptor opn" "in_execution (op_State opn')"
    "op_ActiveAttemptID opn' = att_ID a" "att_OperationID a = k" "fmlookup (d_attempts d) (att_ID a) = None"
    using st by (simp_all add: starts_def in_execution_def)
  show "integrity ?d"
  proof (rule integrityI_ext[OF I ext])
    show "(\<exists>b. fmlookup (d_attempts d) j = Some b \<and> att_le b w) \<or> att_row ?d j w"
      if "fmlookup (d_attempts ?d) j = Some w" for j w
      using that st counter_next(2)[of "op_LeaseGeneration opn"]
      by (auto simp: att_row_def starts_def split: if_splits)
    show "live_ok ?d"
      using integrityD(3)[OF I] idle unfolding live_ok_def
      by (auto split: if_splits) (metis option.inject)+
    show "res_row ?d s r" if look: "fmlookup (d_reservations ?d) s = Some r" for s r
    proof -
      have "fmlookup R s = Some r" using look by simp
      from starts_new_reservation[OF st this] show ?thesis
      proof
        assume "fmlookup (d_reservations d) s = Some r"
        from integrityD(5)[OF I this] idle show ?thesis
          by (auto simp: res_row_def HoldsConflictReservation_iff)
      qed (use idle in \<open>auto simp: res_row_def\<close>)
    qed
    show "held_ok ?d"
      unfolding held_ok_def
    proof (intro allI impI)
      fix j p scope
      assume j: "fmlookup (d_ops ?d) j = Some p" and p: "HoldsConflictReservation p"
        "scope \<in> set (od_ConflictScope (op_Descriptor p))"
      show "\<exists>r. fmlookup (d_reservations ?d) scope = Some r \<and> res_OperationID r = j"
      proof (cases "j = k")
        case True
        with j p idle have mut: "od_EffectClass (op_Descriptor opn) = EffectMutation"
          "scope \<in> set (od_ConflictScope (op_Descriptor opn))"
          by (auto simp: HoldsConflictReservation_iff)
        then obtain r where r: "fmlookup R scope = Some r" "fmlookup (d_reservations d) scope = None"
          using st by (auto simp: starts_def)
        with starts_new_reservation[OF st r(1)] True show ?thesis by auto
      next
        case False
        with j have "fmlookup (d_ops d) j = Some p" by simp
        from held_okD[OF integrityD(6)[OF I] this p]
        obtain r where r: "fmlookup (d_reservations d) scope = Some r" "res_OperationID r = j" by blast
        moreover have "fmlookup R scope = fmlookup (d_reservations d) scope"
        proof -
          have "\<not> (od_EffectClass (op_Descriptor opn) = EffectMutation
              \<and> scope \<in> set (od_ConflictScope (op_Descriptor opn)))"
            using st r(1) by (auto simp: starts_def)
          with st show ?thesis unfolding starts_def by (metis (no_types, lifting))
        qed
        ultimately show ?thesis by simp
      qed
    qed
    show "task_row ?d j w" if "fmlookup (d_tasks ?d) j = Some w" for j w
      using integrityD(10)[OF I, of j w] that st
      by (fastforce simp: task_row_def starts_def terminal_operation_def)
  qed (use starts_op_rows[OF I st] starts_uniq[OF I st] in auto)
qed

section \<open>A task is finalized\<close>

lemma update_task_step:
  assumes I: "integrity d" and t: "fmlookup (d_tasks d) k = Some task"
    and t': "task_ID task' = k" "task_Revision task < task_Revision task'"
      "task_Revision task' \<le> MaxInt64"
    and finished: "\<And>j opn. fmlookup (d_ops d) j = Some opn \<Longrightarrow> od_TaskID (op_Descriptor opn) = k \<Longrightarrow>
        terminal_operation (op_State opn)"
  shows "integrity (d_tasks_update (fmupd k task') d)"
    and "extends d (d_tasks_update (fmupd k task') d)"
proof -
  let ?d = "d_tasks_update (fmupd k task') d"
  show ext: "extends d ?d"
    using t t'(2) by (auto simp: extends_def grows_refl task_le_def intro!: grows_update)
  show "integrity ?d"
  proof (rule integrityI_ext[OF I ext])
    show "op_row ?d j w" if "fmlookup (d_ops ?d) j = Some w" for j w
      using op_row_frame[OF ext integrityD(1)[OF I]] that by simp
    show "task_row ?d j w" if "fmlookup (d_tasks ?d) j = Some w" for j w
      using that t' finished integrityD(10)[OF I, of j] t by (auto simp: task_row_def split: if_splits)
  qed (use integrityD(3-6)[OF I] in \<open>auto simp: live_ok_def uniq_ok_def held_ok_def res_row_def\<close>)
qed

section \<open>Rows are collected\<close>

text \<open>\<open>purged d k\<close>: the data without the graph of the operation \<open>k\<close>.\<close>

definition purged :: "data \<Rightarrow> OperationID \<Rightarrow> data" where
  "purged d k = d\<lparr>d_revocations := delete_where (\<lambda>v. rvk_OperationID v = k) (d_revocations d),
     d_verifications := delete_where (\<lambda>v. ver_OperationID v = k) (d_verifications d),
     d_evidence := delete_where (\<lambda>v. ev_OperationID v = k) (d_evidence d),
     d_attempts := delete_where (\<lambda>v. att_OperationID v = k) (d_attempts d),
     d_ops := fmdrop k (d_ops d)\<rparr>"

lemma purged_iff:
  "fmlookup (d_revocations (purged d k)) jr = Some vr \<longleftrightarrow>
     fmlookup (d_revocations d) jr = Some vr \<and> rvk_OperationID vr \<noteq> k"
  "fmlookup (d_verifications (purged d k)) jv = Some vv \<longleftrightarrow>
     fmlookup (d_verifications d) jv = Some vv \<and> ver_OperationID vv \<noteq> k"
  "fmlookup (d_evidence (purged d k)) je = Some ve \<longleftrightarrow>
     fmlookup (d_evidence d) je = Some ve \<and> ev_OperationID ve \<noteq> k"
  "fmlookup (d_attempts (purged d k)) ja = Some va \<longleftrightarrow>
     fmlookup (d_attempts d) ja = Some va \<and> att_OperationID va \<noteq> k"
  "fmlookup (d_ops (purged d k)) jo = Some vo \<longleftrightarrow> fmlookup (d_ops d) jo = Some vo \<and> jo \<noteq> k"
  "d_tasks (purged d k) = d_tasks d" "d_messages (purged d k) = d_messages d"
  "d_reservations (purged d k) = d_reservations d" "d_messageFloor (purged d k) = d_messageFloor d"
  by (auto simp: purged_def delete_where_Some simp del: lookup_delete_where)

lemma purge_step:
  assumes I: "integrity d"
    and free: "\<And>s r. fmlookup (d_reservations d) s = Some r \<Longrightarrow> res_OperationID r \<noteq> k"
  shows "integrity (purged d k)"
  unfolding integrity_def
proof (intro conjI allI impI; (simp only: purged_iff)?; (elim conjE)?)
  show "op_row (purged d k) j w" if "fmlookup (d_ops d) j = Some w" "j \<noteq> k" for j w
    using integrityD(1)[OF I that(1)] that(2) by (auto simp: op_row_def purged_iff)
  show "att_row (purged d k) j w" if "fmlookup (d_attempts d) j = Some w" "att_OperationID w \<noteq> k" for j w
    using integrityD(2)[OF I that(1)] that(2) by (auto simp: att_row_def purged_iff)
  show "live_ok (purged d k)"
    using integrityD(3)[OF I] by (auto simp: live_ok_def purged_iff)
  show "uniq_ok (purged d k)"
    using integrityD(4)[OF I] unfolding uniq_ok_def purged_iff by blast
  show "res_row (purged d k) j w" if "fmlookup (d_reservations d) j = Some w" for j w
  proof -
    from integrityD(5)[OF I that] obtain opn a where
      row: "res_Scope w = j" "fmlookup (d_ops d) (res_OperationID w) = Some opn"
      "HoldsConflictReservation opn" "j \<in> set (od_ConflictScope (op_Descriptor opn))"
      "res_AttemptID w = op_ActiveAttemptID opn" "fmlookup (d_attempts d) (res_AttemptID w) = Some a"
      "res_LeaseID w = att_LeaseID a" "res_Generation w = att_LeaseGeneration a"
      unfolding res_row_def by blast
    have "att_OperationID a = res_OperationID w"
      using integrityD(1)[OF I row(2)] row(3,5,6)
      by (auto simp: op_row_def HoldsConflictReservation_iff)
    with free[OF that] row show ?thesis unfolding res_row_def purged_iff by auto
  qed
  show "held_ok (purged d k)"
    using integrityD(6)[OF I] unfolding held_ok_def purged_iff by blast
  show "ev_row (purged d k) j w" if "fmlookup (d_evidence d) j = Some w" "ev_OperationID w \<noteq> k" for j w
    using integrityD(7)[OF I that(1)] that(2) by (auto simp: ev_row_def purged_iff)
  show "ver_row (purged d k) j w"
    if "fmlookup (d_verifications d) j = Some w" "ver_OperationID w \<noteq> k" for j w
    using integrityD(8)[OF I that(1)] that(2) by (auto simp: ver_row_def purged_iff)
  show "rvk_row (purged d k) j w"
    if "fmlookup (d_revocations d) j = Some w" "rvk_OperationID w \<noteq> k" for j w
    using integrityD(9)[OF I that(1)] that(2) by (auto simp: rvk_row_def purged_iff)
  show "task_row (purged d k) j w" if "fmlookup (d_tasks d) j = Some w" for j w
    using integrityD(10)[OF I that] by (auto simp: task_row_def purged_iff)
  show "msg_row j w" if "fmlookup (d_messages d) j = Some w" for j w
    using integrityD(11)[OF I that] .
qed

text \<open>The rows do not depend on messages and the floor, and only operations depend on tasks.\<close>

lemma rows_messages:
  "op_row (d_messages_update f d) = op_row d" "att_row (d_messages_update f d) = att_row d"
  "res_row (d_messages_update f d) = res_row d" "ev_row (d_messages_update f d) = ev_row d"
  "ver_row (d_messages_update f d) = ver_row d" "rvk_row (d_messages_update f d) = rvk_row d"
  "task_row (d_messages_update f d) = task_row d" "live_ok (d_messages_update f d) = live_ok d"
  "uniq_ok (d_messages_update f d) = uniq_ok d" "held_ok (d_messages_update f d) = held_ok d"
  unfolding fun_eq_iff op_row_def att_row_def live_ok_def uniq_ok_def res_row_def held_ok_def
    ev_row_def ver_row_def rvk_row_def task_row_def
  by simp_all

lemma rows_floor:
  "op_row (d_messageFloor_update f d) = op_row d" "att_row (d_messageFloor_update f d) = att_row d"
  "res_row (d_messageFloor_update f d) = res_row d" "ev_row (d_messageFloor_update f d) = ev_row d"
  "ver_row (d_messageFloor_update f d) = ver_row d" "rvk_row (d_messageFloor_update f d) = rvk_row d"
  "task_row (d_messageFloor_update f d) = task_row d" "live_ok (d_messageFloor_update f d) = live_ok d"
  "uniq_ok (d_messageFloor_update f d) = uniq_ok d" "held_ok (d_messageFloor_update f d) = held_ok d"
  unfolding fun_eq_iff op_row_def att_row_def live_ok_def uniq_ok_def res_row_def held_ok_def
    ev_row_def ver_row_def rvk_row_def task_row_def
  by simp_all

lemma rows_tasks:
  "att_row (d_tasks_update f d) = att_row d"
  "res_row (d_tasks_update f d) = res_row d" "ev_row (d_tasks_update f d) = ev_row d"
  "ver_row (d_tasks_update f d) = ver_row d" "rvk_row (d_tasks_update f d) = rvk_row d"
  "task_row (d_tasks_update f d) = task_row d" "live_ok (d_tasks_update f d) = live_ok d"
  "uniq_ok (d_tasks_update f d) = uniq_ok d" "held_ok (d_tasks_update f d) = held_ok d"
  unfolding fun_eq_iff att_row_def live_ok_def uniq_ok_def res_row_def held_ok_def
    ev_row_def ver_row_def rvk_row_def task_row_def
  by simp_all

lemma integrity_floor: "integrity (d_messageFloor_update f d) = integrity d"
  unfolding integrity_def rows_floor by simp

lemma drop_message_step:
  assumes I: "integrity d"
  shows "integrity (d_messages_update (fmdrop k) d)"
  using I unfolding integrity_def rows_messages by simp

lemma drop_task_step:
  assumes I: "integrity d"
    and free: "\<And>j opn. fmlookup (d_ops d) j = Some opn \<Longrightarrow> od_TaskID (op_Descriptor opn) \<noteq> k"
  shows "integrity (d_tasks_update (fmdrop k) d)"
proof -
  have "op_row (d_tasks_update (fmdrop k) d) j w" if "fmlookup (d_ops d) j = Some w" for j w
    using integrityD(1)[OF I that] free[OF that] by (auto simp: op_row_def)
  then show ?thesis using I unfolding integrity_def rows_tasks by simp
qed

end
