(* ===== verification/Preserve.thy ===== *)
theory Preserve
  imports Frames
begin

text \<open>
  The decisions of the core keep the integrity of the data and never rewrite history: one lemma
  per unexported method of \<open>Transaction\<close>, from what a successful run of it has checked.
\<close>

section \<open>Good operations\<close>

text \<open>
  \<open>good m\<close>: a successful run of \<open>m\<close> takes data with integrity to data with integrity that extends
  it.  A failed run is rolled back and may leave anything.
\<close>

definition good :: "'a tx \<Rightarrow> bool" where
  "good m \<longleftrightarrow> (\<forall>t v t'. integrity (tx_d t) \<longrightarrow> m t = (Inr v, t') \<longrightarrow>
     integrity (tx_d t') \<and> extends (tx_d t) (tx_d t'))"

lemma goodI:
  "(\<And>t v t'. integrity (tx_d t) \<Longrightarrow> m t = (Inr v, t') \<Longrightarrow>
     integrity (tx_d t') \<and> extends (tx_d t) (tx_d t')) \<Longrightarrow> good m"
  by (auto simp: good_def)

lemma goodD:
  "good m \<Longrightarrow> integrity (tx_d t) \<Longrightarrow> m t = (Inr v, t') \<Longrightarrow>
     integrity (tx_d t') \<and> extends (tx_d t) (tx_d t')"
  by (auto simp: good_def)

named_theorems good_intros \<open>operations that are good\<close>

lemma good_pure: "(\<And>t v t'. m t = (Inr v, t') \<Longrightarrow> t' = t) \<Longrightarrow> good m"
  by (rule goodI) (metis extends_refl)

lemma good_basic [good_intros]: "good (retS v)" "good (failS e)" "good (liftR r)"
  by (auto intro!: good_pure simp: run_simps)

lemma good_bind [good_intros]:
  assumes "good m" and "\<And>v. good (f v)"
  shows "good (bindS m f)"
proof (rule goodI)
  fix t v t'
  assume I: "integrity (tx_d t)" and "bindS m f t = (Inr v, t')"
  then obtain x s where "m t = (Inr x, s)" "f x s = (Inr v, t')" by (auto simp: bindS_Inr)
  with assms I show "integrity (tx_d t') \<and> extends (tx_d t) (tx_d t')"
    using goodD extends_trans by metis
qed

lemma good_if [good_intros]: "good m \<Longrightarrow> good n \<Longrightarrow> good (if b then m else n)"
  by simp

lemma good_read [good_intros]: "good (tx_Operation i)" "good (tx_Attempt j)" "good (tx_Task k)"
  "good (tx_Evidence l)" "good (tx_Revocation n)"
  by (auto intro!: good_pure simp: run_simps)

lemma try_read_pure:
  assumes "\<And>t r t'. m t = (r, t') \<Longrightarrow> t' = t" and "\<And>x. good (f x)"
  shows "good (tryS m f)"
proof (rule goodI)
  fix t v t'
  assume I: "integrity (tx_d t)" and "tryS m f t = (Inr v, t')"
  then obtain x s where "m t = (x, s)" "f x s = (Inr v, t')" by (auto simp: tryS_eq)
  with assms(1) have "f x t = (Inr v, t')" by blast
  then show "integrity (tx_d t') \<and> extends (tx_d t) (tx_d t')" by (rule goodD[OF assms(2) I])
qed

lemma reject_found_pure:
  assumes "\<And>t r t'. m t = (r, t') \<Longrightarrow> t' = t"
  shows "reject_found m bad err t = (Inr u, t') \<longleftrightarrow> t' = t \<and>
     (\<forall>v. fst (m t) = Inr v \<longrightarrow> \<not> bad v) \<and> (\<forall>e. fst (m t) = Inl e \<longrightarrow> errors_is e ErrNotFound)"
  using assms[of t "fst (m t)" "snd (m t)"]
  by (cases "m t"; cases "fst (m t)") (auto simp: reject_found_def tryS_def run_simps)

lemma reject_found_Inr [run_simps]:
  "reject_found (tx_Operation i) po err t = (Inr u, t') \<longleftrightarrow>
     t' = t \<and> (\<forall>v. fmlookup (d_ops (tx_d t)) i = Some v \<longrightarrow> \<not> po v)"
  "reject_found (tx_Attempt i) pa err t = (Inr u, t') \<longleftrightarrow>
     t' = t \<and> (\<forall>v. fmlookup (d_attempts (tx_d t)) i = Some v \<longrightarrow> \<not> pa v)"
  "reject_found (tx_Task i) pt err t = (Inr u, t') \<longleftrightarrow>
     t' = t \<and> (\<forall>v. fmlookup (d_tasks (tx_d t)) i = Some v \<longrightarrow> \<not> pt v)"
  "reject_found (tx_Revocation i) pr err t = (Inr u, t') \<longleftrightarrow>
     t' = t \<and> (\<forall>v. fmlookup (d_revocations (tx_d t)) i = Some v \<longrightarrow> \<not> pr v)"
  by (subst reject_found_pure; auto simp: tx_defs readT_def map_get_def split: option.splits)+

text \<open>\<open>time_UTC\<close> leaves rows as they are.\<close>

lemma same_time [simp]: "e\<lparr>ev_ObservedAt := ev_ObservedAt e\<rparr> = e"
  "v\<lparr>ver_VerifiedAt := ver_VerifiedAt v\<rparr> = v"
  by simp_all

section \<open>Messages, tasks, operations\<close>

text \<open>
  A message that is accepted is stored as \<open>receipt\<close> under its own id; one that is recognised as a
  duplicate changes nothing.
\<close>

definition utc_env :: "Envelope \<Rightarrow> Envelope" where
  "utc_env env = env\<lparr>env_IssuedAt := time_UTC (env_IssuedAt env),
                   env_DeadlineAt := map_option time_UTC (env_DeadlineAt env)\<rparr>"

definition receipt :: "go_time \<Rightarrow> Envelope \<Rightarrow> string \<Rightarrow> Message" where
  "receipt now env digest = \<lparr>msg_ID = env_MessageID env, msg_TaskID = env_TaskID env,
     msg_OperationID = env_OperationID env, msg_AttemptID = env_AttemptID env, msg_Digest = digest,
     msg_IssuedAt = env_IssuedAt env,
     msg_ExpiresAt = max (time_Unix (now + ReplayWindow)) (time_Unix (env_IssuedAt env + ReplayWindow))\<rparr>"

lemma if_max: "(if x < y then y else x) = max x (y::int)"
  by simp

lemma registerMessage_Inr:
  assumes "registerMessage mj now env t = (Inr dup, t')"
  shows "\<exists>digest. message_digest mj (utc_env env) = Inr digest \<and> env_MessageID env \<noteq> '''' \<and>
     (if dup then t' = t \<and> (\<exists>m. fmlookup (d_messages (tx_d t)) (env_MessageID env) = Some m
         \<and> msg_Digest m = digest)
      else fmlookup (d_messages (tx_d t)) (env_MessageID env) = None
        \<and> t' = t\<lparr>tx_d := d_messages_update (fmupd (env_MessageID env) (receipt now env digest)) (tx_d t)\<rparr>)"
  using assms
  by (auto simp: registerMessage_def utc_env_def receipt_def if_max run_simps Let_def
      dest!: validate_envelopeD(1) split: if_splits sum.splits)

lemma good_registerMessage: "good (registerMessage mj now env)"
proof (rule goodI)
  fix t v t'
  assume I: "integrity (tx_d t)" and run: "registerMessage mj now env t = (Inr v, t')"
  from registerMessage_Inr[OF run] obtain digest where key: "env_MessageID env \<noteq> ''''"
    and cases: "if v then t' = t else fmlookup (d_messages (tx_d t)) (env_MessageID env) = None
      \<and> t' = t\<lparr>tx_d := d_messages_update (fmupd (env_MessageID env) (receipt now env digest)) (tx_d t)\<rparr>"
    by (auto split: if_splits)
  have "msg_ID (receipt now env digest) = env_MessageID env" by (simp add: receipt_def)
  with key cases insert_message_step[OF I, of "receipt now env digest"]
  show "integrity (tx_d t') \<and> extends (tx_d t) (tx_d t')"
    using I by (cases v) (simp_all add: extends_refl)
qed

lemma good_createTask: "good (createTask ident now)"
proof (rule goodI)
  fix t v t'
  assume I: "integrity (tx_d t)" and run: "createTask ident now t = (Inr v, t')"
  from run have v: "fmlookup (d_tasks (tx_d t)) ident = None" "task_ID v = ident" "ident \<noteq> ''''"
    "task_Revision v = 1" "task_State v = TaskPlanned"
    and t': "tx_d t' = d_tasks_update (fmupd ident v) (tx_d t)"
    by (auto simp: createTask_def run_simps Let_def split: if_splits)
  from insert_task_step[OF I v(1-3)] v show "integrity (tx_d t') \<and> extends (tx_d t) (tx_d t')"
    unfolding t' by (simp add: MaxInt64_def terminalTask_def)
qed

lemma good_createOperation: "good (createOperation d now)"
proof (rule goodI)
  fix t v t'
  assume I: "integrity (tx_d t)" and run: "createOperation d now t = (Inr v, t')"
  from run obtain task where v: "fmlookup (d_ops (tx_d t)) (od_ID d) = None"
    "fmlookup (d_tasks (tx_d t)) (od_TaskID d) = Some task" "\<not> terminalTask (task_State task)"
    "validate_descriptor d = Inr ()"
    "op_Descriptor v = d" "op_State v = OperationPlanned" "op_Revision v = 1"
    "op_LeaseGeneration v = 0" "op_ActiveAttemptID v = ''''"
    and t': "tx_d t' = d_ops_update (fmupd (od_ID d) v) (tx_d t)"
    by (auto simp: createOperation_def run_simps Let_def split: if_splits)
  from insert_operation_step[OF I v(1), of v task] v
  show "integrity (tx_d t') \<and> extends (tx_d t) (tx_d t')"
    unfolding t' by simp
qed

section \<open>Transitions\<close>

text \<open>
  \<open>suits from to as\<close>: the attempt state written beside the transition \<open>from \<rightarrow> to\<close> fits the new
  state of the operation, and no attempt comes back to life.
\<close>

definition written :: "AttemptState option \<Rightarrow> AttemptState \<Rightarrow> AttemptState" where
  "written as st = (case as of None \<Rightarrow> st | Some st' \<Rightarrow> st')"

definition suits :: "OperationState \<Rightarrow> OperationState \<Rightarrow> AttemptState option \<Rightarrow> bool" where
  "suits from to as \<longleftrightarrow> to \<noteq> OperationExecuting \<and> (\<forall>st. attempt_matches from st \<longrightarrow>
     (in_execution to \<longrightarrow> attempt_matches to (written as st))
     \<and> (\<not> in_execution to \<longrightarrow> written as st \<notin> {AttemptRunning, AttemptReported})
     \<and> (written as st \<in> {AttemptRunning, AttemptReported} \<longrightarrow>
          st \<in> {AttemptRunning, AttemptReported}))"

lemma data_updates:
  "d_ops_update (fmupd k opn) d = d\<lparr>d_ops := fmupd k opn (d_ops d)\<rparr>"
  "d_attempts_update (fmupd j a) d = d\<lparr>d_attempts := fmupd j a (d_attempts d)\<rparr>"
  "d_reservations_update (delete_where P) d = d\<lparr>d_reservations := delete_where P (d_reservations d)\<rparr>"
  by (cases d; simp)+

lemma same_descriptor: "op_Descriptor v = x \<Longrightarrow> v\<lparr>op_Descriptor := x\<rparr> = v"
  by auto

lemma transition_Inr:
  assumes "transition opn rvn to as now t = (Inr next, t')"
  shows "Transition opn rvn to now = Inr next"
    and "fmlookup (d_ops (tx_d t)) (od_ID (op_Descriptor opn)) = Some old \<Longrightarrow>
      op_Descriptor old = op_Descriptor opn \<Longrightarrow>
      \<exists>A. tx_d t' = moved (tx_d t) (od_ID (op_Descriptor opn)) next A
        \<and> (if op_ActiveAttemptID opn = '''' then A = d_attempts (tx_d t)
           else (\<exists>a. fmlookup (d_attempts (tx_d t)) (op_ActiveAttemptID opn) = Some a
             \<and> A = fmupd (att_ID a)
               (a\<lparr>att_State := written as (att_State a), att_UpdatedAt := now\<rparr>) (d_attempts (tx_d t))))"
proof -
  show tr: "Transition opn rvn to now = Inr next"
    using assms by (auto simp: transition_def run_simps)
  assume old: "fmlookup (d_ops (tx_d t)) (od_ID (op_Descriptor opn)) = Some old"
    "op_Descriptor old = op_Descriptor opn"
  have desc: "op_Descriptor next = op_Descriptor opn"
    using tr by (auto simp: Transition_Inr)
  show "\<exists>A. tx_d t' = moved (tx_d t) (od_ID (op_Descriptor opn)) next A
        \<and> (if op_ActiveAttemptID opn = '''' then A = d_attempts (tx_d t)
           else (\<exists>a. fmlookup (d_attempts (tx_d t)) (op_ActiveAttemptID opn) = Some a
             \<and> A = fmupd (att_ID a)
               (a\<lparr>att_State := written as (att_State a), att_UpdatedAt := now\<rparr>) (d_attempts (tx_d t))))"
  proof (cases "op_ActiveAttemptID opn = ''''")
    case True
    with assms old desc tr show ?thesis
      by (cases "HoldsConflictReservation next")
         (auto simp: transition_def moved_def run_simps data_updates same_descriptor)
  next
    case False
    with assms obtain a s1 s2 where a: "fmlookup (d_attempts (tx_d t)) (op_ActiveAttemptID opn) = Some a"
      and s1: "tx_UpdateAttempt ((case as of None \<Rightarrow> a | Some st \<Rightarrow> a\<lparr>att_State := st\<rparr>)\<lparr>att_UpdatedAt := now\<rparr>) t = (Inr (), s1)"
      and s2: "(if \<not> HoldsConflictReservation next then tx_Release (od_ID (op_Descriptor opn)) else retS ()) s1
        = (Inr (), s2)" and t': "tx_UpdateOperation next rvn s2 = (Inr (), t')"
      by (auto simp: transition_def tr run_simps Let_def)
    have "(case as of None \<Rightarrow> a | Some st \<Rightarrow> a\<lparr>att_State := st\<rparr>)\<lparr>att_UpdatedAt := now\<rparr>
        = a\<lparr>att_State := written as (att_State a), att_UpdatedAt := now\<rparr>"
      by (simp add: written_def split: option.splits)
    with s1 s2 t' a old desc False show ?thesis
      by (cases "HoldsConflictReservation next") (auto simp: moved_def run_simps data_updates same_descriptor)
  qed
qed

text \<open>A transition that is not a start respects everything \<open>moves\<close> asks of the operation itself.\<close>

lemma Transition_moves:
  assumes tr: "Transition opn rvn to now = Inr next" and to: "to \<noteq> OperationExecuting"
    and opn: "fmlookup (d_ops d) k = Some opn"
    and A: "if in_execution (op_State opn)
        then (\<exists>a a'. fmlookup (d_attempts d) (op_ActiveAttemptID opn) = Some a \<and> att_le a a'
          \<and> A = fmupd (op_ActiveAttemptID opn) a' (d_attempts d)
          \<and> (in_execution to \<longrightarrow> attempt_matches to (att_State a'))
          \<and> (\<not> in_execution to \<longrightarrow> \<not> live a'))
        else A = d_attempts d"
  shows "moves d k opn next A"
proof -
  from tr have doc: "documented (op_State opn) to" and rv: "op_Revision opn = rvn" "rvn < MaxInt64"
    and nxt: "next = opn\<lparr>op_State := to, op_Revision := rvn + 1, op_UpdatedAt := now,
        op_ActiveAttemptID := (if in_execution to then op_ActiveAttemptID opn else '''')\<rparr>"
    by (simp_all add: Transition_Inr)
  have "\<not> terminal_operation (op_State opn)" using doc terminal_no_exit by blast
  moreover have "in_execution to \<Longrightarrow> in_execution (op_State opn)"
    using doc to by (auto simp: in_execution_def elim: documented.cases)
  moreover have "\<not> in_execution to \<Longrightarrow> to \<in> {OperationPlanned, OperationReady} \<or> terminal_operation to"
    using documented_known[OF doc] by (auto simp: terminal_operation_def)
  ultimately show ?thesis
    using opn rv A counter_next(3,4)[OF rv(2)] unfolding moves_def nxt
    by (cases "in_execution to") (auto split: if_splits)
qed

lemma transition_moves:
  assumes I: "integrity (tx_d t)" and opn: "fmlookup (d_ops (tx_d t)) k = Some opn"
    and run: "transition opn rvn to as now t = (Inr next, t')" and suits: "suits (op_State opn) to as"
  shows "\<exists>A. moves (tx_d t) k opn next A \<and> tx_d t' = moved (tx_d t) k next A"
proof -
  have row: "op_row (tx_d t) k opn" using integrityD(1)[OF I opn] .
  then have k: "od_ID (op_Descriptor opn) = k" by (simp add: op_row_def)
  have tr: "Transition opn rvn to now = Inr next" by (rule transition_Inr(1)[OF run])
  obtain A where t': "tx_d t' = moved (tx_d t) k next A"
    and A: "if op_ActiveAttemptID opn = '''' then A = d_attempts (tx_d t)
      else \<exists>a. fmlookup (d_attempts (tx_d t)) (op_ActiveAttemptID opn) = Some a
        \<and> A = fmupd (att_ID a)
          (a\<lparr>att_State := written as (att_State a), att_UpdatedAt := now\<rparr>) (d_attempts (tx_d t))"
    using transition_Inr(2)[OF run, of opn] opn k by auto
  have "moves (tx_d t) k opn next A"
  proof (rule Transition_moves[OF tr _ opn], goal_cases)
    case 1
    show ?case using suits by (simp add: suits_def)
  next
    case 2
    show ?case
    proof (cases "in_execution (op_State opn)")
      case True
      with row obtain a where a: "fmlookup (d_attempts (tx_d t)) (op_ActiveAttemptID opn) = Some a"
        and st: "attempt_matches (op_State opn) (att_State a)" by (auto simp: op_row_def)
      have ids: "att_ID a = op_ActiveAttemptID opn" "op_ActiveAttemptID opn \<noteq> ''''"
        using integrityD(2)[OF I a] by (auto simp: att_row_def)
      let ?a = "a\<lparr>att_State := written as (att_State a), att_UpdatedAt := now\<rparr>"
      have "att_le a ?a" using suits st by (auto simp: suits_def att_le_def live_def)
      moreover have "in_execution to \<longrightarrow> attempt_matches to (att_State ?a)"
        "\<not> in_execution to \<longrightarrow> \<not> live ?a"
        using suits st by (auto simp: suits_def live_def)
      ultimately show ?thesis using True a A ids by auto
    next
      case False
      with row A show ?thesis by (simp add: op_row_def)
    qed
  qed
  with t' show ?thesis by blast
qed

lemma good_transition:
  assumes "integrity (tx_d t)" and "fmlookup (d_ops (tx_d t)) k = Some opn"
    and "transition opn rvn to as now t = (Inr next, t')" and "suits (op_State opn) to as"
  shows "integrity (tx_d t') \<and> extends (tx_d t) (tx_d t')"
  using transition_moves[OF assms] moves_step[OF assms(1)] by auto

lemma suits_simps:
  "suits OperationPlanned OperationReady as" "suits from OperationUnknownOutcome (Some AttemptUncertain)"
  "suits OperationExecuting OperationVerifying (Some AttemptReported)"
  "suits OperationUnknownOutcome OperationVerifying None"
  "\<not> in_execution to \<Longrightarrow> st \<notin> {AttemptRunning, AttemptReported} \<Longrightarrow> suits from to (Some st)"
  by (auto simp: suits_def written_def in_execution_def)

lemma good_markReady: "good (markReady ident rvn now)"
proof (rule goodI)
  fix t v t'
  assume I: "integrity (tx_d t)" and run: "markReady ident rvn now t = (Inr v, t')"
  from run obtain opn where "fmlookup (d_ops (tx_d t)) ident = Some opn"
    "op_State opn = OperationPlanned" "transition opn rvn OperationReady None now t = (Inr v, t')"
    by (auto simp: markReady_def run_simps split: if_splits)
  with good_transition[OF I] suits_simps(1) show "integrity (tx_d t') \<and> extends (tx_d t) (tx_d t')"
    by metis
qed

lemma beginVerification_Inr:
  assumes "beginVerification ident rvn now t = (Inr v, t')"
  obtains opn as where "fmlookup (d_ops (tx_d t)) ident = Some opn"
    and "transition opn rvn OperationVerifying as now t = (Inr v, t')"
    and "suits (op_State opn) OperationVerifying as"
proof -
  from assms obtain opn where opn: "fmlookup (d_ops (tx_d t)) ident = Some opn"
    and tr: "transition opn rvn OperationVerifying
      (if op_State opn = OperationExecuting then Some AttemptReported else None) now t = (Inr v, t')"
    by (auto simp: beginVerification_def run_simps)
  have "documented (op_State opn) OperationVerifying"
    using transition_Inr(1)[OF tr] by (simp add: Transition_Inr)
  then have "op_State opn = OperationExecuting \<or> op_State opn = OperationUnknownOutcome"
    by (auto elim: documented.cases)
  with that[OF opn tr] show ?thesis by (auto simp: suits_simps)
qed

lemma good_beginVerification: "good (beginVerification ident rvn now)"
proof (rule goodI)
  fix t v t'
  assume I: "integrity (tx_d t)" and run: "beginVerification ident rvn now t = (Inr v, t')"
  show "integrity (tx_d t') \<and> extends (tx_d t) (tx_d t')"
    by (rule beginVerification_Inr[OF run], rule good_transition[OF I])
qed

lemma good_markUnknownOutcome: "good (markUnknownOutcome ident rvn now)"
proof (rule goodI)
  fix t v t'
  assume I: "integrity (tx_d t)" and run: "markUnknownOutcome ident rvn now t = (Inr v, t')"
  from run obtain opn where "fmlookup (d_ops (tx_d t)) ident = Some opn"
    "transition opn rvn OperationUnknownOutcome (Some AttemptUncertain) now t = (Inr v, t')"
    by (auto simp: markUnknownOutcome_def run_simps)
  with good_transition[OF I] suits_simps(2) show "integrity (tx_d t') \<and> extends (tx_d t) (tx_d t')"
    by metis
qed

section \<open>Attempts\<close>

text \<open>The loop of \<open>Reserve\<close> calls takes every scope, each of which was free.\<close>

lemma reserve_all:
  assumes mk: "\<And>s. res_Scope (mk s) = s"
  shows "forS scopes (\<lambda>s. tx_Reserve (mk s)) t = (Inr u, t') \<Longrightarrow>
     \<exists>R. t' = t\<lparr>tx_d := (tx_d t)\<lparr>d_reservations := R\<rparr>\<rparr>
       \<and> (\<forall>s. fmlookup R s = (if s \<in> set scopes then Some (mk s)
                              else fmlookup (d_reservations (tx_d t)) s))
       \<and> (\<forall>s \<in> set scopes. fmlookup (d_reservations (tx_d t)) s = None)"
proof (induction scopes arbitrary: t)
  case Nil
  then show ?case by (intro exI[of _ "d_reservations (tx_d t)"]) (auto simp: run_simps)
next
  case (Cons x scopes)
  then obtain t1 where x: "fmlookup (d_reservations (tx_d t)) x = None"
    and t1: "t1 = t\<lparr>tx_d := d_reservations_update (fmupd x (mk x)) (tx_d t)\<rparr>"
    and rest: "forS scopes (\<lambda>s. tx_Reserve (mk s)) t1 = (Inr u, t')"
    by (auto simp: run_simps mk)
  from Cons.IH[OF rest] obtain R where R: "t' = t1\<lparr>tx_d := (tx_d t1)\<lparr>d_reservations := R\<rparr>\<rparr>"
    "\<forall>s. fmlookup R s = (if s \<in> set scopes then Some (mk s) else fmlookup (d_reservations (tx_d t1)) s)"
    "\<forall>s \<in> set scopes. fmlookup (d_reservations (tx_d t1)) s = None"
    by blast
  have "t' = t\<lparr>tx_d := (tx_d t)\<lparr>d_reservations := R\<rparr>\<rparr>"
    using R(1) t1 by simp
  with R x t1 show ?case by (intro exI[of _ R]) (auto split: if_splits)
qed

lemma startAttempt_starts:
  assumes I: "integrity (tx_d t)"
    and run: "startAttempt ident rvn aid lease owner retry now t = (Inr (next, a), t')"
  shows "\<exists>opn R. starts (tx_d t) ident opn next a R \<and> tx_d t' = started (tx_d t) ident next a R
    \<and> att_ID a = aid \<and> att_LeaseID a = lease \<and> att_OwnerActorID a = owner \<and> op_Revision opn = rvn
    \<and> op_Revision next = rvn + 1 \<and> rvn < MaxInt64"
proof -
  from run obtain opn a0 t1 t2 where opn: "fmlookup (d_ops (tx_d t)) ident = Some opn"
    and args: "lease \<noteq> ''''" "owner \<noteq> ''''"
    and retry: "retry \<noteq> '''' \<Longrightarrow>
      \<exists>b. fmlookup (d_attempts (tx_d t)) retry = Some b \<and> att_OperationID b = ident"
    and st: "state_StartAttempt opn rvn aid now = Inr (next, a0)"
    and a: "a = a0\<lparr>att_LeaseID := lease, att_OwnerActorID := owner, att_RetryOf := retry\<rparr>"
    and ins: "tx_InsertAttempt a t = (Inr (), t1)"
    and res: "(if od_EffectClass (op_Descriptor opn) = EffectMutation
             then forS (od_ConflictScope (op_Descriptor opn)) (\<lambda>scope.
               tx_Reserve \<lparr>res_Scope = scope, res_OperationID = ident, res_AttemptID = att_ID a,
                 res_LeaseID = att_LeaseID a, res_Generation = att_LeaseGeneration a,
                 res_CreatedAt = now\<rparr>)
             else retS ()) t1 = (Inr (), t2)"
    and upd: "tx_UpdateOperation next rvn t2 = (Inr (), t')"
    unfolding startAttempt_def if_fail_Inr bindS_Inr Let_def
    by (cases "retry = ''''") (auto simp: if_fail_Inr bindS_Inr tx_reads map_get_Inr retS_eq liftR_eq
        cong: if_cong)
  have k: "od_ID (op_Descriptor opn) = ident"
    using integrityD(1)[OF I opn] by (simp add: op_row_def)
  note sa = st[unfolded state_StartAttempt_Inr]
  let ?mut = "od_EffectClass (op_Descriptor opn) = EffectMutation"
  let ?scopes = "set (od_ConflictScope (op_Descriptor opn))"
  define mk where "mk s = \<lparr>res_Scope = s, res_OperationID = ident, res_AttemptID = att_ID a,
      res_LeaseID = att_LeaseID a, res_Generation = att_LeaseGeneration a, res_CreatedAt = now\<rparr>" for s
  obtain R where t2: "t2 = t1\<lparr>tx_d := (tx_d t1)\<lparr>d_reservations := R\<rparr>\<rparr>"
    and R: "\<forall>s. fmlookup R s = (if ?mut \<and> s \<in> ?scopes then Some (mk s)
        else fmlookup (d_reservations (tx_d t)) s)"
    and free: "?mut \<Longrightarrow> \<forall>s \<in> ?scopes. fmlookup (d_reservations (tx_d t)) s = None"
  proof (cases ?mut)
    case True
    have "forS (od_ConflictScope (op_Descriptor opn)) (\<lambda>s. tx_Reserve (mk s)) t1 = (Inr (), t2)"
      using res True by (simp add: mk_def)
    from reserve_all[OF _ this] ins True that show ?thesis
      by (auto simp: mk_def run_simps)
  next
    case False
    with res ins that[of "d_reservations (tx_d t1)"] show ?thesis by (auto simp: run_simps)
  qed
  have "starts (tx_d t) ident opn next a R"
    unfolding starts_def
    using opn k args retry sa a ins R free counter_next(3,4)[of rvn]
    by (auto simp: run_simps mk_def)
  moreover have "tx_d t' = started (tx_d t) ident next a R"
    using upd t2 ins sa k opn by (auto simp: run_simps started_def data_updates same_descriptor)
  ultimately show ?thesis using sa a by auto
qed

lemma good_startAttempt: "good (startAttempt ident rvn aid lease owner retry now)"
proof (rule goodI)
  fix t v t'
  assume I: "integrity (tx_d t)" and run: "startAttempt ident rvn aid lease owner retry now t = (Inr v, t')"
  obtain opn' a where v: "v = (opn', a)" by fastforce
  from startAttempt_starts[OF I run[unfolded v]] starts_step[OF I]
  show "integrity (tx_d t') \<and> extends (tx_d t) (tx_d t')" by auto
qed

end
