(* ===== verification/Verdicts.thy ===== *)
theory Verdicts
  imports Preserve
begin

text \<open>
  Evidence, verification, loss of ownership and completion keep the integrity of the data; with
  them the whole transaction, so every state the store can reach has it.
\<close>

section \<open>Evidence and verification\<close>

lemma registerEvidence_Inr:
  assumes "registerEvidence v t = (Inr u, t')"
  shows "ev_row (tx_d t) (ev_ID v) v"
    and "\<exists>task. fmlookup (d_tasks (tx_d t)) (ev_TaskID v) = Some task \<and> \<not> terminalTask (task_State task)"
    and "fmlookup (d_evidence (tx_d t)) (ev_ID v) = None"
    and "t' = t\<lparr>tx_d := d_evidence_update (fmupd (ev_ID v) v) (tx_d t)\<rparr>"
  using assms
  by (cases "ev_AttemptID v = ''''"; force simp: registerEvidence_def ev_row_def run_simps)+

lemma good_registerEvidence: "good (registerEvidence v)"
proof (rule goodI)
  fix t u t'
  assume I: "integrity (tx_d t)" and run: "registerEvidence v t = (Inr u, t')"
  from insert_evidence_step[OF I registerEvidence_Inr(3,1)[OF run]] registerEvidence_Inr(4)[OF run]
  show "integrity (tx_d t') \<and> extends (tx_d t) (tx_d t')" by simp
qed

lemma check_evidence_Inr:
  "check_evidence v seen ids t = (Inr u, t') \<longleftrightarrow> t' = t \<and> distinct ids \<and> set ids \<inter> set seen = {}
     \<and> (\<forall>ident \<in> set ids. \<exists>e. fmlookup (d_evidence (tx_d t)) ident = Some e
          \<and> ev_OperationID e = ver_OperationID v \<and> ev_AttemptID e = ver_AttemptID v)"
proof (induction v seen ids rule: check_evidence.induct)
  case (2 v seen ident ids)
  then show ?case by (auto simp: run_simps)
qed (auto simp: run_simps)

lemma validateVerification_Inr:
  "validateVerification opn v t = (Inr u, t') \<longleftrightarrow> t' = t \<and> validate_verification v = Inr ()
     \<and> ver_OperationID v = od_ID (op_Descriptor opn)
     \<and> ver_PolicyRef v = od_VerificationPolicyRef (op_Descriptor opn)
     \<and> ver_AttemptID v \<noteq> '''' \<and> ver_AttemptID v = op_ActiveAttemptID opn
     \<and> distinct (ver_EvidenceIDs v)
     \<and> (\<forall>ident \<in> set (ver_EvidenceIDs v). \<exists>e. fmlookup (d_evidence (tx_d t)) ident = Some e
          \<and> ev_OperationID e = ver_OperationID v \<and> ev_AttemptID e = ver_AttemptID v)"
  by (auto simp: validateVerification_def check_evidence_Inr run_simps)

text \<open>What an applied verdict has checked, written and moved.\<close>

lemma apply_verdict_Inr:
  assumes "apply_verdict ident rvn v now notStarted t = (Inr next, t')"
  obtains opn t1 where "fmlookup (d_ops (tx_d t)) ident = Some opn"
    and "validateVerification opn v t = (Inr (), t)"
    and "fmlookup (d_verifications (tx_d t)) (ver_ID v) = None"
    and "t1 = t\<lparr>tx_d := d_verifications_update (fmupd (ver_ID v) v) (tx_d t)\<rparr>"
    and "transition opn rvn (verdict_state (ver_Verdict v))
      (Some (if notStarted then AttemptNotStarted
        else if verdict_state (ver_Verdict v) = OperationUnknownOutcome then AttemptUncertain
        else AttemptClosed)) now t1 = (Inr next, t')"
proof -
  from assms obtain opn s where opn: "fmlookup (d_ops (tx_d t)) ident = Some opn"
    and val: "validateVerification opn v t = (Inr (), s)"
    and rest: "bindS (tx_InsertVerification v) (\<lambda>_. transition opn rvn (verdict_state (ver_Verdict v))
      (Some (if notStarted then AttemptNotStarted
        else if verdict_state (ver_Verdict v) = OperationUnknownOutcome then AttemptUncertain
        else AttemptClosed)) now) s = (Inr next, t')"
    by (auto simp: apply_verdict_def bindS_Inr[of "tx_Operation ident"]
        bindS_Inr[of "validateVerification opn v" for opn] tx_reads map_get_Inr Let_def)
  have "s = t" using val by (simp add: validateVerification_Inr)
  with that[OF opn _ _ refl] val rest show ?thesis
    by (auto simp: bindS_Inr tx_simple_inserts)
qed

text \<open>After the insert of the verification the data is as sound as before, and the transition that
  follows suits the attempt.\<close>

lemma apply_verdict_stored:
  assumes ns: "notStarted \<longrightarrow> ver_Verdict v = VerdictNotSatisfiedRetryable"
    and I: "integrity (tx_d t)" and run: "apply_verdict ident rvn v now notStarted t = (Inr u, t')"
  obtains opn as t1 where "fmlookup (d_ops (tx_d t)) ident = Some opn"
    and "validateVerification opn v t = (Inr (), t)"
    and "t1 = t\<lparr>tx_d := d_verifications_update (fmupd (ver_ID v) v) (tx_d t)\<rparr>"
    and "integrity (tx_d t1)" and "extends (tx_d t) (tx_d t1)"
    and "suits (op_State opn) (verdict_state (ver_Verdict v)) as"
    and "transition opn rvn (verdict_state (ver_Verdict v)) as now t1 = (Inr u, t')"
proof -
  obtain opn t1 where opn: "fmlookup (d_ops (tx_d t)) ident = Some opn"
    and val: "validateVerification opn v t = (Inr (), t)"
    and fresh: "fmlookup (d_verifications (tx_d t)) (ver_ID v) = None"
    and t1: "t1 = t\<lparr>tx_d := d_verifications_update (fmupd (ver_ID v) v) (tx_d t)\<rparr>"
    and tr: "transition opn rvn (verdict_state (ver_Verdict v))
      (Some (if notStarted then AttemptNotStarted
        else if verdict_state (ver_Verdict v) = OperationUnknownOutcome then AttemptUncertain
        else AttemptClosed)) now t1 = (Inr u, t')"
    by (rule apply_verdict_Inr[OF run])
  note v = val[unfolded validateVerification_Inr]
  have "op_row (tx_d t) ident opn" by (rule integrityD(1)[OF I opn])
  with v have "\<exists>a. fmlookup (d_attempts (tx_d t)) (ver_AttemptID v) = Some a
      \<and> att_OperationID a = ver_OperationID v"
    by (cases "in_execution (op_State opn)") (auto simp: op_row_def)
  with v have "ver_row (tx_d t) (ver_ID v) v" by (auto simp: ver_row_def)
  from insert_verification_step[OF I fresh this]
  have I1: "integrity (tx_d t1)" and e1: "extends (tx_d t) (tx_d t1)" by (simp_all add: t1)
  have "suits (op_State opn) (verdict_state (ver_Verdict v))
      (Some (if notStarted then AttemptNotStarted
        else if verdict_state (ver_Verdict v) = OperationUnknownOutcome then AttemptUncertain
        else AttemptClosed))"
    using ns v validate_verificationD(4)[of v "()"]
    by (cases "ver_Verdict v") (auto intro: suits_simps(2,5) simp: in_execution_def)
  from that[OF opn val t1 I1 e1 this tr] show ?thesis .
qed

lemma good_apply_verdict:
  assumes ns: "notStarted \<longrightarrow> ver_Verdict v = VerdictNotSatisfiedRetryable"
  shows "good (apply_verdict ident rvn v now notStarted)"
proof (rule goodI)
  fix t u t'
  assume I: "integrity (tx_d t)" and run: "apply_verdict ident rvn v now notStarted t = (Inr u, t')"
  obtain opn as t1 where opn: "fmlookup (d_ops (tx_d t)) ident = Some opn"
    and t1: "t1 = t\<lparr>tx_d := d_verifications_update (fmupd (ver_ID v) v) (tx_d t)\<rparr>"
    and good1: "integrity (tx_d t1)" "extends (tx_d t) (tx_d t1)"
    and suits: "suits (op_State opn) (verdict_state (ver_Verdict v)) as"
    and tr: "transition opn rvn (verdict_state (ver_Verdict v)) as now t1 = (Inr u, t')"
    by (rule apply_verdict_stored[OF ns I run])
  have "fmlookup (d_ops (tx_d t1)) ident = Some opn" by (simp add: t1 opn)
  from good_transition[OF good1(1) this tr suits] good1(2) extends_trans
  show "integrity (tx_d t') \<and> extends (tx_d t) (tx_d t')" by blast
qed

lemma good_markNotStarted: "good (markNotStarted ident rvn v now)"
  unfolding markNotStarted_def
  by (cases "ver_Verdict v = VerdictNotSatisfiedRetryable")
     (simp_all add: good_intros good_apply_verdict)

lemma good_applyVerification: "good (applyVerification ident rvn v now)"
  unfolding applyVerification_def by (simp add: good_apply_verdict)

section \<open>Ownership\<close>

text \<open>Who passes \<open>checkActive\<close>; it changes nothing, whatever it answers.\<close>

lemma checkActive_pure: "checkActive ident aid lease gen owner t = (r, t') \<Longrightarrow> t' = t"
  by (auto simp: checkActive_def bindS_def tryS_def tx_defs readT_def failS_def retS_def
      split: prod.splits sum.splits if_splits)

lemma checkActive_Inr:
  "checkActive ident aid lease gen owner t = (Inr u, t') \<longleftrightarrow> t' = t \<and>
     (\<exists>opn a. fmlookup (d_ops (tx_d t)) ident = Some opn \<and> in_execution (op_State opn)
        \<and> aid \<noteq> '''' \<and> op_ActiveAttemptID opn = aid \<and> op_LeaseGeneration opn = gen
        \<and> fmlookup (d_attempts (tx_d t)) aid = Some a \<and> live a
        \<and> att_LeaseID a = lease \<and> att_LeaseGeneration a = gen \<and> att_OwnerActorID a = owner
        \<and> fmlookup (d_revocations (tx_d t)) aid = None)"
  by (cases "fmlookup (d_revocations (tx_d t)) aid")
     (auto simp: checkActive_def if_fail_Inr bindS_Inr tryS_eq tx_reads map_get_def retS_eq failS_eq
        in_execution_def live_def split: option.splits)

lemma good_checkActive: "good (checkActive ident aid lease gen owner)"
  by (rule good_pure) (rule checkActive_pure)

lemma good_recordWorkerReport: "good (recordWorkerReport now r lease gen expires)"
  unfolding recordWorkerReport_def
  by (intro good_intros good_registerEvidence try_read_pure)
     (auto intro: checkActive_pure good_intros good_beginVerification split: sum.split)

text \<open>
  An accepted report is always kept as evidence; the operation moves on to verification only when
  the worker still has authority, in time, while the operation executes.
\<close>

lemma recordWorkerReport_Inr:
  assumes "recordWorkerReport now r lease gen expires t = (Inr v, t')"
  obtains opn t1 where "fmlookup (d_ops (tx_d t)) (ev_OperationID r) = Some opn"
    and "registerEvidence r t = (Inr (), t1)"
    and "\<not> v \<longrightarrow> t' = t1"
    and "v \<longrightarrow> now < expires \<and> op_State opn = OperationExecuting
      \<and> (\<exists>a. checkActive (ev_OperationID r) a lease gen (ev_SourceActorID r) t1 = (Inr (), t1))
      \<and> (\<exists>nxt. beginVerification (ev_OperationID r) (op_Revision opn) now t1 = (Inr nxt, t'))"
proof -
  from assms obtain opn t1 x t2 and a :: Attempt where opn: "fmlookup (d_ops (tx_d t)) (ev_OperationID r) = Some opn"
    and ev: "registerEvidence r t = (Inr (), t1)"
    and chk: "checkActive (ev_OperationID r) (att_ID a) lease gen (ev_SourceActorID r) t1 = (x, t2)"
    and rest: "(case x of Inl e \<Rightarrow> if errors_is e ErrStaleOwnership then retS False else failS e
     | Inr _ \<Rightarrow>
       if \<not> now < expires then failS DeadlineExceeded
       else if op_State opn \<noteq> OperationExecuting then retS False
       else bindS (beginVerification (ev_OperationID r) (op_Revision opn) now) (\<lambda>_. retS True)) t2 = (Inr v, t')"
    unfolding recordWorkerReport_def bindS_Inr if_fail_Inr tx_reads tryS_eq map_get_Inr by auto
  have "t2 = t1" by (rule checkActive_pure[OF chk])
  with that[OF opn ev] chk rest show ?thesis
    by (cases x) (auto simp: retS_eq failS_eq bindS_Inr split: if_split_asm)
qed

text \<open>
  An invalidation, seen as one move of the operation followed by the inserts of the observation and
  of the revocation.
\<close>

lemma LoseExecutionCertainty_moves:
  assumes I: "integrity d" and opn: "fmlookup (d_ops d) k = Some opn"
    and lose: "LoseExecutionCertainty opn rvn now = Inr next"
    and a: "fmlookup (d_attempts d) (op_ActiveAttemptID opn) = Some a"
  shows "moves d k opn next
    (fmupd (op_ActiveAttemptID opn) (a\<lparr>att_State := AttemptUncertain, att_UpdatedAt := now\<rparr>) (d_attempts d))"
proof -
  have exec: "in_execution (op_State opn)" using lose by (simp add: LoseExecutionCertainty_Inr in_execution_def)
  have "att_le a (a\<lparr>att_State := AttemptUncertain, att_UpdatedAt := now\<rparr>)"
    by (simp add: att_le_def live_def)
  with exec lose opn a counter_next(3,4)[of rvn] show ?thesis
    by (auto simp: moves_def LoseExecutionCertainty_Inr in_execution_def terminal_operation_def)
qed

text \<open>Only operations that must hold their scopes have reservations, so a move that does not
  release any leaves the table as the release would.\<close>

lemma no_reservation_to_release:
  assumes I: "integrity d" and opn: "fmlookup (d_ops d) k = Some opn"
    and none: "\<not> HoldsConflictReservation opn"
  shows "delete_where (\<lambda>v. res_OperationID v = k) (d_reservations d) = d_reservations d"
proof (rule fmap_ext)
  fix s
  show "fmlookup (delete_where (\<lambda>v. res_OperationID v = k) (d_reservations d)) s
      = fmlookup (d_reservations d) s"
    using integrityD(5)[OF I, of s] opn none by (fastforce simp: res_row_def split: option.split)
qed

lemma invalidateAttempt_Inr:
  assumes I: "integrity (tx_d t)"
    and run: "invalidateAttempt ident rvn aid reason obs now t = (Inr next, t')"
  obtains opn A where "moves (tx_d t) ident opn next A"
    and "op_ActiveAttemptID opn = aid" and "aid \<noteq> ''''" and "op_Revision opn = rvn"
    and "reason \<in> {ControllerRestart, LeaseExpired, OwnershipLost}"
    and "op_State next = OperationUnknownOutcome"
    and "ev_row (tx_d t) (ev_ID obs) obs" and "ev_OperationID obs = ident" and "ev_AttemptID obs = aid"
    and "fmlookup (d_evidence (tx_d t)) (ev_ID obs) = None"
    and "fmlookup (d_revocations (tx_d t)) aid = None"
    and "tx_d t' = d_revocations_update (fmupd aid \<lparr>rvk_AttemptID = aid, rvk_OperationID = ident,
               rvk_EvidenceID = ev_ID obs, rvk_Reason = loss_text reason, rvk_RevokedAt = now\<rparr>)
       (d_evidence_update (fmupd (ev_ID obs) obs) (moved (tx_d t) ident next A))"
proof -
  let ?r = "\<lparr>rvk_AttemptID = aid, rvk_OperationID = ident,
               rvk_EvidenceID = ev_ID obs, rvk_Reason = loss_text reason, rvk_RevokedAt = now\<rparr>"
  from run obtain opn t1 t2 t3 a where opn: "fmlookup (d_ops (tx_d t)) ident = Some opn"
    and reason: "reason \<in> {ControllerRestart, LeaseExpired, OwnershipLost}"
    and aid: "op_ActiveAttemptID opn = aid" "aid \<noteq> ''''" and rev: "op_Revision opn = rvn"
    and scope: "ev_OperationID obs = ident" "ev_AttemptID obs = aid"
    and fresh: "fmlookup (d_revocations (tx_d t)) aid = None"
    and lose: "LoseExecutionCertainty opn rvn now = Inr next"
    and ev: "registerEvidence obs t = (Inr (), t1)"
    and rvk: "tx_InsertRevocation ?r t1 = (Inr (), t2)"
    and a: "fmlookup (d_attempts (tx_d t2)) aid = Some a"
    and att: "tx_UpdateAttempt (a\<lparr>att_State := AttemptUncertain, att_UpdatedAt := now\<rparr>) t2 = (Inr (), t3)"
    and upd: "tx_UpdateOperation next rvn t3 = (Inr (), t')"
    unfolding invalidateAttempt_def if_fail_Inr bindS_Inr tx_reads reject_found_Inr liftR_eq map_get_Inr
    by (auto simp: retS_eq not_Some_eq)
  note e = registerEvidence_Inr[OF ev]
  have k: "od_ID (op_Descriptor opn) = ident" using integrityD(1)[OF I opn] by (simp add: op_row_def)
  have desc: "op_Descriptor next = op_Descriptor opn" "op_State next = OperationUnknownOutcome"
    using lose by (auto simp: LoseExecutionCertainty_Inr)
  have a0: "fmlookup (d_attempts (tx_d t)) aid = Some a"
    using a rvk e(4) by (auto simp: run_simps)
  have ida: "att_ID a = aid" using integrityD(2)[OF I a0] by (simp add: att_row_def)
  define A where "A = fmupd aid (a\<lparr>att_State := AttemptUncertain, att_UpdatedAt := now\<rparr>) (d_attempts (tx_d t))"
  have mv: "moves (tx_d t) ident opn next A"
    using LoseExecutionCertainty_moves[OF I opn lose] a0 aid by (simp add: A_def)
  have "HoldsConflictReservation next \<longleftrightarrow> HoldsConflictReservation opn"
    using lose by (auto simp: HoldsConflictReservation_iff LoseExecutionCertainty_Inr in_execution_def)
  then have res: "d_reservations (moved (tx_d t) ident next A) = d_reservations (tx_d t)"
    using no_reservation_to_release[OF I opn] by (simp add: moved_def)
  have "tx_d t' = d_revocations_update (fmupd aid ?r)
       (d_evidence_update (fmupd (ev_ID obs) obs) (moved (tx_d t) ident next A))"
    using upd att rvk e(4) ida k desc opn res
    by (auto simp: run_simps A_def moved_def data_updates same_descriptor)
  with that[OF mv aid rev reason desc(2) e(1) scope e(3) fresh] show ?thesis by blast
qed

lemma loss_text_reasons:
  "reason \<in> {ControllerRestart, LeaseExpired, OwnershipLost} \<Longrightarrow>
   loss_text reason \<in> {''controller_restart'', ''lease_expired'', ''ownership_lost''}"
  by auto

lemma good_invalidateAttempt: "good (invalidateAttempt ident rvn aid reason obs now)"
proof (rule goodI)
  fix t nxt t'
  assume I: "integrity (tx_d t)" and run: "invalidateAttempt ident rvn aid reason obs now t = (Inr nxt, t')"
  from invalidateAttempt_Inr[OF I run] obtain opn A where mv: "moves (tx_d t) ident opn nxt A"
    and aid: "op_ActiveAttemptID opn = aid" "aid \<noteq> ''''"
    and reason: "reason \<in> {ControllerRestart, LeaseExpired, OwnershipLost}"
    and unk: "op_State nxt = OperationUnknownOutcome"
    and row: "ev_row (tx_d t) (ev_ID obs) obs" "ev_OperationID obs = ident" "ev_AttemptID obs = aid"
    and fresh: "fmlookup (d_evidence (tx_d t)) (ev_ID obs) = None" "fmlookup (d_revocations (tx_d t)) aid = None"
    and t': "tx_d t' = d_revocations_update (fmupd aid \<lparr>rvk_AttemptID = aid, rvk_OperationID = ident,
               rvk_EvidenceID = ev_ID obs, rvk_Reason = loss_text reason, rvk_RevokedAt = now\<rparr>)
       (d_evidence_update (fmupd (ev_ID obs) obs) (moved (tx_d t) ident nxt A))"
    by metis
  let ?d1 = "moved (tx_d t) ident nxt A"
  let ?d2 = "d_evidence_update (fmupd (ev_ID obs) obs) ?d1"
  let ?r = "\<lparr>rvk_AttemptID = aid, rvk_OperationID = ident, rvk_EvidenceID = ev_ID obs,
      rvk_Reason = loss_text reason, rvk_RevokedAt = now\<rparr>"
  note 1 = moves_step[OF I mv]
  have "integrity ?d2" and "extends ?d1 ?d2"
    using insert_evidence_step[OF 1(1) _ ev_row_mono[OF 1(2) row(1)]] fresh(1) by simp_all
  note 2 = this
  from unk 1(1) have "op_row ?d1 ident nxt" by (simp add: integrityD(1))
  with unk mv obtain a where "fmlookup A aid = Some a" "att_OperationID a = ident"
    "att_State a = AttemptUncertain"
    by (auto simp: op_row_def in_execution_def moves_def aid)
  with row(2,3) loss_text_reasons[OF reason] have "rvk_row ?d2 (rvk_AttemptID ?r) ?r"
    by (simp add: rvk_row_def live_def)
  note 3 = insert_revocation_step[OF 2(1) _ this]
  have "fmlookup (d_revocations ?d2) (rvk_AttemptID ?r) = None" using fresh(2) by simp
  from 3[OF this] extends_trans[OF extends_trans[OF 1(2) 2(2)]]
  show "integrity (tx_d t') \<and> extends (tx_d t) (tx_d t')"
    unfolding t' by simp
qed

section \<open>Completion of tasks\<close>

text \<open>The summary counts the operations of the task; \<open>Pending = 0\<close> means that all are terminal.\<close>

abbreviation ops_of :: "TaskID \<Rightarrow> Operation list \<Rightarrow> Operation list" where
  "ops_of ident \<equiv> filter (\<lambda>opn. od_TaskID (op_Descriptor opn) = ident)"

lemma summary_counts:
  "sum_Operations (foldl (summary_step d ident) s opns)
     = sum_Operations s + int (length (ops_of ident opns))"
  "sum_Failed (foldl (summary_step d ident) s opns)
     = sum_Failed s + int (length (filter (\<lambda>o1. op_State o1 = OperationFailed) (ops_of ident opns)))"
  "sum_Cancelled (foldl (summary_step d ident) s opns)
     = sum_Cancelled s + int (length (filter (\<lambda>o1. op_State o1 = OperationCancelled) (ops_of ident opns)))"
  by (induction opns arbitrary: s) (simp_all add: summary_step_def Let_def split: OperationState.split)

lemma summary_pending:
  "sum_Pending (foldl (summary_step d ident) s opns)
     \<ge> sum_Pending s + int (length (filter (\<lambda>o1. \<not> terminal_operation (op_State o1)) (ops_of ident opns)))"
proof (induction opns arbitrary: s)
  case (Cons x xs)
  have "sum_Pending (summary_step d ident s x) \<ge> sum_Pending s
      + int (length (filter (\<lambda>o1. \<not> terminal_operation (op_State o1)) (ops_of ident [x])))"
    by (simp add: summary_step_def Let_def terminal_operation_def split: OperationState.split)
  with Cons.IH[of "summary_step d ident s x"] show ?case by (simp split: if_splits)
qed simp

definition of_task :: "data \<Rightarrow> TaskID \<Rightarrow> Operation \<Rightarrow> bool" where
  "of_task d ident opn \<longleftrightarrow>
     (\<exists>k. fmlookup (d_ops d) k = Some opn) \<and> od_TaskID (op_Descriptor opn) = ident"

lemma ops_of_iff: "opn \<in> set (ops_of ident (go_values (d_ops d))) \<longleftrightarrow> of_task d ident opn"
  by (simp only: of_task_def set_filter mem_Collect_eq in_go_values)

lemma finalizeTask_Inr:
  assumes "finalizeTask ident rvn now t = (Inr task', t')"
  obtains task where "fmlookup (d_tasks (tx_d t)) ident = Some task" and "task_Revision task = rvn"
    and "rvn \<noteq> 0" and "rvn < MaxInt64" and "\<not> terminalTask (task_State task)" and "tx_write t"
    and "task' = task\<lparr>task_State := task_State task', task_Revision := rvn + 1, task_UpdatedAt := now\<rparr>"
    and "t' = t\<lparr>tx_d := d_tasks_update (fmupd (task_ID task) task') (tx_d t)\<rparr>"
    and "\<forall>opn. of_task (tx_d t) ident opn \<longrightarrow> terminal_operation (op_State opn)"
    and "\<exists>opn. of_task (tx_d t) ident opn"
    and "task_State task' =
      (if \<exists>opn. of_task (tx_d t) ident opn \<and> op_State opn = OperationFailed
       then TaskFailed
       else if \<forall>opn. of_task (tx_d t) ident opn \<longrightarrow> op_State opn = OperationCancelled
       then TaskCancelled else TaskCompleted)"
    and "task_State task' = TaskCompleted \<longrightarrow>
      (\<forall>opn. of_task (tx_d t) ident opn \<longrightarrow> op_State opn = OperationSucceeded)"
proof -
  define opns where "opns = ops_of ident (go_values (d_ops (tx_d t)))"
  define sm where "sm = task_summary (tx_d t) ident"
  have counts: "sum_Operations sm = int (length opns)"
    "sum_Failed sm = int (length (filter (\<lambda>o1. op_State o1 = OperationFailed) opns))"
    "sum_Cancelled sm = int (length (filter (\<lambda>o1. op_State o1 = OperationCancelled) opns))"
    by (simp_all add: sm_def task_summary_def summary_counts opns_def)
  have pend: "sum_Pending sm \<ge> int (length (filter (\<lambda>o1. \<not> terminal_operation (op_State o1)) opns))"
    using summary_pending[where d = "tx_d t" and ident = ident and opns = "go_values (d_ops (tx_d t))"
        and s = "\<lparr>sum_Operations = 0, sum_Pending = 0, sum_Failed = 0, sum_Cancelled = 0\<rparr>"]
    by (simp add: sm_def task_summary_def opns_def)
  from assms obtain task where task: "fmlookup (d_tasks (tx_d t)) ident = Some task" "task_Revision task = rvn"
    "rvn \<noteq> 0" "rvn < MaxInt64" "\<not> terminalTask (task_State task)" "tx_write t"
    "task' = task\<lparr>task_State := task_State task', task_Revision := rvn + 1, task_UpdatedAt := now\<rparr>"
    "t' = t\<lparr>tx_d := d_tasks_update (fmupd (task_ID task) task') (tx_d t)\<rparr>"
    and sm: "sum_Operations sm \<noteq> 0" "\<not> sum_Pending sm > 0"
    and st: "if sum_Failed sm > 0 then task_State task' = TaskFailed
            else if sum_Cancelled sm = sum_Operations sm then task_State task' = TaskCancelled
            else sum_Cancelled sm \<le> 0 \<and> task_State task' = TaskCompleted"
    unfolding sm_def finalizeTask_def if_fail_Inr bindS_Inr tx_reads map_get_Inr Let_def
    by (auto simp: retS_eq tx_UpdateTask_Inr if_fail_Inr not_le split: if_split_asm)
  have "length (filter (\<lambda>o1. \<not> terminal_operation (op_State o1)) opns) = 0"
    using pend sm(2) by linarith
  then have fin: "\<forall>opn \<in> set opns. terminal_operation (op_State opn)"
    by (simp add: filter_empty_conv)
  have ne: "opns \<noteq> []" using sm(1) counts(1) by auto
  have f: "sum_Failed sm > 0 \<longleftrightarrow> (\<exists>opn \<in> set opns. op_State opn = OperationFailed)"
    unfolding counts by (simp add: filter_empty_conv)
  have c: "sum_Cancelled sm = sum_Operations sm \<longleftrightarrow> (\<forall>opn \<in> set opns. op_State opn = OperationCancelled)"
    unfolding counts of_nat_eq_iff
    by (metis (mono_tags, lifting) filter_True length_filter_less nat_neq_iff)
  have c0: "sum_Cancelled sm \<le> 0 \<longleftrightarrow> (\<forall>opn \<in> set opns. op_State opn \<noteq> OperationCancelled)"
    unfolding counts by (simp add: filter_empty_conv)
  have mem: "of_task (tx_d t) ident = (\<lambda>opn. opn \<in> set opns)"
    unfolding opns_def ops_of_iff ..
  show ?thesis
  proof (rule that[OF task], unfold mem)
    show "\<forall>opn. opn \<in> set opns \<longrightarrow> terminal_operation (op_State opn)" using fin by blast
    show "\<exists>opn. opn \<in> set opns" using ne by (cases opns) auto
    show "task_State task' = (if \<exists>opn. opn \<in> set opns \<and> op_State opn = OperationFailed then TaskFailed
       else if \<forall>opn. opn \<in> set opns \<longrightarrow> op_State opn = OperationCancelled then TaskCancelled else TaskCompleted)"
      using st unfolding f c Ball_def Bex_def by (simp split: if_splits)
    show "task_State task' = TaskCompleted \<longrightarrow>
        (\<forall>opn. opn \<in> set opns \<longrightarrow> op_State opn = OperationSucceeded)"
    proof (intro impI allI)
      fix opn
      assume "task_State task' = TaskCompleted" and opn: "opn \<in> set opns"
      with st have "\<not> sum_Failed sm > 0" "sum_Cancelled sm \<le> 0" by (simp_all split: if_splits)
      with opn have "op_State opn \<noteq> OperationFailed" "op_State opn \<noteq> OperationCancelled"
        unfolding f c0 by blast+
      with fin opn show "op_State opn = OperationSucceeded" by (auto simp: terminal_operation_def)
    qed
  qed
qed

lemma good_finalizeTask: "good (finalizeTask ident rvn now)"
proof (rule goodI)
  fix t task' t'
  assume I: "integrity (tx_d t)" and run: "finalizeTask ident rvn now t = (Inr task', t')"
  obtain task where task: "fmlookup (d_tasks (tx_d t)) ident = Some task" "task_Revision task = rvn"
    "rvn < MaxInt64"
    and task': "task' = task\<lparr>task_State := task_State task', task_Revision := rvn + 1, task_UpdatedAt := now\<rparr>"
    and t': "t' = t\<lparr>tx_d := d_tasks_update (fmupd (task_ID task) task') (tx_d t)\<rparr>"
    and fin: "\<forall>opn. of_task (tx_d t) ident opn \<longrightarrow> terminal_operation (op_State opn)"
    by (rule finalizeTask_Inr[OF run])
  have k: "task_ID task = ident" using integrityD(10)[OF I task(1)] by (simp add: task_row_def)
  have "task_ID task' = ident" "task_Revision task' = rvn + 1"
    using k by (subst task', simp)+
  moreover have "terminal_operation (op_State opn)"
    if "fmlookup (d_ops (tx_d t)) j = Some opn" "od_TaskID (op_Descriptor opn) = ident" for j opn
    using fin that by (auto simp: of_task_def)
  ultimately show "integrity (tx_d t') \<and> extends (tx_d t) (tx_d t')"
    using update_task_step[OF I task(1), of task'] task counter_next(3,4)[OF task(3)] k t' by simp
qed

end
