(* ===== verification/Retention.thy ===== *)
theory Retention
  imports Verdicts
begin

text \<open>
  Garbage collection: \<open>Collect\<close> of \<open>internal/persistence/retention.go\<close> over the memory store.  It
  keeps the integrity of the data, stays within its budget, takes only what is past its retention,
  and always makes progress while it reports more work.
\<close>

section \<open>Collect (persistence/retention.go)\<close>

record GCOptions =
  gc_Now :: go_time
  gc_After :: TaskID
  gc_MaxTasks :: int
  gc_MaxRows :: int

record GCResult =
  gr_Rows :: int
  gr_Operations :: int
  gr_Tasks :: int
  gr_Messages :: int
  gr_DeferredTasks :: int
  gr_OversizedOperations :: int
  gr_Next :: TaskID
  gr_More :: bool

definition zero_result :: GCResult where
  "zero_result = \<lparr>gr_Rows = 0, gr_Operations = 0, gr_Tasks = 0, gr_Messages = 0, gr_DeferredTasks = 0,
     gr_OversizedOperations = 0, gr_Next = '''', gr_More = False\<rparr>"

text \<open>The variables the closures share: \<open>out\<close> and \<open>remaining\<close>.\<close>

type_synonym gc = "GCResult \<times> int"

definition pruneMessages :: "GCOptions \<Rightarrow> int \<Rightarrow> TaskID \<Rightarrow> bool \<Rightarrow> gc \<Rightarrow> gc tx" where
  "pruneMessages opt mfloor ident orphan g = (case g of (out, remaining) \<Rightarrow>
     bindS (tx_ExpiredMessages ident orphan (time_Unix (gc_Now opt)) mfloor remaining) (\<lambda>ids.
     bindS (tx_DeleteMessages ids) (\<lambda>_.
     let n = int (length ids)
     in retS (out\<lparr>gr_Messages := gr_Messages out + n, gr_Rows := gr_Rows out + n\<rparr>, remaining - n))))"

text \<open>
  The loop over a task's operations.  \<open>None\<close>: it returned early, for more work; \<open>Some deferred\<close>: it
  came to its end.
\<close>

fun gc_operations :: "GCOptions \<Rightarrow> OperationID list \<Rightarrow> bool \<Rightarrow> gc \<Rightarrow> (gc \<times> bool option) tx" where
  "gc_operations opt [] deferred g = retS (g, Some deferred)"
| "gc_operations opt (ident # ids) deferred (out, remaining) =
     bindS (tx_OperationRows ident (gc_MaxRows opt + 1)) (\<lambda>n.
     if n > gc_MaxRows opt
     then gc_operations opt ids True
       (out\<lparr>gr_OversizedOperations := gr_OversizedOperations out + 1\<rparr>, remaining)
     else if n > remaining then retS ((out\<lparr>gr_More := True\<rparr>, remaining), None)
     else bindS (tx_DeleteOperationGraph ident) (\<lambda>_.
       gc_operations opt ids deferred
         (out\<lparr>gr_Rows := gr_Rows out + n, gr_Operations := gr_Operations out + 1\<rparr>, remaining - n)))"

text \<open>One round of the loop over tasks; \<open>True\<close>: go on with the next task.\<close>

definition gc_more :: "gc \<Rightarrow> (gc \<times> bool) tx" where
  "gc_more g = retS (case g of (out, remaining) \<Rightarrow> ((out\<lparr>gr_More := True\<rparr>, remaining), False))"

definition gc_defer :: "TaskID \<Rightarrow> gc \<Rightarrow> (gc \<times> bool) tx" where
  "gc_defer ident g = retS (case g of (out, remaining) \<Rightarrow>
     ((out\<lparr>gr_DeferredTasks := gr_DeferredTasks out + 1, gr_Next := ident\<rparr>, remaining), True))"

definition gc_finish :: "GCOptions \<Rightarrow> int \<Rightarrow> TaskID \<Rightarrow> gc \<Rightarrow> (gc \<times> bool) tx" where
  "gc_finish opt mfloor ident g =
     (if snd g = 0 then gc_more g
      else bindS (pruneMessages opt mfloor ident False g) (\<lambda>g.
      bindS (tx_TaskHasMessages ident) (\<lambda>has.
      if has \<or> snd g = 0 then gc_more g
      else bindS (tx_DeleteTask ident) (\<lambda>_.
      let out = fst g; remaining = snd g - 1;
          out = out\<lparr>gr_Rows := gr_Rows out + 1, gr_Tasks := gr_Tasks out + 1, gr_Next := ident\<rparr>
      in if remaining = 0 then gc_more (out, remaining) else retS ((out, remaining), True)))))"

definition gc_task :: "GCOptions \<Rightarrow> int \<Rightarrow> TaskID \<Rightarrow> gc \<Rightarrow> (gc \<times> bool) tx" where
  "gc_task opt mfloor ident g =
     bindS (tx_TaskSummary ident) (\<lambda>summary.
     bindS (tx_TaskMessagesSafe ident (time_Unix (gc_Now opt)) mfloor) (\<lambda>safe.
     if sum_Pending summary \<noteq> 0 \<or> \<not> safe then gc_defer ident g
     else bindS (tx_TaskOperations ident (gc_MaxRows opt)) (\<lambda>ids.
     bindS (gc_operations opt ids False g) (\<lambda>(g, outcome). case outcome of
       None \<Rightarrow> retS (g, False)
     | Some deferred \<Rightarrow>
       bindS (tx_TaskSummary ident) (\<lambda>left.
       if sum_Operations left > 0 then (if deferred then gc_defer ident g else gc_more g)
       else gc_finish opt mfloor ident g)))))"

text \<open>\<open>True\<close>: every task was visited; \<open>False\<close>: an early \<open>return nil\<close>.\<close>

fun gc_tasks :: "GCOptions \<Rightarrow> int \<Rightarrow> Task list \<Rightarrow> gc \<Rightarrow> (gc \<times> bool) tx" where
  "gc_tasks opt mfloor [] g = retS (g, True)"
| "gc_tasks opt mfloor (task # tasks) g =
     bindS (gc_task opt mfloor (task_ID task) g) (\<lambda>(g, go_on).
     if go_on then gc_tasks opt mfloor tasks g else retS (g, False))"

definition gc_candidate :: "GCOptions \<Rightarrow> int \<Rightarrow> int" where
  "gc_candidate opt mfloor =
     (let candidate = time_Unix (gc_Now opt + - ReplayWindow)
      in if candidate > mfloor then candidate else mfloor)"

definition collect_tx :: "GCOptions \<Rightarrow> GCResult tx" where
  "collect_tx opt =
     bindS tx_MessageFloor (\<lambda>mfloor.
     let mfloor = gc_candidate opt mfloor
     in bindS (tx_SetMessageFloor mfloor) (\<lambda>_.
     bindS (pruneMessages opt mfloor '''' True
         (zero_result\<lparr>gr_Next := gc_After opt\<rparr>, gc_MaxRows opt)) (\<lambda>g.
     if snd g = 0 then retS ((fst g)\<lparr>gr_More := True\<rparr>)
     else bindS (tx_TerminalTasksAfter (gc_After opt)
         (time_Unix (gc_Now opt + - TerminalRetention)) (gc_MaxTasks opt)) (\<lambda>tasks.
     bindS (gc_tasks opt mfloor tasks g) (\<lambda>(g, all_visited).
     if \<not> all_visited then retS (fst g)
     else let out = (fst g)\<lparr>gr_More := (int (length tasks) = gc_MaxTasks opt)\<rparr>
       in retS (if \<not> gr_More out then out\<lparr>gr_Next := ''''\<rparr> else out))))))"

definition Collect :: "context3 \<Rightarrow> GCOptions \<Rightarrow> Repository \<Rightarrow> GCResult result \<times> Repository" where
  "Collect ctx opt r =
     (if time_IsZero (gc_Now opt) \<or> gc_MaxTasks opt < 1 \<or> gc_MaxTasks opt > MaxPageSize
         \<or> gc_MaxRows opt < 1 \<or> gc_MaxRows opt > MaxGCRows
      then (Inl (ErrText ''invalid GC budget''), r)
      else memory_Update ctx (collect_tx opt) r)"

section \<open>What the deletions do\<close>

lemma tx_DeleteOperationGraph_Inr [run_simps]:
  "tx_DeleteOperationGraph ident t = (Inr u, t') \<longleftrightarrow> tx_write t
     \<and> (\<forall>s r. fmlookup (d_reservations (tx_d t)) s = Some r \<longrightarrow> res_OperationID r \<noteq> ident)
     \<and> t' = t\<lparr>tx_d := purged (tx_d t) ident\<rparr>"
  unfolding tx_DeleteOperationGraph_def purged_def
  by (cases t; cases "tx_d t") (auto simp: run_simps)

lemma tx_OperationRows_Inr [run_simps]:
  "tx_OperationRows ident limit t = (Inr n, t') \<longleftrightarrow> t' = t \<and>
     (\<exists>opn. fmlookup (d_ops (tx_d t)) ident = Some opn \<and> n = min (operation_rows (tx_d t) ident opn) limit)"
  by (auto simp: tx_OperationRows_def run_simps)

lemma operation_rows_pos: "operation_rows d ident opn \<ge> 1"
  unfolding operation_rows_def count_rows_def
  by (intro order_trans[OF _ add_mono[OF _ of_nat_0_le_iff]] order_trans[OF _ add_mono[OF _ sum_list_nonneg]])
     auto

lemma lookup_drop_all: "fmlookup (fold fmdrop ks m) k = (if k \<in> set ks then None else fmlookup m k)"
  by (induction ks arbitrary: m) auto

lemma tx_DeleteMessages_Inr [run_simps]:
  "tx_DeleteMessages ids t = (Inr u, t') \<longleftrightarrow>
     tx_write t \<and> t' = t\<lparr>tx_d := d_messages_update (fold fmdrop ids) (tx_d t)\<rparr>"
proof -
  have "forS ids (\<lambda>ident. writeT (d_messages_update (fmdrop ident))) t
      = (Inr (), t\<lparr>tx_d := d_messages_update (fold fmdrop ids) (tx_d t)\<rparr>)" for t
    by (induction ids arbitrary: t) (simp_all add: retS_def bindS_def writeT_def comp_def)
  then show ?thesis by (auto simp: tx_DeleteMessages_def run_simps)
qed

lemma integrity_drop_all:
  "integrity d \<Longrightarrow> integrity (d_messages_update (fold fmdrop ids) d)"
proof (induction ids arbitrary: d)
  case (Cons k ids)
  from Cons.IH[OF drop_message_step[OF Cons.prems, of k]] show ?case by (simp add: comp_def)
next
  case (Nil d)
  then show ?case by (cases d) simp
qed

lemma tx_ExpiredMessages_Inr [run_simps]:
  "tx_ExpiredMessages ident orphan now mfloor limit t = (Inr ids, t') \<longleftrightarrow> t' = t \<and> 1 \<le> limit
     \<and> limit \<le> MaxGCRows \<and> ids = take (nat limit) (sort (map fst (filter
         (\<lambda>(key, v). message_expired (tx_d t) ident orphan now mfloor v) (go_range (d_messages (tx_d t))))))"
  by (auto simp: tx_ExpiredMessages_def run_simps)

lemma tx_TaskOperations_Inr [run_simps]:
  "tx_TaskOperations ident limit t = (Inr ids, t') \<longleftrightarrow> t' = t \<and> 1 \<le> limit
     \<and> limit \<le> MaxGCRows \<and> ids = take (nat limit) (sort (map fst (filter
         (\<lambda>(key, opn). od_TaskID (op_Descriptor opn) = ident) (go_range (d_ops (tx_d t))))))"
  by (auto simp: tx_TaskOperations_def run_simps)

lemma tx_TaskMessagesSafe_Inr [run_simps]:
  "tx_TaskMessagesSafe ident now mfloor t = (Inr b, t') \<longleftrightarrow> t' = t \<and>
     b = (\<not> (\<exists>k v. fmlookup (d_messages (tx_d t)) k = Some v \<and> message_unsafe (tx_d t) ident now mfloor v))"
  by (auto simp: tx_TaskMessagesSafe_def run_simps)

lemma summary_operations_zero:
  "sum_Operations (task_summary d ident) = 0 \<longleftrightarrow> (\<forall>opn. \<not> of_task d ident opn)"
  "0 \<le> sum_Operations (task_summary d ident)"
proof -
  have eq: "sum_Operations (task_summary d ident) = int (length (ops_of ident (go_values (d_ops d))))"
    by (simp add: task_summary_def summary_counts)
  then show "0 \<le> sum_Operations (task_summary d ident)" by simp
  have "sum_Operations (task_summary d ident) = 0 \<longleftrightarrow> set (ops_of ident (go_values (d_ops d))) = {}"
    unfolding eq by (simp only: of_nat_eq_0_iff length_0_conv set_empty)
  then show "sum_Operations (task_summary d ident) = 0 \<longleftrightarrow> (\<forall>opn. \<not> of_task d ident opn)"
    by (metis all_not_in_conv ops_of_iff)
qed

lemma tx_DeleteTask_Inr [run_simps]:
  "tx_DeleteTask ident t = (Inr u, t') \<longleftrightarrow> tx_write t \<and> (\<forall>opn. \<not> of_task (tx_d t) ident opn)
     \<and> \<not> (\<exists>k v. fmlookup (d_messages (tx_d t)) k = Some v \<and> msg_TaskID v = ident)
     \<and> t' = t\<lparr>tx_d := d_tasks_update (fmdrop ident) (tx_d t)\<rparr>"
  unfolding tx_DeleteTask_def by (auto simp: run_simps summary_operations_zero)

text \<open>The rows a filtered, sorted and truncated range yields.\<close>

lemma set_page:
  assumes "x \<in> set (take n (sort (map fst (filter (\<lambda>(k, v). P k v) (go_range m)))))"
  shows "\<exists>v. fmlookup m x = Some v \<and> P x v"
  using set_take_subset[of n "sort (map fst (filter (\<lambda>(k, v). P k v) (go_range m)))"] assms
  by (auto dest!: subsetD)

lemma page_empty:
  assumes "take n (sort (map fst (filter (\<lambda>(k, v). P k v) (go_range m)))) = []" and "0 < n"
    and "fmlookup m k = Some v"
  shows "\<not> P k v"
proof -
  from assms(1,2) have "length (sort (map fst (filter (\<lambda>(k, v). P k v) (go_range m)))) = 0" by simp
  then have "filter (\<lambda>(k, v). P k v) (go_range m) = []" by (simp only: length_sort length_map length_0_conv)
  with assms(3) show ?thesis by (auto simp: filter_empty_conv)
qed

section \<open>What a collection may take\<close>

text \<open>
  \<open>taken T M d d'\<close>: from \<open>d\<close> to \<open>d'\<close> nothing was added or changed; a task that is gone is in \<open>T\<close>, an
  operation that is gone belongs to a task in \<open>T\<close>, the rows of an operation are gone only together with
  the operation, and a message that is gone satisfies \<open>M\<close>.
\<close>

definition kept :: "('k, 'v) fmap \<Rightarrow> ('k, 'v) fmap \<Rightarrow> ('v \<Rightarrow> bool) \<Rightarrow> bool" where
  "kept m m' lost \<longleftrightarrow> (\<forall>k v. fmlookup m' k = Some v \<longrightarrow> fmlookup m k = Some v)
     \<and> (\<forall>k v. fmlookup m k = Some v \<longrightarrow> fmlookup m' k = Some v \<or> lost v)"

definition taken :: "TaskID set \<Rightarrow> (Message \<Rightarrow> bool) \<Rightarrow> data \<Rightarrow> data \<Rightarrow> bool" where
  "taken T M d d' \<longleftrightarrow>
     kept (d_tasks d) (d_tasks d') (\<lambda>v. task_ID v \<in> T)
     \<and> kept (d_ops d) (d_ops d') (\<lambda>v. od_TaskID (op_Descriptor v) \<in> T)
     \<and> kept (d_attempts d) (d_attempts d') (\<lambda>v. fmlookup (d_ops d') (att_OperationID v) = None)
     \<and> kept (d_evidence d) (d_evidence d') (\<lambda>v. fmlookup (d_ops d') (ev_OperationID v) = None)
     \<and> kept (d_verifications d) (d_verifications d') (\<lambda>v. fmlookup (d_ops d') (ver_OperationID v) = None)
     \<and> kept (d_revocations d) (d_revocations d') (\<lambda>v. fmlookup (d_ops d') (rvk_OperationID v) = None)
     \<and> kept (d_messages d) (d_messages d') M
     \<and> d_reservations d' = d_reservations d"

lemma kept_refl: "kept m m lost"
  by (simp add: kept_def)

lemma kept_trans:
  assumes "kept m1 m2 lost" and "kept m2 m3 lost'" and "\<And>v. lost v \<Longrightarrow> lost' v"
  shows "kept m1 m3 lost'"
  using assms unfolding kept_def by blast

lemma taken_refl: "taken T M d d"
  by (simp add: taken_def kept_refl)

lemma taken_trans:
  assumes "taken T M d1 d2" and "taken T M d2 d3"
  shows "taken T M d1 d3"
proof -
  have gone: "fmlookup (d_ops d2) k = None \<Longrightarrow> fmlookup (d_ops d3) k = None" for k
    using assms(2) by (cases "fmlookup (d_ops d3) k") (auto simp: taken_def kept_def)
  show ?thesis
    using assms unfolding taken_def by (auto elim!: kept_trans gone)
qed

lemma kept_mono: "kept m m' lost \<Longrightarrow> (\<And>v. lost v \<Longrightarrow> lost' v) \<Longrightarrow> kept m m' lost'"
  unfolding kept_def by blast

lemma taken_mono: "taken T M d d' \<Longrightarrow> T \<subseteq> T' \<Longrightarrow> taken T' M d d'"
  unfolding taken_def by (auto elim!: kept_mono)

lemma taken_purged:
  assumes op: "fmlookup (d_ops d) k = Some opn" and T: "od_TaskID (op_Descriptor opn) \<in> T"
  shows "taken T M d (purged d k)"
proof -
  have "fmlookup (d_ops (purged d k)) k = None" by (simp add: purged_def)
  with assms show ?thesis
    unfolding taken_def kept_def purged_iff by auto
qed

lemma taken_messages:
  assumes "\<And>k v. k \<in> set ids \<Longrightarrow> fmlookup (d_messages d) k = Some v \<Longrightarrow> M v"
  shows "taken T M d (d_messages_update (fold fmdrop ids) d)"
  using assms by (simp add: taken_def kept_refl) (simp add: kept_def lookup_drop_all)

lemma taken_task:
  assumes I: "integrity d" and "k \<in> T"
  shows "taken T M d (d_tasks_update (fmdrop k) d)"
  using assms integrityD(10)[OF I, of k]
  by (simp add: taken_def kept_refl) (auto simp: kept_def task_row_def)

section \<open>The loops\<close>

text \<open>
  \<open>pays opt g g'\<close>: between \<open>g\<close> and \<open>g'\<close> every row taken was paid for out of \<open>remaining\<close>, which stays
  non-negative, and the counters of kinds of rows never exceed the rows.
\<close>

definition budget_ok :: "GCOptions \<Rightarrow> gc \<Rightarrow> bool" where
  "budget_ok opt g \<longleftrightarrow> (case g of (out, remaining) \<Rightarrow>
     0 \<le> remaining \<and> gr_Rows out + remaining = gc_MaxRows opt
     \<and> 0 \<le> gr_Messages out \<and> 0 \<le> gr_Operations out \<and> 0 \<le> gr_Tasks out
     \<and> gr_Messages out + gr_Operations out + gr_Tasks out \<le> gr_Rows out)"

text \<open>The messages a collection may take: expired, and below the floor it has set.\<close>

definition past_window :: "GCOptions \<Rightarrow> int \<Rightarrow> Message \<Rightarrow> bool" where
  "past_window opt mfloor v \<longleftrightarrow>
     msg_ExpiresAt v < time_Unix (gc_Now opt) \<and> time_Unix (msg_IssuedAt v) < mfloor"

text \<open>A step of the collection from \<open>(d, g)\<close> to \<open>(d', g')\<close> that is allowed to take tasks in \<open>T\<close>.\<close>

definition gc_step ::
  "GCOptions \<Rightarrow> int \<Rightarrow> TaskID set \<Rightarrow> transaction \<Rightarrow> gc \<Rightarrow> transaction \<Rightarrow> gc \<Rightarrow> bool" where
  "gc_step opt mfloor T t g t' g' \<longleftrightarrow> integrity (tx_d t') \<and> budget_ok opt g'
     \<and> taken T (past_window opt mfloor) (tx_d t) (tx_d t')
     \<and> d_messageFloor (tx_d t') = d_messageFloor (tx_d t) \<and> tx_write t' = tx_write t
     \<and> gr_Rows (fst g) \<le> gr_Rows (fst g')"

lemma gc_step_refl:
  "integrity (tx_d t) \<Longrightarrow> budget_ok opt (out, n) \<Longrightarrow> gc_step opt mfloor T t (out, n) t (out, n)"
  by (simp add: gc_step_def taken_refl)

lemma gc_step_trans:
  "gc_step opt mfloor T t1 g1 t2 g2 \<Longrightarrow> gc_step opt mfloor T t2 g2 t3 g3 \<Longrightarrow>
   gc_step opt mfloor T t1 g1 t3 g3"
  unfolding gc_step_def using taken_trans by fastforce

lemma pruneMessages_step:
  assumes I: "integrity (tx_d t)" and b: "budget_ok opt (out, n)"
    and run: "pruneMessages opt mfloor ident orphan (out, n) t = (Inr g', t')"
  shows "gc_step opt mfloor T t (out, n) t' g'"
    and "\<exists>m. g' = (out\<lparr>gr_Messages := gr_Messages out + m, gr_Rows := gr_Rows out + m\<rparr>, n - m)
      \<and> 0 \<le> m \<and> (m = 0 \<longrightarrow> (\<forall>k v. fmlookup (d_messages (tx_d t)) k = Some v \<longrightarrow>
        \<not> message_expired (tx_d t) ident orphan (time_Unix (gc_Now opt)) mfloor v))"
    and "\<exists>f. tx_d t' = d_messages_update f (tx_d t)"
proof -
  let ?P = "\<lambda>_. message_expired (tx_d t) ident orphan (time_Unix (gc_Now opt)) mfloor"
  define ids where "ids = take (nat n) (sort (map fst (filter (\<lambda>(k, v). ?P k v) (go_range (d_messages (tx_d t))))))"
  have n: "1 \<le> n" and t': "tx_d t' = d_messages_update (fold fmdrop ids) (tx_d t)" "tx_write t' = tx_write t"
    and g': "g' = (out\<lparr>gr_Messages := gr_Messages out + int (length ids),
        gr_Rows := gr_Rows out + int (length ids)\<rparr>, n - int (length ids))"
    using run by (auto simp: pruneMessages_def run_simps ids_def Let_def)
  have len: "int (length ids) \<le> n" using n by (simp add: ids_def)
  have past: "past_window opt mfloor v" if "k \<in> set ids" "fmlookup (d_messages (tx_d t)) k = Some v" for k v
    using set_page[OF that(1)[unfolded ids_def]] that(2)
    by (auto simp: message_expired_def past_window_def Let_def)
  show "gc_step opt mfloor T t (out, n) t' g'"
    using integrity_drop_all[OF I] taken_messages[of ids "tx_d t", OF past] b len
    by (auto simp: gc_step_def t' g' budget_ok_def)
  have "\<not> ?P k v" if "ids = []" "fmlookup (d_messages (tx_d t)) k = Some v" for k v
    using page_empty[OF that(1)[unfolded ids_def] _ that(2)] n by simp
  then show "\<exists>m. g' = (out\<lparr>gr_Messages := gr_Messages out + m, gr_Rows := gr_Rows out + m\<rparr>, n - m)
      \<and> 0 \<le> m \<and> (m = 0 \<longrightarrow> (\<forall>k v. fmlookup (d_messages (tx_d t)) k = Some v \<longrightarrow>
        \<not> message_expired (tx_d t) ident orphan (time_Unix (gc_Now opt)) mfloor v))"
    using g' by (intro exI[of _ "int (length ids)"]) auto
  show "\<exists>f. tx_d t' = d_messages_update f (tx_d t)" using t' by blast
qed

lemma budget_taken:
  assumes "budget_ok opt (out, remaining)" and "1 \<le> n" and "n \<le> remaining"
  shows "budget_ok opt (out\<lparr>gr_Rows := gr_Rows out + n, gr_Operations := gr_Operations out + 1\<rparr>, remaining - n)"
    "budget_ok opt (out\<lparr>gr_Rows := gr_Rows out + 1, gr_Tasks := gr_Tasks out + 1, gr_Next := ident\<rparr>, remaining - 1)"
  using assms by (auto simp: budget_ok_def)

lemma gc_operations_step:
  assumes "integrity (tx_d t)" and "budget_ok opt g"
    and "\<And>k opn. k \<in> set ids \<Longrightarrow> fmlookup (d_ops (tx_d t)) k = Some opn \<Longrightarrow> od_TaskID (op_Descriptor opn) \<in> T"
    and "gc_operations opt ids deferred g t = (Inr (g', outcome), t')"
  shows "gc_step opt mfloor T t g t' g'
    \<and> d_messages (tx_d t') = d_messages (tx_d t) \<and> gr_Next (fst g') = gr_Next (fst g)
    \<and> (outcome = None \<longrightarrow> 0 < gr_Rows (fst g') \<and> gr_More (fst g'))
    \<and> (outcome = Some False \<longrightarrow> gr_Rows (fst g) + int (length ids) \<le> gr_Rows (fst g'))"
  using assms
proof (induction opt ids deferred g arbitrary: t rule: gc_operations.induct)
  case (1 opt deferred g)
  then show ?case by (cases g) (auto simp: run_simps gc_step_refl)
next
  case (2 opt ident ids deferred out remaining)
  from "2.prems"(4) obtain n opn where opn: "fmlookup (d_ops (tx_d t)) ident = Some opn"
    and n: "n = min (operation_rows (tx_d t) ident opn) (gc_MaxRows opt + 1)"
    and rest: "(if n > gc_MaxRows opt
     then gc_operations opt ids True
       (out\<lparr>gr_OversizedOperations := gr_OversizedOperations out + 1\<rparr>, remaining)
     else if n > remaining then retS ((out\<lparr>gr_More := True\<rparr>, remaining), None)
     else bindS (tx_DeleteOperationGraph ident) (\<lambda>_.
       gc_operations opt ids deferred
         (out\<lparr>gr_Rows := gr_Rows out + n, gr_Operations := gr_Operations out + 1\<rparr>, remaining - n))) t
       = (Inr (g', outcome), t')"
    by (auto simp: run_simps)
  have n1: "1 \<le> n" using operation_rows_pos[of "tx_d t" ident opn] "2.prems"(2) n
    by (auto simp: budget_ok_def)
  show ?case
  proof (cases "n > gc_MaxRows opt")
    case True
    let ?g = "(out\<lparr>gr_OversizedOperations := gr_OversizedOperations out + 1\<rparr>, remaining)"
    have b: "budget_ok opt ?g" using "2.prems"(2) by (simp add: budget_ok_def)
    have run: "gc_operations opt ids True ?g t = (Inr (g', outcome), t')" using True rest by simp
    have never: "outcome \<noteq> Some False"
    proof -
      have "gc_operations opt ids True g1 s = (Inr (g2, out2), s2) \<Longrightarrow> out2 \<noteq> Some False" for g1 g2 out2 s s2
        by (induction opt ids True g1 arbitrary: s rule: gc_operations.induct)
           (auto simp: run_simps split: if_splits)
      with run show ?thesis by blast
    qed
    from "2.IH"(1)[OF True "2.prems"(1) b _ run] "2.prems"(3) never
    show ?thesis by (auto simp: gc_step_def)
  next
    case False
    show ?thesis
    proof (cases "n > remaining")
      case True
      with False rest "2.prems"(1,2) show ?thesis
        by (auto simp: run_simps gc_step_def budget_ok_def taken_refl)
    next
      case le: False
      let ?g = "(out\<lparr>gr_Rows := gr_Rows out + n, gr_Operations := gr_Operations out + 1\<rparr>, remaining - n)"
      from False le rest obtain t1 where free: "\<And>s r. fmlookup (d_reservations (tx_d t)) s = Some r \<Longrightarrow> res_OperationID r \<noteq> ident"
        and t1: "t1 = t\<lparr>tx_d := purged (tx_d t) ident\<rparr>"
        and run: "gc_operations opt ids deferred ?g t1 = (Inr (g', outcome), t')"
        by (auto simp: run_simps)
      have I1: "integrity (tx_d t1)" using purge_step[OF "2.prems"(1) free] by (simp add: t1)
      have b1: "budget_ok opt ?g" using budget_taken(1)[OF "2.prems"(2) n1] le by simp
      have "taken T (past_window opt mfloor) (tx_d t) (tx_d t1)"
        using taken_purged[OF opn] "2.prems"(3)[of ident opn] opn by (simp add: t1)
      then have s1: "gc_step opt mfloor T t (out, remaining) t1 ?g"
        using I1 b1 n1 by (simp add: gc_step_def t1 purged_iff)
      have T1: "od_TaskID (op_Descriptor o1) \<in> T"
        if "k \<in> set ids" "fmlookup (d_ops (tx_d t1)) k = Some o1" for k o1
        using that "2.prems"(3)[of k o1] by (simp add: t1 purged_iff)
      have "gc_step opt mfloor T t1 ?g t' g' \<and> d_messages (tx_d t') = d_messages (tx_d t1)
          \<and> gr_Next (fst g') = gr_Next (fst ?g)
          \<and> (outcome = None \<longrightarrow> 0 < gr_Rows (fst g') \<and> gr_More (fst g'))
          \<and> (outcome = Some False \<longrightarrow> gr_Rows (fst ?g) + int (length ids) \<le> gr_Rows (fst g'))"
        by (rule "2.IH"(2)[OF False le I1 b1 T1 run])
      with gc_step_trans[OF s1] n1 show ?thesis by (auto simp: t1 purged_iff)
    qed
  qed
qed

lemma gc_more_eq: "gc_more g t = (Inr (g', go_on), t') \<longleftrightarrow>
    t' = t \<and> g' = ((fst g)\<lparr>gr_More := True\<rparr>, snd g) \<and> \<not> go_on"
  by (cases g) (auto simp: gc_more_def run_simps)

lemma gc_defer_eq: "gc_defer ident g t = (Inr (g', go_on), t') \<longleftrightarrow> t' = t \<and> go_on
    \<and> g' = ((fst g)\<lparr>gr_DeferredTasks := gr_DeferredTasks (fst g) + 1, gr_Next := ident\<rparr>, snd g)"
  by (cases g) (auto simp: gc_defer_def run_simps)

lemma gc_marks:
  "gc_step opt mfloor T t g t' (out, n) \<Longrightarrow> gc_step opt mfloor T t g t' (out\<lparr>gr_More := b\<rparr>, n)"
  "gc_step opt mfloor T t g t' (out, n) \<Longrightarrow>
     gc_step opt mfloor T t g t' (out\<lparr>gr_DeferredTasks := c, gr_Next := ident\<rparr>, n)"
  by (auto simp: gc_step_def budget_ok_def)

text \<open>The round for one task whose operations are all gone and whose messages are past their window.\<close>

lemma gc_finish_step:
  assumes I: "integrity (tx_d t)" and b: "budget_ok opt g" and T: "ident \<in> T" and rows: "1 \<le> gc_MaxRows opt"
    and safe: "\<And>k v. fmlookup (d_messages (tx_d t)) k = Some v \<Longrightarrow> msg_TaskID v = ident \<Longrightarrow> past_window opt mfloor v"
    and run: "gc_finish opt mfloor ident g t = (Inr (g', go_on), t')"
  shows "gc_step opt mfloor T t g t' g' \<and> (go_on \<longrightarrow> gr_Next (fst g') = ident)
    \<and> (\<not> go_on \<longrightarrow> 0 < gr_Rows (fst g') \<and> gr_More (fst g'))"
proof -
  obtain out n where g: "g = (out, n)" by fastforce
  show ?thesis
  proof (cases "n = 0")
    case True
    with run I b rows show ?thesis
      by (auto simp: g gc_finish_def gc_more_eq gc_step_def budget_ok_def taken_refl)
  next
    case False
    with run g obtain g1 t1 where prune: "pruneMessages opt mfloor ident False (out, n) t = (Inr g1, t1)"
      and rest: "bindS (tx_TaskHasMessages ident) (\<lambda>has.
      if has \<or> snd g1 = 0 then gc_more g1
      else bindS (tx_DeleteTask ident) (\<lambda>_.
      let out = fst g1; remaining = snd g1 - 1;
          out = out\<lparr>gr_Rows := gr_Rows out + 1, gr_Tasks := gr_Tasks out + 1, gr_Next := ident\<rparr>
      in if remaining = 0 then gc_more (out, remaining) else retS ((out, remaining), True))) t1 = (Inr (g', go_on), t')"
      by (auto simp: gc_finish_def bindS_Inr)
    note s1 = pruneMessages_step(1)[OF I b[unfolded g] prune, where T = T]
    obtain m where g1: "g1 = (out\<lparr>gr_Messages := gr_Messages out + m, gr_Rows := gr_Rows out + m\<rparr>, n - m)"
      and m: "0 \<le> m" "m = 0 \<longrightarrow> (\<forall>k v. fmlookup (d_messages (tx_d t)) k = Some v \<longrightarrow>
        \<not> message_expired (tx_d t) ident False (time_Unix (gc_Now opt)) mfloor v)"
      using pruneMessages_step(2)[OF I b[unfolded g] prune] by blast
    have I1: "integrity (tx_d t1)" and b1: "budget_ok opt g1" using s1 by (simp_all add: gc_step_def)
    have rows0: "0 \<le> gr_Rows out" using b by (simp add: g budget_ok_def)
    show ?thesis
    proof (cases "(\<exists>k v. fmlookup (d_messages (tx_d t1)) k = Some v \<and> msg_TaskID v = ident) \<or> snd g1 = 0")
      case True
      have "0 < gr_Rows (fst g1)"
      proof (cases "snd g1 = 0")
        case True
        with b1 rows show ?thesis by (auto simp: budget_ok_def)
      next
        case False
        with True obtain k v where kv: "fmlookup (d_messages (tx_d t1)) k = Some v" "msg_TaskID v = ident" by blast
        with s1 have kv0: "fmlookup (d_messages (tx_d t)) k = Some v"
          by (auto simp: gc_step_def taken_def kept_def)
        with safe[OF kv0 kv(2)] kv(2) m have "m \<noteq> 0"
          by (auto simp: message_expired_def past_window_def Let_def)
        with m(1) rows0 show ?thesis by (simp add: g1)
      qed
      moreover have "g' = ((fst g1)\<lparr>gr_More := True\<rparr>, snd g1)" "t' = t1" "\<not> go_on"
        using rest True by (auto simp: bindS_Inr tx_reads gc_more_eq)
      ultimately show ?thesis using gc_marks(1)[of opt mfloor T t "(out, n)" t1 "fst g1" "snd g1"] s1 g by simp
    next
      case nomore: False
      let ?out = "(fst g1)\<lparr>gr_Rows := gr_Rows (fst g1) + 1, gr_Tasks := gr_Tasks (fst g1) + 1, gr_Next := ident\<rparr>"
      from nomore rest obtain t2 where del: "tx_DeleteTask ident t1 = (Inr (), t2)"
        and last: "(if snd g1 - 1 = 0 then gc_more (?out, snd g1 - 1) else retS ((?out, snd g1 - 1), True)) t2
          = (Inr (g', go_on), t')"
        by (auto simp: bindS_Inr tx_reads Let_def split: if_split_asm)
      have free: "\<forall>opn. \<not> of_task (tx_d t1) ident opn" and t2: "t2 = t1\<lparr>tx_d := d_tasks_update (fmdrop ident) (tx_d t1)\<rparr>"
        using del by (auto simp: tx_DeleteTask_Inr)
      have "integrity (tx_d t2)"
        unfolding t2 using drop_task_step[OF I1, of ident] free by (fastforce simp: of_task_def)
      moreover have "taken T (past_window opt mfloor) (tx_d t1) (tx_d t2)"
        using taken_task[OF I1 T] by (simp add: t2)
      moreover have "budget_ok opt (?out, snd g1 - 1)"
        using budget_taken(2)[of opt "fst g1" "snd g1" 1] b1 nomore by (auto simp: budget_ok_def)
      ultimately have s2: "gc_step opt mfloor T t1 g1 t2 (?out, snd g1 - 1)"
        by (simp add: gc_step_def t2)
      note s = gc_step_trans[OF s1 s2]
      have "0 \<le> gr_Rows (fst g1)" using rows0 m(1) by (simp add: g1)
      with last s gc_marks(1)[OF s] show ?thesis
        by (auto simp: g gc_more_eq retS_eq split: if_split_asm)
    qed
  qed
qed

text \<open>The round for one task of the page.\<close>

lemma gc_task_eq:
  "gc_task opt mfloor ident g t =
     (if sum_Pending (task_summary (tx_d t) ident) \<noteq> 0
        \<or> (\<exists>k v. fmlookup (d_messages (tx_d t)) k = Some v
             \<and> message_unsafe (tx_d t) ident (time_Unix (gc_Now opt)) mfloor v)
      then gc_defer ident g t
      else bindS (tx_TaskOperations ident (gc_MaxRows opt)) (\<lambda>ids.
     bindS (gc_operations opt ids False g) (\<lambda>(g, outcome). case outcome of
       None \<Rightarrow> retS (g, False)
     | Some deferred \<Rightarrow>
       bindS (tx_TaskSummary ident) (\<lambda>left.
       if sum_Operations left > 0 then (if deferred then gc_defer ident g else gc_more g)
       else gc_finish opt mfloor ident g))) t)"
proof -
  have "tx_TaskSummary ident t = (Inr (task_summary (tx_d t) ident), t)"
    "tx_TaskMessagesSafe ident (time_Unix (gc_Now opt)) mfloor t = (Inr (\<not> (\<exists>k v.
      fmlookup (d_messages (tx_d t)) k = Some v
      \<and> message_unsafe (tx_d t) ident (time_Unix (gc_Now opt)) mfloor v)), t)"
    by (simp_all only: tx_reads tx_TaskMessagesSafe_Inr)
  then show ?thesis unfolding gc_task_def by (simp only: bindS_run not_not if_distribR)
qed

lemma gc_task_step:
  assumes I: "integrity (tx_d t)" and b: "budget_ok opt g" and T: "ident \<in> T" and rows: "1 \<le> gc_MaxRows opt"
    and run: "gc_task opt mfloor ident g t = (Inr (g', go_on), t')"
  shows "gc_step opt mfloor T t g t' g' \<and> (go_on \<longrightarrow> gr_Next (fst g') = ident)
    \<and> (\<not> go_on \<longrightarrow> 0 < gr_Rows (fst g') \<and> gr_More (fst g'))"
proof (cases "sum_Pending (task_summary (tx_d t) ident) \<noteq> 0
    \<or> (\<exists>k v. fmlookup (d_messages (tx_d t)) k = Some v
         \<and> message_unsafe (tx_d t) ident (time_Unix (gc_Now opt)) mfloor v)")
  case True
  then have "t' = t \<and> go_on
      \<and> g' = ((fst g)\<lparr>gr_DeferredTasks := gr_DeferredTasks (fst g) + 1, gr_Next := ident\<rparr>, snd g)"
    using run[unfolded gc_task_eq if_P[OF True]] by (simp add: gc_defer_eq)
  with I b show ?thesis by (cases g) (auto simp: gc_step_def taken_refl budget_ok_def)
next
  case ok: False
  define ids where "ids = take (nat (gc_MaxRows opt)) (sort (map fst (filter
      (\<lambda>(key, opn). od_TaskID (op_Descriptor opn) = ident) (go_range (d_ops (tx_d t))))))"
  obtain g1 outcome t1 where ops: "gc_operations opt ids False g t = (Inr (g1, outcome), t1)"
    and rest: "(case outcome of None \<Rightarrow> retS (g1, False) | Some deferred \<Rightarrow>
       bindS (tx_TaskSummary ident) (\<lambda>left.
       if sum_Operations left > 0 then (if deferred then gc_defer ident g1 else gc_more g1)
       else gc_finish opt mfloor ident g1)) t1 = (Inr (g', go_on), t')"
    using run[unfolded gc_task_eq if_not_P[OF ok]] unfolding ids_def
    by (auto simp: bindS_Inr tx_TaskOperations_Inr)
  have own: "od_TaskID (op_Descriptor opn) \<in> T"
    if "k \<in> set ids" "fmlookup (d_ops (tx_d t)) k = Some opn" for k opn
    using set_page[OF that(1)[unfolded ids_def]] that(2) T by auto
  have st: "gc_step opt mfloor T t g t1 g1" and msgs: "d_messages (tx_d t1) = d_messages (tx_d t)"
    and early: "outcome = None \<Longrightarrow> 0 < gr_Rows (fst g1) \<and> gr_More (fst g1)"
    and paid: "outcome = Some False \<Longrightarrow> gr_Rows (fst g) + int (length ids) \<le> gr_Rows (fst g1)"
    using gc_operations_step[OF I b own ops, where mfloor = mfloor] by auto
  have I1: "integrity (tx_d t1)" and b1: "budget_ok opt g1" using st by (simp_all add: gc_step_def)
  show ?thesis
  proof (cases outcome)
    case None
    with rest st early show ?thesis by (auto simp: retS_eq)
  next
    case (Some deferred)
    show ?thesis
    proof (cases "sum_Operations (task_summary (tx_d t1) ident) > 0")
      case left: True
      have paid0: "0 < gr_Rows (fst g1)" if "\<not> deferred"
      proof (cases "ids = []")
        case True
        with ops have "t1 = t" by (simp add: retS_eq)
        with left obtain k opn where "fmlookup (d_ops (tx_d t)) k = Some opn" "od_TaskID (op_Descriptor opn) = ident"
          using summary_operations_zero(1)[of "tx_d t" ident] by (auto simp: of_task_def)
        with page_empty[OF True[unfolded ids_def]] rows show ?thesis by auto
      next
        case False
        with paid Some that b show ?thesis by (cases ids) (auto simp: budget_ok_def)
      qed
      have marks: "gc_step opt mfloor T t g t1 ((fst g1)\<lparr>gr_More := True\<rparr>, snd g1)"
        "gc_step opt mfloor T t g t1
           ((fst g1)\<lparr>gr_DeferredTasks := gr_DeferredTasks (fst g1) + 1, gr_Next := ident\<rparr>, snd g1)"
        using gc_marks[of opt mfloor T t g t1 "fst g1" "snd g1"] st by simp_all
      have "t' = t1" "go_on = deferred"
        "g' = (if deferred then ((fst g1)\<lparr>gr_DeferredTasks := gr_DeferredTasks (fst g1) + 1, gr_Next := ident\<rparr>, snd g1)
               else ((fst g1)\<lparr>gr_More := True\<rparr>, snd g1))"
        using rest left by (auto simp: Some bindS_Inr tx_reads gc_more_eq gc_defer_eq split: if_splits)
      with marks paid0 show ?thesis by auto
    next
      case False
      have fin: "gc_finish opt mfloor ident g1 t1 = (Inr (g', go_on), t')"
        using rest False by (simp add: Some bindS_Inr tx_reads)
      have "past_window opt mfloor v" if "fmlookup (d_messages (tx_d t1)) k = Some v" "msg_TaskID v = ident" for k v
      proof -
        from ok that have "\<not> message_unsafe (tx_d t) ident (time_Unix (gc_Now opt)) mfloor v"
          unfolding msgs by blast
        with that(2) show ?thesis by (simp add: message_unsafe_def past_window_def)
      qed
      from gc_finish_step[OF I1 b1 T rows this fin] gc_step_trans[OF st] show ?thesis by auto
    qed
  qed
qed

lemma gc_tasks_step:
  assumes "integrity (tx_d t)" and "budget_ok opt g" and "1 \<le> gc_MaxRows opt"
    and "\<And>v. v \<in> set tasks \<Longrightarrow> task_ID v \<in> T"
    and "gc_tasks opt mfloor tasks g t = (Inr (g', all_visited), t')"
  shows "gc_step opt mfloor T t g t' g'
    \<and> (all_visited \<longrightarrow> gr_Next (fst g') = (if tasks = [] then gr_Next (fst g) else task_ID (last tasks)))
    \<and> (\<not> all_visited \<longrightarrow> 0 < gr_Rows (fst g') \<and> gr_More (fst g'))"
  using assms
proof (induction tasks arbitrary: t g)
  case Nil
  then show ?case by (cases g) (auto simp: retS_eq gc_step_refl)
next
  case (Cons task tasks)
  from Cons.prems(5) obtain g1 go_on t1 where one: "gc_task opt mfloor (task_ID task) g t = (Inr (g1, go_on), t1)"
    and rest: "(if go_on then gc_tasks opt mfloor tasks g1 else retS (g1, False)) t1 = (Inr (g', all_visited), t')"
    by (auto simp: bindS_Inr)
  have s1: "gc_step opt mfloor T t g t1 g1" and nx: "go_on \<Longrightarrow> gr_Next (fst g1) = task_ID task"
    and early: "\<not> go_on \<Longrightarrow> 0 < gr_Rows (fst g1) \<and> gr_More (fst g1)"
    using gc_task_step[OF Cons.prems(1,2) Cons.prems(4)[of task] Cons.prems(3) one] by auto
  show ?case
  proof (cases go_on)
    case True
    have "gc_step opt mfloor T t1 g1 t' g'
      \<and> (all_visited \<longrightarrow> gr_Next (fst g') = (if tasks = [] then gr_Next (fst g1) else task_ID (last tasks)))
      \<and> (\<not> all_visited \<longrightarrow> 0 < gr_Rows (fst g') \<and> gr_More (fst g'))"
      using Cons.IH[OF _ _ Cons.prems(3), of t1 g1] Cons.prems(4) rest True s1 by (auto simp: gc_step_def)
    with gc_step_trans[OF s1] nx True show ?thesis by auto
  next
    case False
    with rest s1 early show ?thesis by (auto simp: retS_eq)
  qed
qed

section \<open>A whole collection\<close>

text \<open>The tasks a collection considers: terminal, and past their retention.\<close>

definition collectable :: "GCOptions \<Rightarrow> data \<Rightarrow> TaskID set" where
  "collectable opt d = {ident. gc_After opt < ident \<and> (\<exists>v. fmlookup (d_tasks d) ident = Some v
     \<and> terminalTask (task_State v)
     \<and> time_Unix (task_UpdatedAt v) < time_Unix (gc_Now opt - TerminalRetention))}"

lemma tx_TerminalTasksAfter_page:
  assumes I: "integrity (tx_d t)" and run: "tx_TerminalTasksAfter (gc_After opt) 
      (time_Unix (gc_Now opt + - TerminalRetention)) limit t = (Inr tasks, t')"
  shows "t' = t" and "v \<in> set tasks \<Longrightarrow> task_ID v \<in> collectable opt (tx_d t)"
proof -
  let ?P = "\<lambda>ident v. ident > gc_After opt \<and> memory_terminal (task_State v)
      \<and> time_Unix (task_UpdatedAt v) < time_Unix (gc_Now opt + - TerminalRetention)"
  let ?ids = "take (nat limit) (sort (map fst (filter (\<lambda>(k, v). ?P k v) (go_range (d_tasks (tx_d t))))))"
  from run have tasks: "tasks = map (\<lambda>k. the (fmlookup (d_tasks (tx_d t)) k)) ?ids"
    by (auto simp: tx_TerminalTasksAfter_def readT_eq Let_def split: if_splits)
  show "t' = t" using run by (simp add: tx_TerminalTasksAfter_def readT_eq)
  assume "v \<in> set tasks"
  then obtain k where "k \<in> set ?ids" "v = the (fmlookup (d_tasks (tx_d t)) k)"
    unfolding tasks by auto
  moreover from set_page[OF this(1)] obtain w where "fmlookup (d_tasks (tx_d t)) k = Some w" "?P k w"
    by blast
  ultimately have v: "fmlookup (d_tasks (tx_d t)) k = Some v" "?P k v" by simp_all
  with integrityD(10)[OF I v(1)] show "task_ID v \<in> collectable opt (tx_d t)"
    by (auto simp: collectable_def task_row_def memory_terminal_def terminalTask_def)
qed

text \<open>
  One successful collection: what it may have taken, its budget, and progress.
\<close>

definition collected :: "GCOptions \<Rightarrow> data \<Rightarrow> data \<Rightarrow> GCResult \<Rightarrow> bool" where
  "collected opt d d' out \<longleftrightarrow>
     taken (collectable opt d) (past_window opt (d_messageFloor d')) d d'
     \<and> d_messageFloor d' = max (d_messageFloor d) (time_Unix (gc_Now opt - ReplayWindow))
     \<and> 0 \<le> gr_Messages out \<and> 0 \<le> gr_Operations out \<and> 0 \<le> gr_Tasks out
     \<and> gr_Messages out + gr_Operations out + gr_Tasks out \<le> gr_Rows out \<and> gr_Rows out \<le> gc_MaxRows opt
     \<and> (gr_More out \<longrightarrow> 0 < gr_Rows out \<or> gc_After opt < gr_Next out)"

lemma integrity_collectable_floor:
  "collectable opt (d_messageFloor_update f d) = collectable opt d"
  by (simp add: collectable_def)

lemma taken_floor:
  "taken T M (d_messageFloor_update f d) d' = taken T M d d'"
  by (simp add: taken_def)

lemma tx_SetMessageFloor_Inr [run_simps]:
  "tx_SetMessageFloor v t = (Inr u, t') \<longleftrightarrow> tx_write t
     \<and> t' = t\<lparr>tx_d := d_messageFloor_update (\<lambda>x. max x v) (tx_d t)\<rparr>"
  unfolding tx_SetMessageFloor_def by (cases t; cases "tx_d t") (auto simp: run_simps max_def)

lemma collect_tx_step:
  assumes I: "integrity (tx_d t)" and opt: "1 \<le> gc_MaxRows opt" "1 \<le> gc_MaxTasks opt"
    and run: "collect_tx opt t = (Inr out, t')"
  shows "integrity (tx_d t') \<and> collected opt (tx_d t) (tx_d t') out"
proof -
  let ?fl = "gc_candidate opt (d_messageFloor (tx_d t))"
  let ?g0 = "(zero_result\<lparr>gr_Next := gc_After opt\<rparr>, gc_MaxRows opt)"
  let ?T = "collectable opt (tx_d t)"
  define t0 where "t0 = t\<lparr>tx_d := d_messageFloor_update (\<lambda>x. max x ?fl) (tx_d t)\<rparr>"
  have fl: "?fl = max (d_messageFloor (tx_d t)) (time_Unix (gc_Now opt - ReplayWindow))"
    by (simp add: gc_candidate_def Let_def)
  then have fl0: "d_messageFloor (tx_d t0) = ?fl" by (simp add: t0_def)
  have I0: "integrity (tx_d t0)" using I by (simp add: t0_def integrity_floor)
  have b0: "budget_ok opt ?g0" using opt by (simp add: budget_ok_def zero_result_def)
  from run obtain g1 t1 where prune: "pruneMessages opt ?fl '''' True ?g0 t0 = (Inr g1, t1)"
    and rest: "(if snd g1 = 0 then retS ((fst g1)\<lparr>gr_More := True\<rparr>)
     else bindS (tx_TerminalTasksAfter (gc_After opt)
         (time_Unix (gc_Now opt + - TerminalRetention)) (gc_MaxTasks opt)) (\<lambda>tasks.
     bindS (gc_tasks opt ?fl tasks g1) (\<lambda>(g, all_visited).
     if \<not> all_visited then retS (fst g)
     else let out = (fst g)\<lparr>gr_More := (int (length tasks) = gc_MaxTasks opt)\<rparr>
       in retS (if \<not> gr_More out then out\<lparr>gr_Next := ''''\<rparr> else out)))) t1 = (Inr out, t')"
    unfolding collect_tx_def bindS_Inr tx_reads Let_def tx_SetMessageFloor_Inr t0_def by auto
  note s1 = pruneMessages_step(1)[OF I0 b0 prune, where T = ?T]
  have I1: "integrity (tx_d t1)" and b1: "budget_ok opt g1" using s1 by (simp_all add: gc_step_def)
  have next1: "gr_Next (fst g1) = gc_After opt" using pruneMessages_step(2)[OF I0 b0 prune] by auto
  have result: "integrity (tx_d t') \<and> collected opt (tx_d t) (tx_d t') out"
    if "gc_step opt ?fl ?T t0 ?g0 t' g" "out = (fst g)\<lparr>gr_More := mo, gr_Next := nx\<rparr>"
      "mo \<Longrightarrow> 0 < gr_Rows (fst g) \<or> gc_After opt < nx" for g mo nx
    using that fl fl0 unfolding gc_step_def collected_def budget_ok_def
    by (auto simp: t0_def taken_floor split: prod.splits)
  show ?thesis
  proof (cases "snd g1 = 0")
    case True
    with b1 opt have "0 < gr_Rows (fst g1)" by (auto simp: budget_ok_def)
    with True rest show ?thesis
      by (intro result[where g = g1 and mo = True and nx = "gr_Next (fst g1)"]) (use s1 in \<open>auto simp: retS_eq\<close>)
  next
    case False
    with rest obtain tasks t2 g all_visited where page: "tx_TerminalTasksAfter (gc_After opt)
         (time_Unix (gc_Now opt + - TerminalRetention)) (gc_MaxTasks opt) t1 = (Inr tasks, t2)"
      and loop: "gc_tasks opt ?fl tasks g1 t2 = (Inr (g, all_visited), t')"
      and out: "out = (if all_visited then (fst g)\<lparr>gr_More := (int (length tasks) = gc_MaxTasks opt),
          gr_Next := (if int (length tasks) = gc_MaxTasks opt then gr_Next (fst g) else '''')\<rparr> else fst g)"
      by (auto simp: bindS_Inr retS_eq Let_def split: if_split_asm)
    note pg = tx_TerminalTasksAfter_page[OF I1 page]
    have T: "task_ID v \<in> ?T" if "v \<in> set tasks" for v
      using pg(2)[OF that] s1
      by (auto simp: collectable_def gc_step_def taken_def kept_def t0_def)
    have s2: "gc_step opt ?fl ?T t0 ?g0 t' g" and visited: "all_visited \<Longrightarrow> gr_Next (fst g)
        = (if tasks = [] then gc_After opt else task_ID (last tasks))"
      and early: "\<not> all_visited \<Longrightarrow> 0 < gr_Rows (fst g)"
      using gc_tasks_step[OF I1 b1 opt(1) T loop[unfolded pg(1)]] gc_step_trans[OF s1] next1 by auto
    show ?thesis
    proof (cases all_visited)
      case True
      have "gc_After opt < gr_Next (fst g)" if "int (length tasks) = gc_MaxTasks opt"
        using visited[OF True] T[of "last tasks"] that opt(2) by (auto simp: collectable_def)
      then show ?thesis using out True
        by (intro result[OF s2, where mo = "int (length tasks) = gc_MaxTasks opt"]) auto
    next
      case False
      with out early show ?thesis by (intro result[OF s2, where mo = "gr_More (fst g)" and nx = "gr_Next (fst g)"]) auto
    qed
  qed
qed

end
