(* ===== verification/Recovery.thy ===== *)
theory Recovery
  imports Verdicts
begin

text \<open>
  Recovery inspection: \<open>InspectRecovery\<close> of \<open>internal/core/recovery.go\<close>.  On data with integrity the
  scan never fails, classifies every operation, and its pages leave no operation out.
\<close>

section \<open>InspectRecovery\<close>

datatype RecoveryClass =
    RecoveryPending | RecoveryReady | RecoveryEvaluate | RecoveryUnknown | RecoveryVerified
  | RecoveryFailed | RecoveryCancelled

record RecoveryItem =
  ri_Operation :: Operation
  ri_Task :: Task
  ri_Attempt :: "Attempt option"
  ri_Revocation :: "Revocation option"
  ri_Class :: RecoveryClass

record RecoveryPage =
  rp_Items :: "RecoveryItem list"
  rp_Next :: OperationID

fun recovery_class :: "OperationState \<Rightarrow> RecoveryClass result" where
  "recovery_class OperationPlanned = Inr RecoveryPending"
| "recovery_class OperationReady = Inr RecoveryReady"
| "recovery_class OperationExecuting = Inr RecoveryEvaluate"
| "recovery_class OperationVerifying = Inr RecoveryEvaluate"
| "recovery_class OperationUnknownOutcome = Inr RecoveryUnknown"
| "recovery_class OperationSucceeded = Inr RecoveryVerified"
| "recovery_class OperationFailed = Inr RecoveryFailed"
| "recovery_class OperationCancelled = Inr RecoveryCancelled"
| "recovery_class (OperationStateOther s) = Inl ErrIntegrity"

definition check_reservation :: "Attempt \<Rightarrow> string \<Rightarrow> unit tx" where
  "check_reservation a scope =
     bindS (tx_Reservation scope) (\<lambda>v.
     if res_OperationID v \<noteq> att_OperationID a \<or> res_AttemptID v \<noteq> att_ID a
        \<or> res_LeaseID v \<noteq> att_LeaseID a \<or> res_Generation v \<noteq> att_LeaseGeneration a
     then failS ErrIntegrity else retS ())"

text \<open>\<open>item.Attempt\<close> and \<open>item.Revocation\<close> of one operation.\<close>

definition recovery_attempt :: "Operation \<Rightarrow> (Attempt option \<times> Revocation option) tx" where
  "recovery_attempt opn =
     (if op_ActiveAttemptID opn \<noteq> ''''
      then bindS (tx_Attempt (op_ActiveAttemptID opn)) (\<lambda>a.
        if att_OperationID a \<noteq> od_ID (op_Descriptor opn) \<or> att_LeaseGeneration a \<noteq> op_LeaseGeneration opn
        then failS ErrIntegrity
        else bindS (tryS (tx_Revocation (att_ID a)) (\<lambda>rvk. case rvk of
            Inr v \<Rightarrow> retS (Some v)
          | Inl e \<Rightarrow> if \<not> errors_is e ErrNotFound then failS e else retS None)) (\<lambda>rvk.
        bindS (if HoldsConflictReservation opn
               then forS (od_ConflictScope (op_Descriptor opn)) (check_reservation a)
               else retS ()) (\<lambda>_.
        retS (Some a, rvk))))
      else retS (None, None))"

definition recovery_item :: "Operation \<Rightarrow> RecoveryItem tx" where
  "recovery_item opn =
     bindS (tx_Task (od_TaskID (op_Descriptor opn))) (\<lambda>task.
     bindS (liftR (recovery_class (op_State opn))) (\<lambda>cls.
     bindS (recovery_attempt opn) (\<lambda>(a, rvk).
     retS \<lparr>ri_Operation = opn, ri_Task = task, ri_Attempt = a, ri_Revocation = rvk, ri_Class = cls\<rparr>)))"

fun recovery_items :: "Operation list \<Rightarrow> RecoveryItem list tx" where
  "recovery_items [] = retS []"
| "recovery_items (opn # opns) =
     bindS (recovery_item opn) (\<lambda>item. bindS (recovery_items opns) (\<lambda>items. retS (item # items)))"

definition inspect_recovery :: "OperationID \<Rightarrow> int \<Rightarrow> RecoveryPage tx" where
  "inspect_recovery after limit =
     bindS (tx_OperationsAfter after limit) (\<lambda>opns.
     bindS (recovery_items opns) (\<lambda>items.
     retS \<lparr>rp_Items = items,
           rp_Next = (if int (length opns) = limit then od_ID (op_Descriptor (last opns)) else '''')\<rparr>))"

definition store_InspectRecovery ::
  "context3 \<Rightarrow> OperationID \<Rightarrow> int \<Rightarrow> Repository \<Rightarrow> RecoveryPage result \<times> Repository" where
  "store_InspectRecovery ctx after limit r = memory_View ctx (inspect_recovery after limit) r"

section \<open>On data with integrity the inspection cannot fail\<close>

lemma check_reservations_ok:
  assumes "\<And>s. s \<in> set scopes \<Longrightarrow> \<exists>r. fmlookup (d_reservations (tx_d t)) s = Some r
      \<and> res_OperationID r = att_OperationID a \<and> res_AttemptID r = att_ID a
      \<and> res_LeaseID r = att_LeaseID a \<and> res_Generation r = att_LeaseGeneration a"
  shows "forS scopes (check_reservation a) t = (Inr (), t)"
  using assms
proof (induction scopes)
  case (Cons s scopes)
  from Cons.prems[of s] have "check_reservation a s t = (Inr (), t)"
    by (auto simp: check_reservation_def bindS_Inr tx_reads map_get_Inr retS_eq)
  with Cons show ?case by (simp add: bindS_run)
qed (simp add: retS_def)

text \<open>What the page says of an operation: its task, class, attempt in charge and revocation.\<close>

definition describes :: "data \<Rightarrow> Operation \<Rightarrow> RecoveryItem \<Rightarrow> bool" where
  "describes d opn item \<longleftrightarrow> ri_Operation item = opn
     \<and> fmlookup (d_tasks d) (od_TaskID (op_Descriptor opn)) = Some (ri_Task item)
     \<and> recovery_class (op_State opn) = Inr (ri_Class item)
     \<and> ri_Attempt item = (if in_execution (op_State opn)
          then fmlookup (d_attempts d) (op_ActiveAttemptID opn) else None)
     \<and> ri_Revocation item = (if in_execution (op_State opn)
          then fmlookup (d_revocations d) (op_ActiveAttemptID opn) else None)"

lemma reservation_of_holder:
  assumes I: "integrity d" and opn: "fmlookup (d_ops d) k = Some opn" and hold: "HoldsConflictReservation opn"
    and s: "s \<in> set (od_ConflictScope (op_Descriptor opn))"
    and a: "fmlookup (d_attempts d) (op_ActiveAttemptID opn) = Some a"
  shows "\<exists>r. fmlookup (d_reservations d) s = Some r \<and> res_OperationID r = k
      \<and> res_AttemptID r = op_ActiveAttemptID opn \<and> res_LeaseID r = att_LeaseID a
      \<and> res_Generation r = att_LeaseGeneration a"
proof -
  from held_okD[OF integrityD(6)[OF I] opn hold s] obtain r
    where r: "fmlookup (d_reservations d) s = Some r" "res_OperationID r = k" by blast
  with integrityD(5)[OF I r(1)] opn a show ?thesis by (auto simp: res_row_def)
qed

lemma recovery_item_ok:
  assumes I: "integrity (tx_d t)" and opn: "fmlookup (d_ops (tx_d t)) k = Some opn"
  shows "\<exists>item. recovery_item opn t = (Inr item, t) \<and> describes (tx_d t) opn item"
proof -
  have row: "op_row (tx_d t) k opn" by (rule integrityD(1)[OF I opn])
  then obtain task where task: "fmlookup (d_tasks (tx_d t)) (od_TaskID (op_Descriptor opn)) = Some task"
    by (auto simp: op_row_def)
  from row obtain cls where cls: "recovery_class (op_State opn) = Inr cls"
    by (cases "op_State opn") (auto simp: op_row_def in_execution_def terminal_operation_def)
  show ?thesis
  proof (cases "in_execution (op_State opn)")
    case True
    with row obtain a where a: "fmlookup (d_attempts (tx_d t)) (op_ActiveAttemptID opn) = Some a"
      "att_OperationID a = k" "att_LeaseGeneration a = op_LeaseGeneration opn" "od_ID (op_Descriptor opn) = k"
      by (auto simp: op_row_def)
    have ids: "att_ID a = op_ActiveAttemptID opn" "op_ActiveAttemptID opn \<noteq> ''''"
      using integrityD(2)[OF I a(1)] by (auto simp: att_row_def)
    have scopes: "(if HoldsConflictReservation opn
        then forS (od_ConflictScope (op_Descriptor opn)) (check_reservation a) else retS ()) t = (Inr (), t)"
    proof (cases "HoldsConflictReservation opn")
      case True
      with check_reservations_ok[of "od_ConflictScope (op_Descriptor opn)" t a]
        reservation_of_holder[OF I opn True _ a(1)] a(2) ids show ?thesis by auto
    qed (simp add: retS_def)
    have "recovery_attempt opn t = (Inr (Some a, fmlookup (d_revocations (tx_d t)) (op_ActiveAttemptID opn)), t)"
      using a ids scopes
      by (cases "fmlookup (d_revocations (tx_d t)) (op_ActiveAttemptID opn)")
         (auto simp: recovery_attempt_def bindS_Inr tryS_eq tx_reads map_get_def retS_eq)
    with task cls True a(1) show ?thesis
      by (auto simp: recovery_item_def describes_def bindS_Inr tx_reads map_get_Inr liftR_eq retS_eq)
  next
    case False
    with row have "recovery_attempt opn t = (Inr (None, None), t)"
      by (simp add: recovery_attempt_def op_row_def retS_def)
    with task cls False show ?thesis
      by (auto simp: recovery_item_def describes_def bindS_Inr tx_reads map_get_Inr liftR_eq retS_eq)
  qed
qed

lemma recovery_items_ok:
  assumes I: "integrity (tx_d t)"
  shows "(\<And>opn. opn \<in> set opns \<Longrightarrow> \<exists>k. fmlookup (d_ops (tx_d t)) k = Some opn) \<Longrightarrow>
    \<exists>items. recovery_items opns t = (Inr items, t) \<and> list_all2 (describes (tx_d t)) opns items"
proof (induction opns)
  case (Cons opn opns)
  from Cons.prems[of opn] obtain k where "fmlookup (d_ops (tx_d t)) k = Some opn" by auto
  with recovery_item_ok[OF I] obtain item where
    1: "recovery_item opn t = (Inr item, t)" "describes (tx_d t) opn item" by blast
  from Cons obtain items where "recovery_items opns t = (Inr items, t)" "list_all2 (describes (tx_d t)) opns items"
    by auto
  with 1 show ?case by (auto simp: bindS_Inr retS_eq)
qed (simp add: retS_def)

section \<open>Pages leave nothing out\<close>

lemma in_page_iff:
  assumes "sorted xs" and "distinct xs" and "k \<in> set xs" and "0 < n"
  shows "k \<in> set (take n xs) \<longleftrightarrow> length (take n xs) < n \<or> k \<le> last (take n xs)"
proof (cases "k \<in> set (take n xs)")
  case True
  then have "k \<le> last (take n xs)"
    using sorted_wrt_take[OF assms(1), of n]
    by (cases "take n xs" rule: rev_cases) (auto simp: sorted_append)
  with True show ?thesis by simp
next
  case False
  with assms(3) have late: "k \<in> set (drop n xs)"
    by (metis Un_iff append_take_drop_id set_append)
  then have len: "length (take n xs) = n" by (cases "n \<le> length xs") simp_all
  then have "last (take n xs) \<in> set (take n xs)" using assms(4) by (intro last_in_set) auto
  moreover have "sorted (take n xs @ drop n xs)" "distinct (take n xs @ drop n xs)"
    using assms(1,2) by simp_all
  ultimately have "last (take n xs) \<le> k" "last (take n xs) \<noteq> k"
    using late by (auto simp only: sorted_append distinct_append)
  with False len show ?thesis by auto
qed

lemma tx_OperationsAfter_page:
  assumes I: "integrity (tx_d t)" and limit: "1 \<le> limit" "limit \<le> MaxPageSize"
  shows "\<exists>opns. tx_OperationsAfter after limit t = (Inr opns, t)
    \<and> (\<forall>opn \<in> set opns. fmlookup (d_ops (tx_d t)) (od_ID (op_Descriptor opn)) = Some opn)
    \<and> sorted_wrt (<) (map (\<lambda>opn. od_ID (op_Descriptor opn)) opns) \<and> int (length opns) \<le> limit
    \<and> (\<forall>k opn. fmlookup (d_ops (tx_d t)) k = Some opn \<longrightarrow> (opn \<in> set opns \<longleftrightarrow> after < k
          \<and> (int (length opns) < limit \<or> k \<le> od_ID (op_Descriptor (last opns)))))"
proof -
  define xs where "xs = sort (filter (\<lambda>ident. ident > after) (go_keys (d_ops (tx_d t))))"
  define ids where "ids = take (nat limit) xs"
  define opns where "opns = map (\<lambda>ident. the (fmlookup (d_ops (tx_d t)) ident)) ids"
  have xs: "sorted xs" "distinct xs" by (simp_all add: xs_def)
  have mem: "k \<in> set xs \<longleftrightarrow> after < k \<and> (\<exists>opn. fmlookup (d_ops (tx_d t)) k = Some opn)" for k
    unfolding xs_def set_sort set_filter set_go_keys by auto
  have look: "fmlookup (d_ops (tx_d t)) k = Some (the (fmlookup (d_ops (tx_d t)) k))"
    "od_ID (op_Descriptor (the (fmlookup (d_ops (tx_d t)) k))) = k" "after < k" if "k \<in> set ids" for k
  proof -
    from that have "k \<in> set xs" unfolding ids_def by (rule in_set_takeD)
    then obtain opn where opn: "after < k" "fmlookup (d_ops (tx_d t)) k = Some opn" by (auto simp: mem)
    with integrityD(1)[OF I opn(2)]
    show "fmlookup (d_ops (tx_d t)) k = Some (the (fmlookup (d_ops (tx_d t)) k))"
      "od_ID (op_Descriptor (the (fmlookup (d_ops (tx_d t)) k))) = k" "after < k"
      by (simp_all add: op_row_def)
  qed
  have names: "map (\<lambda>opn. od_ID (op_Descriptor opn)) opns = ids"
    unfolding opns_def using look(2) by (simp add: map_idI)
  have run: "tx_OperationsAfter after limit t = (Inr opns, t)"
    using limit by (simp add: tx_OperationsAfter_def readT_def opns_def ids_def xs_def Let_def)
  have sorted: "sorted_wrt (<) ids"
    unfolding ids_def using sorted_wrt_take[OF xs(1)] xs(2) by (simp add: strict_sorted_iff)
  have len: "int (length opns) \<le> limit" "int (length opns) < limit \<longleftrightarrow> length (take (nat limit) xs) < nat limit"
    using limit by (auto simp: opns_def ids_def)
  have row: "opn \<in> set opns \<longleftrightarrow> k \<in> set ids" if "fmlookup (d_ops (tx_d t)) k = Some opn" for k opn
  proof
    assume "opn \<in> set opns"
    then obtain j where "j \<in> set ids" "opn = the (fmlookup (d_ops (tx_d t)) j)" by (auto simp: opns_def)
    with look[of j] integrityD(1)[OF I that] show "k \<in> set ids" by (simp add: op_row_def)
  next
    assume "k \<in> set ids"
    with that show "opn \<in> set opns" by (force simp: opns_def)
  qed
  have "opn \<in> set opns \<longleftrightarrow> after < k \<and> (int (length opns) < limit \<or> k \<le> od_ID (op_Descriptor (last opns)))"
    if k: "fmlookup (d_ops (tx_d t)) k = Some opn" for k opn
  proof (cases "after < k")
    case True
    with k have "k \<in> set xs" by (auto simp: mem)
    from in_page_iff[OF xs this, of "nat limit"] limit(1)
    have page: "k \<in> set ids \<longleftrightarrow> int (length opns) < limit \<or> k \<le> last ids"
      using len(2) by (simp add: ids_def)
    show ?thesis
    proof (cases "int (length opns) < limit")
      case False
      then have "opns \<noteq> []" using limit by auto
      then have "last ids = od_ID (op_Descriptor (last opns))"
        using names by (metis last_map)
      with page row[OF k] True show ?thesis by simp
    qed (use page row[OF k] True in simp)
  next
    case False
    with row[OF k] look(3)[of k] show ?thesis by auto
  qed
  moreover have "\<forall>opn \<in> set opns. fmlookup (d_ops (tx_d t)) (od_ID (op_Descriptor opn)) = Some opn"
    using look by (auto simp: opns_def)
  ultimately show ?thesis using run names sorted len(1) by auto
qed

text \<open>
  The page: the operations after \<open>after\<close>, in order, up to \<open>Next\<close>, or all of them when \<open>Next\<close> is empty.
\<close>

lemma inspect_recovery_page:
  assumes I: "integrity (tx_d t)" and limit: "1 \<le> limit" "limit \<le> MaxPageSize"
  shows "\<exists>page. inspect_recovery after limit t = (Inr page, t)
    \<and> (\<forall>item \<in> set (rp_Items page). describes (tx_d t) (ri_Operation item) item
         \<and> fmlookup (d_ops (tx_d t)) (od_ID (op_Descriptor (ri_Operation item))) = Some (ri_Operation item))
    \<and> sorted_wrt (<) (map (\<lambda>item. od_ID (op_Descriptor (ri_Operation item))) (rp_Items page))
    \<and> int (length (rp_Items page)) \<le> limit
    \<and> (\<forall>k opn. fmlookup (d_ops (tx_d t)) k = Some opn \<longrightarrow>
         ((\<exists>item \<in> set (rp_Items page). ri_Operation item = opn)
           \<longleftrightarrow> after < k \<and> (rp_Next page = '''' \<or> k \<le> rp_Next page)))"
proof -
  from tx_OperationsAfter_page[OF I limit, of after] obtain opns where
    read: "tx_OperationsAfter after limit t = (Inr opns, t)"
    and rows: "\<forall>opn \<in> set opns. fmlookup (d_ops (tx_d t)) (od_ID (op_Descriptor opn)) = Some opn"
    and sorted: "sorted_wrt (<) (map (\<lambda>opn. od_ID (op_Descriptor opn)) opns)"
    and len: "int (length opns) \<le> limit"
    and all: "\<forall>k opn. fmlookup (d_ops (tx_d t)) k = Some opn \<longrightarrow> (opn \<in> set opns \<longleftrightarrow> after < k
          \<and> (int (length opns) < limit \<or> k \<le> od_ID (op_Descriptor (last opns))))"
    by blast
  from recovery_items_ok[OF I, of opns] rows obtain items where
    items: "recovery_items opns t = (Inr items, t)" "list_all2 (describes (tx_d t)) opns items" by auto
  have ops: "map ri_Operation items = opns"
    using items(2) by (induction rule: list_all2_induct) (auto simp: describes_def)
  let ?next = "if int (length opns) = limit then od_ID (op_Descriptor (last opns)) else ''''"
  have run: "inspect_recovery after limit t = (Inr \<lparr>rp_Items = items, rp_Next = ?next\<rparr>, t)"
    by (simp add: inspect_recovery_def bindS_def read items(1) retS_def)
  have desc: "\<forall>item \<in> set items. describes (tx_d t) (ri_Operation item) item"
    using items(2) by (induction rule: list_all2_induct) (auto simp: describes_def)
  have "?next = '''' \<longleftrightarrow> int (length opns) < limit"
  proof (cases "int (length opns) = limit")
    case True
    with limit have "last opns \<in> set opns" by (intro last_in_set) auto
    with rows integrityD(1)[OF I] have "validate_descriptor (op_Descriptor (last opns)) = Inr ()"
      by (auto simp: op_row_def)
    from validate_descriptorD(1)[OF this] True show ?thesis by simp
  qed (use len in simp)
  with all len have
    "\<forall>k opn. fmlookup (d_ops (tx_d t)) k = Some opn \<longrightarrow>
         (opn \<in> set opns \<longleftrightarrow> after < k \<and> (?next = '''' \<or> k \<le> ?next))"
    by (auto split: if_splits)
  moreover have "(\<exists>item \<in> set items. ri_Operation item = opn) \<longleftrightarrow> opn \<in> set opns" for opn
    using ops by auto
  moreover have "map (\<lambda>item. od_ID (op_Descriptor (ri_Operation item))) items
      = map (\<lambda>opn. od_ID (op_Descriptor opn)) opns" "length items = length opns"
    unfolding ops[symmetric] by simp_all
  moreover have "\<forall>item \<in> set items.
      fmlookup (d_ops (tx_d t)) (od_ID (op_Descriptor (ri_Operation item))) = Some (ri_Operation item)"
    using rows ops by auto
  ultimately show ?thesis using run desc sorted len by simp
qed

end
