(* ===== verification/System.thy ===== *)
theory System
  imports Retention Recovery
begin

text \<open>
  The whole control plane as a transition system: one step per exported call of the store that can
  write, from the empty memory repository.  The locales \<open>work_invariant\<close> and \<open>store_invariant\<close> are the
  contract by which a property of the data becomes an invariant of the system: what each unexported
  method keeps, the callbacks, transactions and calls keep.  Integrity is the first instance, and
  outside garbage collection history only grows.
\<close>

section \<open>Steps\<close>

text \<open>A call of the store's exported methods other than \<open>Collect\<close>, with any arguments.\<close>

inductive work :: "marshal \<Rightarrow> Repository \<Rightarrow> Repository \<Rightarrow> bool" for mj where
  process: "ProcessMessage mj ctx clock env fn r = (x, r') \<Longrightarrow> work mj r r'"
| register: "store_RegisterMessage mj ctx clock env r = (xb, r') \<Longrightarrow> work mj r r'"
| create_task: "store_CreateTask ctx clock ident now r = (xt, r') \<Longrightarrow> work mj r r'"
| create_operation: "store_CreateOperation ctx clock d now r = (xo, r') \<Longrightarrow> work mj r r'"
| mark_ready: "store_MarkReady ctx clock ident rvn now r = (xo, r') \<Longrightarrow> work mj r r'"
| start_attempt: "store_StartAttempt ctx clock ident rvn aid lease owner retry now r = (xs, r') \<Longrightarrow> work mj r r'"
| begin_verification: "store_BeginVerification ctx clock ident rvn now r = (xo, r') \<Longrightarrow> work mj r r'"
| mark_unknown: "store_MarkUnknownOutcome ctx clock ident rvn now r = (xo, r') \<Longrightarrow> work mj r r'"
| mark_not_started: "store_MarkNotStarted ctx clock ident rvn v now r = (xo, r') \<Longrightarrow> work mj r r'"
| apply_verification: "store_ApplyVerification ctx clock ident rvn v now r = (xo, r') \<Longrightarrow> work mj r r'"
| register_evidence: "store_RegisterEvidence ctx clock e r = (xu, r') \<Longrightarrow> work mj r r'"
| invalidate: "store_InvalidateAttempt ctx clock ident rvn aid reason obs now r = (xo, r') \<Longrightarrow> work mj r r'"
| finalize: "store_FinalizeTask ctx clock ident rvn now r = (xt, r') \<Longrightarrow> work mj r r'"
| close: "memory_Close ctx r = (xu, r') \<Longrightarrow> work mj r r'"

inductive step :: "marshal \<Rightarrow> Repository \<Rightarrow> Repository \<Rightarrow> bool" for mj where
  step_work: "work mj r r' \<Longrightarrow> step mj r r'"
| step_collect: "Collect ctx opt r = (xc, r') \<Longrightarrow> step mj r r'"

inductive reachable :: "marshal \<Rightarrow> Repository \<Rightarrow> bool" for mj where
  reachable_New: "reachable mj memory_New"
| reachable_step: "reachable mj r \<Longrightarrow> step mj r r' \<Longrightarrow> reachable mj r'"

text \<open>Any number of calls without a collection between them.\<close>

inductive works :: "marshal \<Rightarrow> Repository \<Rightarrow> Repository \<Rightarrow> bool" for mj where
  works_refl: "works mj r r"
| works_step: "works mj r r1 \<Longrightarrow> work mj r1 r' \<Longrightarrow> works mj r r'"

text \<open>Any number of calls, collections included.\<close>

inductive steps :: "marshal \<Rightarrow> Repository \<Rightarrow> Repository \<Rightarrow> bool" for mj where
  steps_refl: "steps mj r r"
| steps_step: "steps mj r r1 \<Longrightarrow> step mj r1 r' \<Longrightarrow> steps mj r r'"

inductive_simps step_iff: "step mj r r'"

lemma steps_reachable: "steps mj r r' \<Longrightarrow> reachable mj r \<Longrightarrow> reachable mj r'"
  by (induction rule: steps.induct) (auto intro: reachable_step)

lemma works_steps: "works mj r r' \<Longrightarrow> steps mj r r'"
  by (induction rule: works.induct) (auto intro: steps.intros simp: step_iff)

lemma works_reachable: "works mj r r' \<Longrightarrow> reachable mj r \<Longrightarrow> reachable mj r'"
  using works_steps steps_reachable by blast

section \<open>From methods to the system\<close>

definition kept_by :: "(data \<Rightarrow> bool) \<Rightarrow> 'a tx \<Rightarrow> bool" where
  "kept_by P m \<longleftrightarrow> keepsS (\<lambda>s. P (tx_d s)) m"

lemma mapR_state: "mapR f x = (r, t') \<Longrightarrow> \<exists>r0. x = (r0, t')"
  by (cases x; cases "fst x") (auto simp: mapR_def)

text \<open>What one method keeps is kept by every call, callback, transaction and step.\<close>

locale work_invariant =
  fixes P :: "data \<Rightarrow> bool"
  assumes P_registerMessage: "kept_by P (registerMessage mj now env)"
    and P_createTask: "kept_by P (createTask ident now)"
    and P_createOperation: "kept_by P (createOperation d now)"
    and P_markReady: "kept_by P (markReady ident rvn now)"
    and P_startAttempt: "kept_by P (startAttempt ident rvn aid lease owner retry now)"
    and P_beginVerification: "kept_by P (beginVerification ident rvn now)"
    and P_markUnknownOutcome: "kept_by P (markUnknownOutcome ident rvn now)"
    and P_markNotStarted: "kept_by P (markNotStarted ident rvn v now)"
    and P_applyVerification: "kept_by P (applyVerification ident rvn v now)"
    and P_registerEvidence: "kept_by P (registerEvidence e)"
    and P_checkActive: "kept_by P (checkActive ident aid lease gen owner)"
    and P_recordWorkerReport: "kept_by P (recordWorkerReport now e lease gen expires)"
    and P_invalidateAttempt: "kept_by P (invalidateAttempt ident rvn aid reason e now)"
    and P_finalizeTask: "kept_by P (finalizeTask ident rvn now)"
begin

definition fine_P :: "Transaction \<Rightarrow> bool" where
  "fine_P t \<longleftrightarrow> fine (\<lambda>s. P (tx_d s)) t"

lemma exported_P: "kept_by P m \<Longrightarrow> fine_P t \<Longrightarrow> exported m t = (r, t') \<Longrightarrow> fine_P t'"
  unfolding kept_by_def fine_P_def by (rule exported_fine)

lemmas P_methods = P_registerMessage P_createTask P_createOperation P_markReady P_startAttempt
  P_beginVerification P_markUnknownOutcome P_markNotStarted P_applyVerification P_registerEvidence
  P_checkActive P_recordWorkerReport P_invalidateAttempt

lemma call_keeps_P: "call_keeps mj (\<lambda>s. P (tx_d s))"
  unfolding call_keeps_def fine_P_def[symmetric]
proof (intro allI impI)
  fix c t r t'
  assume fine: "fine_P t" and run: "t_call mj c t = (r, t')"
  show "fine_P t'"
    using run by (cases c) (auto simp: t_defs dest!: mapR_state intro: exported_P[OF _ fine] P_methods)
qed

text \<open>A write that runs one exported method, or a message with its callback.\<close>

lemma write_P:
  assumes fn: "\<And>t x t'. fine_P t \<Longrightarrow> fn t = (x, t') \<Longrightarrow> fine_P t'"
    and start: "P (repo_d r)" and run: "writeValue ctx clock fn r = (x, r')"
  shows "P (repo_d r')"
proof -
  have init: "P (tx_d \<lparr>tx_d = repo_d r, tx_write = True\<rparr>)" using start by simp
  have "r' = r \<or> (\<exists>t :: transaction. P (tx_d t) \<and> r' = r\<lparr>repo_d := tx_d t\<rparr>)"
    using writeValue_keeps[where I = "\<lambda>s. P (tx_d s)" and fn = fn, OF init _ run] fn[unfolded fine_P_def]
    by blast
  with start show ?thesis by auto
qed

lemma method_P:
  "kept_by P m \<Longrightarrow> P (repo_d r) \<Longrightarrow> writeValue ctx clock (exported m) r = (x, r') \<Longrightarrow> P (repo_d r')"
  by (rule write_P) (rule exported_P)

lemma message_P:
  "P (repo_d r) \<Longrightarrow> ProcessMessage mj ctx clock env fn r = (x, r') \<Longrightarrow> P (repo_d r')"
  unfolding ProcessMessage_def
  by (rule write_P[where fn = "process_message mj env fn"])
     (auto simp: fine_P_def intro: process_message_fine[OF call_keeps_P])

lemma register_P:
  "P (repo_d r) \<Longrightarrow> store_RegisterMessage mj ctx clock env r = (x, r') \<Longrightarrow> P (repo_d r')"
  unfolding store_RegisterMessage_def
  by (rule write_P[where fn = "t_RegisterMessage mj env"])
     (auto simp: t_RegisterMessage_def intro: exported_P[OF P_registerMessage])

lemma finalize_P:
  assumes P: "P (repo_d r)" and run: "store_FinalizeTask ctx clock ident rvn now r = (x, r')"
  shows "P (repo_d r')"
proof (cases x)
  case (Inl e)
  with run have "r' = r" unfolding store_FinalizeTask_def by (blast dest: writeValue_error)
  with P show ?thesis by simp
next
  case (Inr v)
  with writeValue_ok[OF run[unfolded store_FinalizeTask_def Inr]] obtain s where
    "finalizeTask ident rvn now \<lparr>tx_d = repo_d r, tx_write = True\<rparr> = (Inr v, s)" "r' = r\<lparr>repo_d := tx_d s\<rparr>"
    by (auto split: prod.splits)
  moreover from this(1) P have "P (tx_d s)"
    using keepsSD[OF P_finalizeTask[unfolded kept_by_def], of "\<lparr>tx_d = repo_d r, tx_write = True\<rparr>"]
    by simp
  ultimately show ?thesis by simp
qed

lemma work_P: "work mj r r' \<Longrightarrow> P (repo_d r) \<Longrightarrow> P (repo_d r')"
proof (induction rule: work.induct)
  case (close ctx r xu r')
  then show ?case by (auto simp: memory_Close_def split: option.splits)
qed (auto simp: store_CreateTask_def store_CreateOperation_def store_MarkReady_def
    store_StartAttempt_def store_BeginVerification_def store_MarkUnknownOutcome_def
    store_MarkNotStarted_def store_ApplyVerification_def store_RegisterEvidence_def
    store_InvalidateAttempt_def t_CreateTask_def t_CreateOperation_def t_MarkReady_def
    t_StartAttempt_def t_BeginVerification_def t_MarkUnknownOutcome_def t_MarkNotStarted_def
    t_ApplyVerification_def t_RegisterEvidence_def t_InvalidateAttempt_def
    intro: message_P register_P finalize_P method_P[OF P_createTask] method_P[OF P_createOperation]
      method_P[OF P_markReady] method_P[OF P_startAttempt] method_P[OF P_beginVerification]
      method_P[OF P_markUnknownOutcome] method_P[OF P_markNotStarted] method_P[OF P_applyVerification]
      method_P[OF P_registerEvidence] method_P[OF P_invalidateAttempt])

lemma works_P: "works mj r r' \<Longrightarrow> P (repo_d r) \<Longrightarrow> P (repo_d r')"
  by (induction rule: works.induct) (auto dest: work_P)

end

text \<open>What collections keep too is kept by every step.\<close>

locale run_invariant = work_invariant +
  assumes P_Collect: "P d \<Longrightarrow> integrity d' \<Longrightarrow> collected opt d d' out \<Longrightarrow> P d'"
    and P_integrity: "P d \<Longrightarrow> integrity d"
begin

lemma Collect_P:
  assumes P: "P (repo_d r)" and run: "Collect ctx opt r = (x, r')"
  shows "P (repo_d r')"
proof (cases x)
  case (Inl e)
  with run have "r' = r" by (auto simp: Collect_def split: if_splits dest: memory.update_failed)
  with P show ?thesis by simp
next
  case (Inr out)
  with run have opt: "1 \<le> gc_MaxRows opt" "1 \<le> gc_MaxTasks opt"
    and upd: "memory_Update ctx (collect_tx opt) r = (Inr out, r')"
    by (auto simp: Collect_def split: if_splits)
  from memory.update_ran[OF upd] obtain t where run: "collect_tx opt (begin_tx True r) = (Inr out, t)"
    and r': "r' = commit_tx t r" by blast
  have "integrity (tx_d (begin_tx True r))" using P_integrity[OF P] by (simp add: begin_tx_def)
  from collect_tx_step[OF this opt run] have "integrity (tx_d t)" "collected opt (repo_d r) (tx_d t) out"
    by (simp_all add: begin_tx_def)
  from P_Collect[OF P this] show ?thesis by (simp add: r' commit_tx_def)
qed

lemma step_P: "step mj r r' \<Longrightarrow> P (repo_d r) \<Longrightarrow> P (repo_d r')"
  by (induction rule: step.induct) (auto dest: work_P Collect_P)

lemma steps_P: "steps mj r r' \<Longrightarrow> P (repo_d r) \<Longrightarrow> P (repo_d r')"
  by (induction rule: steps.induct) (auto dest: step_P)

end

text \<open>What holds of the empty store as well holds in every reachable state.\<close>

locale store_invariant = run_invariant +
  assumes P_New: "P empty_data"
begin

lemma reachable_P: "reachable mj r \<Longrightarrow> P (repo_d r)"
  by (induction rule: reachable.induct) (auto simp: memory_New_def P_New dest: step_P)

end

section \<open>Integrity and history\<close>

definition sound :: "data \<Rightarrow> data \<Rightarrow> bool" where
  "sound d0 d \<longleftrightarrow> integrity d \<and> extends d0 d"

lemma good_kept: "good m \<Longrightarrow> kept_by (sound d0) m" "good m \<Longrightarrow> kept_by integrity m"
  unfolding kept_by_def keepsS_def sound_def using goodD extends_trans by metis+

lemmas good_methods =
  good_registerMessage good_createTask good_createOperation good_markReady good_startAttempt
  good_beginVerification good_markUnknownOutcome good_markNotStarted good_applyVerification
  good_registerEvidence good_checkActive good_recordWorkerReport good_invalidateAttempt
  good_finalizeTask

interpretation grown: work_invariant "sound d0" for d0
  by unfold_locales (rule good_kept good_methods)+

interpretation kept: store_invariant integrity
  by unfold_locales (rule good_kept good_methods integrity_empty | assumption)+

lemma works_good:
  "works mj r r' \<Longrightarrow> integrity (repo_d r) \<Longrightarrow> integrity (repo_d r') \<and> extends (repo_d r) (repo_d r')"
  using grown.works_P[of mj r r' "repo_d r"] by (simp add: sound_def extends_refl)

end
