(* ===== verification/Conformance.thy ===== *)
theory Conformance
  imports System
begin

text \<open>
  The control plane follows the documented state machine: each call of the transaction moves each
  operation along at most one row of the table of \<open>docs/state_model.md\<close>, success and failure of an
  operation rest on a stored verification, and completion of a task on the success of all its
  operations.
\<close>

section \<open>One call, one row of the table\<close>

text \<open>A stored verification by which an operation may have ended in \<open>to\<close>.\<close>

definition vouched :: "data \<Rightarrow> Operation \<Rightarrow> Verdict \<Rightarrow> bool" where
  "vouched d opn verdict \<longleftrightarrow> (\<exists>k v. fmlookup (d_verifications d) k = Some v
     \<and> ver_OperationID v = od_ID (op_Descriptor opn) \<and> ver_Verdict v = verdict
     \<and> ver_PolicyRef v = od_VerificationPolicyRef (op_Descriptor opn))"

definition lawful_move :: "data \<Rightarrow> Operation \<Rightarrow> Operation \<Rightarrow> bool" where
  "lawful_move d' opn opn' \<longleftrightarrow> op_Descriptor opn' = op_Descriptor opn
     \<and> (op_State opn' = op_State opn
        \<or> documented (op_State opn) (op_State opn')
          \<and> (op_State opn' = OperationSucceeded \<longrightarrow> vouched d' opn' VerdictSatisfied)
          \<and> (op_State opn' = OperationFailed \<longrightarrow> vouched d' opn' VerdictNotSatisfiedTerminal))"

text \<open>
  \<open>lawful d d'\<close>: every operation moved lawfully, new operations are planned and belong to a task that
  is not terminal, tasks kept their state and new tasks are not terminal.
\<close>

definition lawful :: "data \<Rightarrow> data \<Rightarrow> bool" where
  "lawful d d' \<longleftrightarrow>
     (\<forall>k opn. fmlookup (d_ops d) k = Some opn \<longrightarrow>
        (\<exists>opn'. fmlookup (d_ops d') k = Some opn' \<and> lawful_move d' opn opn'))
     \<and> (\<forall>k opn'. fmlookup (d_ops d') k = Some opn' \<longrightarrow> fmlookup (d_ops d) k = None \<longrightarrow>
        op_State opn' = OperationPlanned
        \<and> (\<exists>task. fmlookup (d_tasks d) (od_TaskID (op_Descriptor opn')) = Some task
             \<and> \<not> terminalTask (task_State task)))
     \<and> (\<forall>k task. fmlookup (d_tasks d) k = Some task \<longrightarrow> fmlookup (d_tasks d') k = Some task)
     \<and> (\<forall>k task'. fmlookup (d_tasks d') k = Some task' \<longrightarrow> fmlookup (d_tasks d) k = None \<longrightarrow>
        \<not> terminalTask (task_State task'))"

definition obeys :: "'a tx \<Rightarrow> bool" where
  "obeys m \<longleftrightarrow> (\<forall>t v t'. integrity (tx_d t) \<longrightarrow> m t = (Inr v, t') \<longrightarrow> lawful (tx_d t) (tx_d t'))"

lemma obeysI:
  "(\<And>t v t'. integrity (tx_d t) \<Longrightarrow> m t = (Inr v, t') \<Longrightarrow> lawful (tx_d t) (tx_d t')) \<Longrightarrow> obeys m"
  by (auto simp: obeys_def)

lemma obeysD: "obeys m \<Longrightarrow> integrity (tx_d t) \<Longrightarrow> m t = (Inr v, t') \<Longrightarrow> lawful (tx_d t) (tx_d t')"
  by (auto simp: obeys_def)

lemma lawful_quiet: "d_ops d' = d_ops d \<Longrightarrow> d_tasks d' = d_tasks d \<Longrightarrow> lawful d d'"
  by (auto simp: lawful_def lawful_move_def)

lemma lawful_refl: "lawful d d"
  by (simp add: lawful_quiet)

text \<open>One operation changed, nothing else did.\<close>

lemma lawful_one:
  assumes "fmlookup (d_ops d) k = Some opn" and "d_ops d' = fmupd k opn' (d_ops d)"
    and "d_tasks d' = d_tasks d" and "lawful_move d' opn opn'"
  shows "lawful d d'"
  using assms by (auto simp: lawful_def lawful_move_def)

text \<open>A row added before the one change does not matter.\<close>

lemma lawful_after:
  "d_ops d1 = d_ops d \<Longrightarrow> d_tasks d1 = d_tasks d \<Longrightarrow> lawful d1 d' \<Longrightarrow> lawful d d'"
  by (simp add: lawful_def)

section \<open>Every method obeys\<close>

lemma obeys_transition:
  assumes I: "integrity (tx_d t)" and opn: "fmlookup (d_ops (tx_d t)) k = Some opn"
    and run: "transition opn rvn to as now t = (Inr nxt, t')" and suits: "suits (op_State opn) to as"
    and succ: "to = OperationSucceeded \<Longrightarrow> vouched (tx_d t) opn VerdictSatisfied"
    and fail: "to = OperationFailed \<Longrightarrow> vouched (tx_d t) opn VerdictNotSatisfiedTerminal"
  shows "lawful (tx_d t) (tx_d t')"
proof -
  obtain A where t': "tx_d t' = moved (tx_d t) k nxt A"
    using transition_moves[OF I opn run suits] by blast
  have tr: "documented (op_State opn) to" "op_State nxt = to" "op_Descriptor nxt = op_Descriptor opn"
    using transition_Inr(1)[OF run] by (simp_all add: Transition_Inr)
  have "lawful_move (tx_d t') opn nxt"
    using tr succ fail by (simp add: lawful_move_def vouched_def t')
  with lawful_one[OF opn, of "tx_d t'" nxt] show ?thesis by (simp add: t')
qed

lemma obeys_registerMessage: "obeys (registerMessage mj now env)"
  by (rule obeysI, drule registerMessage_Inr) (auto split: if_splits intro!: lawful_quiet)

lemma obeys_createTask: "obeys (createTask ident now)"
  by (rule obeysI)
     (auto simp: createTask_def run_simps Let_def lawful_def lawful_move_def terminalTask_def
        split: if_splits)

lemma obeys_createOperation: "obeys (createOperation d now)"
  by (rule obeysI)
     (auto simp: createOperation_def run_simps Let_def lawful_def lawful_move_def split: if_splits)

lemma obeys_markReady: "obeys (markReady ident rvn now)"
proof (rule obeysI)
  fix t v t'
  assume I: "integrity (tx_d t)" and run: "markReady ident rvn now t = (Inr v, t')"
  from run obtain opn where "fmlookup (d_ops (tx_d t)) ident = Some opn"
    "op_State opn = OperationPlanned" "transition opn rvn OperationReady None now t = (Inr v, t')"
    by (auto simp: markReady_def run_simps split: if_splits)
  with obeys_transition[OF I] suits_simps(1) show "lawful (tx_d t) (tx_d t')" by fastforce
qed

lemma obeys_beginVerification: "obeys (beginVerification ident rvn now)"
proof (rule obeysI)
  fix t v t'
  assume I: "integrity (tx_d t)" and run: "beginVerification ident rvn now t = (Inr v, t')"
  show "lawful (tx_d t) (tx_d t')"
    by (rule beginVerification_Inr[OF run], rule obeys_transition[OF I], assumption+, simp_all)
qed

lemma obeys_markUnknownOutcome: "obeys (markUnknownOutcome ident rvn now)"
proof (rule obeysI)
  fix t v t'
  assume I: "integrity (tx_d t)" and run: "markUnknownOutcome ident rvn now t = (Inr v, t')"
  from run obtain opn where "fmlookup (d_ops (tx_d t)) ident = Some opn"
    "transition opn rvn OperationUnknownOutcome (Some AttemptUncertain) now t = (Inr v, t')"
    by (auto simp: markUnknownOutcome_def run_simps)
  with obeys_transition[OF I] suits_simps(2) show "lawful (tx_d t) (tx_d t')" by fastforce
qed

lemma obeys_startAttempt: "obeys (startAttempt ident rvn aid lease owner retry now)"
proof (rule obeysI)
  fix t v t'
  assume I: "integrity (tx_d t)" and run: "startAttempt ident rvn aid lease owner retry now t = (Inr v, t')"
  obtain nxt a where v: "v = (nxt, a)" by fastforce
  from startAttempt_starts[OF I run[unfolded v]] obtain opn R where
    st: "starts (tx_d t) ident opn nxt a R" and t': "tx_d t' = started (tx_d t) ident nxt a R" by blast
  have "lawful_move (tx_d t') opn nxt"
    using st by (simp add: starts_def lawful_move_def documented.intros)
  with st lawful_one[of "tx_d t" ident opn "tx_d t'" nxt] show "lawful (tx_d t) (tx_d t')"
    by (simp add: t' starts_def)
qed

lemma obeys_registerEvidence: "obeys (registerEvidence v)"
  by (rule obeysI, drule registerEvidence_Inr(4)) (simp add: lawful_quiet)

lemma obeys_checkActive: "obeys (checkActive ident aid lease gen owner)"
  by (rule obeysI, drule checkActive_pure) (simp add: lawful_refl)

lemma obeys_apply_verdict:
  assumes ns: "notStarted \<longrightarrow> ver_Verdict v = VerdictNotSatisfiedRetryable"
  shows "obeys (apply_verdict ident rvn v now notStarted)"
proof (rule obeysI)
  fix t u t'
  assume I: "integrity (tx_d t)" and run: "apply_verdict ident rvn v now notStarted t = (Inr u, t')"
  obtain opn as t1 where opn: "fmlookup (d_ops (tx_d t)) ident = Some opn"
    and val: "validateVerification opn v t = (Inr (), t)"
    and t1: "t1 = t\<lparr>tx_d := d_verifications_update (fmupd (ver_ID v) v) (tx_d t)\<rparr>"
    and I1: "integrity (tx_d t1)" and suits: "suits (op_State opn) (verdict_state (ver_Verdict v)) as"
    and tr: "transition opn rvn (verdict_state (ver_Verdict v)) as now t1 = (Inr u, t')"
    by (rule apply_verdict_stored[OF ns I run])
  have stored: "vouched (tx_d t1) opn (ver_Verdict v)"
    using val unfolding vouched_def t1 validateVerification_Inr by auto
  have "verdict_state w = OperationSucceeded \<longleftrightarrow> w = VerdictSatisfied"
    "verdict_state w = OperationFailed \<longleftrightarrow> w = VerdictNotSatisfiedTerminal" for w
    by (cases w; simp)+
  with stored have "verdict_state (ver_Verdict v) = OperationSucceeded \<Longrightarrow> vouched (tx_d t1) opn VerdictSatisfied"
    "verdict_state (ver_Verdict v) = OperationFailed \<Longrightarrow> vouched (tx_d t1) opn VerdictNotSatisfiedTerminal"
    by auto
  moreover have "fmlookup (d_ops (tx_d t1)) ident = Some opn" by (simp add: t1 opn)
  ultimately have "lawful (tx_d t1) (tx_d t')" using obeys_transition[OF I1 _ tr suits] by blast
  then show "lawful (tx_d t) (tx_d t')" by (rule lawful_after[rotated 2]) (simp_all add: t1)
qed

lemma obeys_markNotStarted: "obeys (markNotStarted ident rvn v now)"
proof (cases "ver_Verdict v \<noteq> VerdictNotSatisfiedRetryable \<or> \<not> ver_RetryExecutionSafe v")
  case True
  then show ?thesis by (auto simp: markNotStarted_def obeys_def failS_eq)
next
  case False
  then show ?thesis by (simp add: markNotStarted_def obeys_apply_verdict)
qed

lemma obeys_applyVerification: "obeys (applyVerification ident rvn v now)"
  unfolding applyVerification_def by (simp add: obeys_apply_verdict)

lemma obeys_invalidateAttempt: "obeys (invalidateAttempt ident rvn aid reason obs now)"
proof (rule obeysI)
  fix t nxt t'
  assume I: "integrity (tx_d t)" and run: "invalidateAttempt ident rvn aid reason obs now t = (Inr nxt, t')"
  from invalidateAttempt_Inr[OF I run] obtain opn A where mv: "moves (tx_d t) ident opn nxt A"
    and aid: "op_ActiveAttemptID opn = aid" "aid \<noteq> ''''" and unk: "op_State nxt = OperationUnknownOutcome"
    and t': "tx_d t' = d_revocations_update (fmupd aid \<lparr>rvk_AttemptID = aid, rvk_OperationID = ident,
               rvk_EvidenceID = ev_ID obs, rvk_Reason = loss_text reason, rvk_RevokedAt = now\<rparr>)
       (d_evidence_update (fmupd (ev_ID obs) obs) (moved (tx_d t) ident nxt A))"
    by metis
  have opn: "fmlookup (d_ops (tx_d t)) ident = Some opn" using mv by (simp add: moves_def)
  have "in_execution (op_State opn)"
    using integrityD(1)[OF I opn] aid by (auto simp: op_row_def)
  then have "op_State opn = OperationUnknownOutcome \<or> documented (op_State opn) OperationUnknownOutcome"
    by (auto simp: in_execution_def intro: documented.intros)
  with mv unk have "lawful_move (tx_d t') opn nxt" by (auto simp: lawful_move_def moves_def)
  with lawful_one[OF opn, of "tx_d t'" nxt] show "lawful (tx_d t) (tx_d t')" by (simp add: t')
qed

lemma obeys_recordWorkerReport: "obeys (recordWorkerReport now r lease gen expires)"
proof (rule obeysI)
  fix t v t'
  assume I: "integrity (tx_d t)" and run: "recordWorkerReport now r lease gen expires t = (Inr v, t')"
  obtain t1 and opn :: Operation where ev: "registerEvidence r t = (Inr (), t1)" and late: "\<not> v \<longrightarrow> t' = t1"
    and moved: "v \<longrightarrow> now < expires \<and> op_State opn = OperationExecuting
      \<and> (\<exists>a. checkActive (ev_OperationID r) a lease gen (ev_SourceActorID r) t1 = (Inr (), t1))
      \<and> (\<exists>nxt. beginVerification (ev_OperationID r) (op_Revision opn) now t1 = (Inr nxt, t'))"
    by (rule recordWorkerReport_Inr[OF run])
  have I1: "integrity (tx_d t1)" using goodD[OF good_registerEvidence I ev] by blast
  have "lawful (tx_d t1) (tx_d t')"
    using late moved obeysD[OF obeys_beginVerification I1] lawful_refl by (cases v) auto
  then show "lawful (tx_d t) (tx_d t')"
    by (rule lawful_after[rotated 2]) (simp_all add: registerEvidence_Inr(4)[OF ev])
qed

lemmas obeys_methods =
  obeys_registerMessage obeys_createTask obeys_createOperation obeys_markReady obeys_startAttempt
  obeys_beginVerification obeys_markUnknownOutcome obeys_markNotStarted obeys_applyVerification
  obeys_registerEvidence obeys_checkActive obeys_recordWorkerReport obeys_invalidateAttempt

text \<open>Each call of a transaction, whatever its outcome for the caller, obeys when it succeeds.\<close>

lemma mapR_Inr: "mapR f x = (Inr w, t') \<longleftrightarrow> (\<exists>v. x = (Inr v, t') \<and> w = f v)"
  by (cases x; cases "fst x") (auto simp: mapR_def)

lemma exported_Inr: "exported m t = (Inr v, t') \<longleftrightarrow>
    t_failed t = None \<and> (\<exists>s. m (t_tx t) = (Inr v, s) \<and> t' = t\<lparr>t_tx := s\<rparr>)"
  by (auto simp: exported_def split: option.splits prod.splits sum.splits)

lemma call_lawful:
  assumes "integrity (tx_d (t_tx t))" and "t_call mj c t = (Inr reply, t')"
  shows "lawful (tx_d (t_tx t)) (tx_d (t_tx t'))"
  using assms(2)
  by (cases c) (auto simp: mapR_Inr t_defs exported_Inr intro: obeysD[OF _ assms(1)] obeys_methods)

section \<open>Outcomes are vouched for\<close>

text \<open>
  \<open>honest\<close>: an operation has succeeded or failed only with a stored verification of that verdict
  under its own policy, and a task is completed only when all its operations have succeeded.
\<close>

definition honest :: "data \<Rightarrow> bool" where
  "honest d \<longleftrightarrow>
     (\<forall>k opn. fmlookup (d_ops d) k = Some opn \<longrightarrow>
        (op_State opn = OperationSucceeded \<longrightarrow> vouched d opn VerdictSatisfied)
        \<and> (op_State opn = OperationFailed \<longrightarrow> vouched d opn VerdictNotSatisfiedTerminal))
     \<and> (\<forall>k task j opn. fmlookup (d_tasks d) k = Some task \<longrightarrow> task_State task = TaskCompleted \<longrightarrow>
        fmlookup (d_ops d) j = Some opn \<longrightarrow> od_TaskID (op_Descriptor opn) = k \<longrightarrow>
        op_State opn = OperationSucceeded)"

lemma honestD:
  assumes "honest d"
  shows "fmlookup (d_ops d) k = Some opn \<Longrightarrow> op_State opn = OperationSucceeded \<Longrightarrow>
      vouched d opn VerdictSatisfied"
    and "fmlookup (d_ops d) k = Some opn \<Longrightarrow> op_State opn = OperationFailed \<Longrightarrow>
      vouched d opn VerdictNotSatisfiedTerminal"
    and "fmlookup (d_tasks d) i = Some task \<Longrightarrow> task_State task = TaskCompleted \<Longrightarrow>
      fmlookup (d_ops d) k = Some opn \<Longrightarrow> od_TaskID (op_Descriptor opn) = i \<Longrightarrow>
      op_State opn = OperationSucceeded"
  using assms by (simp_all add: honest_def)

lemma vouched_mono:
  assumes "extends d d'" and "op_Descriptor opn' = op_Descriptor opn" and "vouched d opn w"
  shows "vouched d' opn' w"
  using growsD[OF extendsD(5)[OF assms(1)]] assms(2,3) unfolding vouched_def by metis

lemma lawful_task_origin:
  assumes "lawful d d'" and "fmlookup (d_tasks d') i = Some task" and "terminalTask (task_State task)"
  shows "fmlookup (d_tasks d) i = Some task"
proof (cases "fmlookup (d_tasks d) i")
  case None
  with assms show ?thesis unfolding lawful_def by blast
next
  case (Some task0)
  with assms(1) have "fmlookup (d_tasks d') i = Some task0" unfolding lawful_def by blast
  with Some assms(2) show ?thesis by simp
qed

lemma lawful_honest:
  assumes ext: "extends d d'" and law: "lawful d d'" and hon: "honest d"
  shows "honest d'"
proof -
  have origin: "(\<exists>opn0. fmlookup (d_ops d) k = Some opn0 \<and> lawful_move d' opn0 opn)
      \<or> op_State opn = OperationPlanned \<and> fmlookup (d_ops d) k = None
        \<and> (\<exists>task. fmlookup (d_tasks d) (od_TaskID (op_Descriptor opn)) = Some task
             \<and> \<not> terminalTask (task_State task))"
    if "fmlookup (d_ops d') k = Some opn" for k opn
    using law that unfolding lawful_def by (cases "fmlookup (d_ops d) k") fastforce+
  have outcomes: "(op_State opn = OperationSucceeded \<longrightarrow> vouched d' opn VerdictSatisfied)
      \<and> (op_State opn = OperationFailed \<longrightarrow> vouched d' opn VerdictNotSatisfiedTerminal)"
    if "fmlookup (d_ops d') k = Some opn" for k opn
    using origin[OF that] honestD(1,2)[OF hon] vouched_mono[OF ext]
    by (auto simp: lawful_move_def)
  have completed: "op_State opn = OperationSucceeded"
    if task: "fmlookup (d_tasks d') i = Some task" "task_State task = TaskCompleted"
      and opn: "fmlookup (d_ops d') k = Some opn" "od_TaskID (op_Descriptor opn) = i" for i task k opn
  proof -
    have old: "fmlookup (d_tasks d) i = Some task"
      using lawful_task_origin[OF law task(1)] task(2) by (simp add: terminalTask_def)
    from origin[OF opn(1)] show ?thesis
    proof (elim disjE exE conjE)
      fix opn0
      assume opn0: "fmlookup (d_ops d) k = Some opn0" and mv: "lawful_move d' opn0 opn"
      with honestD(3)[OF hon old task(2) opn0] opn(2) have "op_State opn0 = OperationSucceeded"
        by (simp add: lawful_move_def)
      with mv terminal_no_exit[of "op_State opn0"] show ?thesis
        by (auto simp: lawful_move_def terminal_operation_def)
    qed (use old opn(2) task(2) in \<open>auto simp: terminalTask_def\<close>)
  qed
  show ?thesis using outcomes completed unfolding honest_def by blast
qed

lemma finalizeTask_honest:
  assumes I: "integrity (tx_d t)" and hon: "honest (tx_d t)"
    and run: "finalizeTask ident rvn now t = (Inr task', t')"
  shows "honest (tx_d t')"
proof -
  obtain task where task: "fmlookup (d_tasks (tx_d t)) ident = Some task"
    and t': "t' = t\<lparr>tx_d := d_tasks_update (fmupd (task_ID task) task') (tx_d t)\<rparr>"
    and fin: "task_State task' = TaskCompleted \<longrightarrow>
      (\<forall>opn. of_task (tx_d t) ident opn \<longrightarrow> op_State opn = OperationSucceeded)"
    by (rule finalizeTask_Inr[OF run])
  have k: "task_ID task = ident" using integrityD(10)[OF I task] by (simp add: task_row_def)
  have "vouched (tx_d t') = vouched (tx_d t)"
    by (simp add: fun_eq_iff vouched_def t')
  with hon fin show ?thesis
    unfolding honest_def by (auto simp: t' k of_task_def)
qed

lemma Collect_honest:
  assumes I: "integrity d'" and hon: "honest d" and coll: "collected opt d d' out"
  shows "honest d'"
proof -
  have sub: "fmlookup (d_ops d') k = Some opn \<Longrightarrow> fmlookup (d_ops d) k = Some opn"
    "fmlookup (d_tasks d') i = Some task \<Longrightarrow> fmlookup (d_tasks d) i = Some task" for k opn i task
    using coll by (simp_all add: collected_def taken_def kept_def)
  have "vouched d' opn w" if "fmlookup (d_ops d') k = Some opn" "vouched d opn w" for k opn w
  proof -
    note opn = that
    have "od_ID (op_Descriptor opn) = k" using integrityD(1)[OF I opn(1)] by (simp add: op_row_def)
    moreover obtain j v where v: "fmlookup (d_verifications d) j = Some v"
      "ver_OperationID v = od_ID (op_Descriptor opn)" "ver_Verdict v = w"
      "ver_PolicyRef v = od_VerificationPolicyRef (op_Descriptor opn)"
      using opn(2) by (auto simp: vouched_def)
    ultimately have "fmlookup (d_verifications d') j = Some v"
      using coll opn(1) unfolding collected_def taken_def kept_def by fastforce
    with v show ?thesis by (auto simp: vouched_def)
  qed
  with honestD[OF hon] sub show ?thesis unfolding honest_def by blast
qed

definition trusted :: "data \<Rightarrow> bool" where
  "trusted d \<longleftrightarrow> integrity d \<and> honest d"

lemma obeys_kept: "good m \<Longrightarrow> obeys m \<Longrightarrow> kept_by trusted m"
  unfolding kept_by_def keepsS_def trusted_def using goodD obeysD lawful_honest by metis

lemma finalizeTask_kept: "kept_by trusted (finalizeTask ident rvn now)"
  unfolding kept_by_def keepsS_def trusted_def
  using goodD[OF good_finalizeTask] finalizeTask_honest by blast

interpretation trusted: store_invariant trusted
proof unfold_locales
  show "trusted empty_data"
    by (simp add: trusted_def integrity_empty) (simp add: honest_def empty_data_def)
  show "trusted d'" if "trusted d" "integrity d'" "collected opt d d' out" for d d' opt out
    using that Collect_honest by (auto simp: trusted_def)
  show "integrity d" if "trusted d" for d using that by (simp add: trusted_def)
qed (rule obeys_kept good_methods obeys_methods finalizeTask_kept)+

section \<open>Terminal operations are final\<close>

text \<open>
  \<open>settled d0 d\<close>: every operation terminal in \<open>d0\<close> is unchanged in its state in \<open>d\<close>, and every task
  terminal in \<open>d0\<close> is unchanged altogether.
\<close>

definition settled :: "data \<Rightarrow> data \<Rightarrow> bool" where
  "settled d0 d \<longleftrightarrow>
     (\<forall>k opn0. fmlookup (d_ops d0) k = Some opn0 \<longrightarrow> terminal_operation (op_State opn0) \<longrightarrow>
        (\<exists>opn. fmlookup (d_ops d) k = Some opn \<and> op_State opn = op_State opn0))
     \<and> (\<forall>k task. fmlookup (d_tasks d0) k = Some task \<longrightarrow> terminalTask (task_State task) \<longrightarrow>
        fmlookup (d_tasks d) k = Some task)"

definition sealed :: "data \<Rightarrow> data \<Rightarrow> bool" where
  "sealed d0 d \<longleftrightarrow> integrity d \<and> settled d0 d"

lemma lawful_settled:
  assumes "lawful d d'" and "settled d0 d"
  shows "settled d0 d'"
proof -
  have "\<exists>opn. fmlookup (d_ops d') k = Some opn \<and> op_State opn = op_State opn0"
    if "fmlookup (d_ops d0) k = Some opn0" "terminal_operation (op_State opn0)" for k opn0
  proof -
    from assms(2) that obtain opn1 where 1: "fmlookup (d_ops d) k = Some opn1" "op_State opn1 = op_State opn0"
      unfolding settled_def by blast
    with assms(1) obtain opn where "fmlookup (d_ops d') k = Some opn" "lawful_move d' opn1 opn"
      unfolding lawful_def by blast
    with 1 that(2) terminal_no_exit[of "op_State opn1"] show ?thesis by (auto simp: lawful_move_def)
  qed
  with assms show ?thesis unfolding settled_def lawful_def by blast
qed

lemma obeys_sealed: "good m \<Longrightarrow> obeys m \<Longrightarrow> kept_by (sealed d0) m"
  unfolding kept_by_def keepsS_def sealed_def using goodD obeysD lawful_settled by metis

lemma finalizeTask_sealed: "kept_by (sealed d0) (finalizeTask ident rvn now)"
  unfolding kept_by_def
proof (rule keepsSI)
  fix t task' t'
  assume S: "sealed d0 (tx_d t)" and run: "finalizeTask ident rvn now t = (Inr task', t')"
  then have I: "integrity (tx_d t)" by (simp add: sealed_def)
  obtain task where task: "fmlookup (d_tasks (tx_d t)) ident = Some task" "\<not> terminalTask (task_State task)"
    and t': "t' = t\<lparr>tx_d := d_tasks_update (fmupd (task_ID task) task') (tx_d t)\<rparr>"
    by (rule finalizeTask_Inr[OF run])
  have "task_ID task = ident" using integrityD(10)[OF I task(1)] by (simp add: task_row_def)
  with S task goodD[OF good_finalizeTask I run] show "sealed d0 (tx_d t')"
    by (auto simp: sealed_def settled_def t')
qed

interpretation sealed: work_invariant "sealed d0" for d0
  by unfold_locales (rule obeys_sealed good_methods obeys_methods finalizeTask_sealed)+

lemma works_settled: "works mj r r' \<Longrightarrow> integrity (repo_d r) \<Longrightarrow> settled (repo_d r) (repo_d r')"
  using sealed.works_P[of mj r r' "repo_d r"] by (auto simp: sealed_def settled_def)

end
