(* ===== verification/Guarantees.thy ===== *)
theory Guarantees
  imports Conformance
begin

text \<open>
  What clients of the store rely on, from the invariants: a message takes effect at most once, a
  revision is spent at most once, authority over an operation is unique and never comes back, and a
  transaction commits only if every call in it succeeded.
\<close>

section \<open>At most once\<close>

text \<open>What a successful registration has checked about time.\<close>

definition in_window :: "int \<Rightarrow> go_time \<Rightarrow> Envelope \<Rightarrow> bool" where
  "in_window mfloor now env \<longleftrightarrow>
     max mfloor (time_Unix (now - ReplayWindow)) \<le> time_Unix (env_IssuedAt env)
     \<and> env_IssuedAt env \<le> now + 5 * Minute"

lemma if_max_left: "(if y < x then x else y) = max y (x::int)"
  by simp

lemma registerMessage_window:
  assumes "registerMessage mj now env t = (Inr dup, t')"
  shows "in_window (d_messageFloor (tx_d t)) now env"
  using assms
  by (auto simp: registerMessage_def in_window_def if_fail_Inr bindS_Inr liftR_eq tx_reads Let_def
      if_max_left not_less)

lemma registerMessage_window_failed:
  assumes "validate_envelope env = Inr ()" and "\<not> in_window (d_messageFloor (tx_d t)) now env"
  shows "registerMessage mj now env t = (Inl ErrExpiredMessage, t)"
  using assms
  by (auto simp: registerMessage_def in_window_def bindS_def liftR_def tx_MessageFloor_def readT_def
      failS_def Let_def if_max_left)

text \<open>A message that is stored is recognised, or exposed as a collision.\<close>

lemma registerMessage_known:
  assumes "validate_envelope env = Inr ()" and "in_window (d_messageFloor (tx_d t)) now env"
    and "message_digest mj (utc_env env) = Inr digest"
    and "fmlookup (d_messages (tx_d t)) (env_MessageID env) = Some m"
  shows "registerMessage mj now env t =
    (if msg_Digest m = digest then Inr True else Inl ErrMessageIDCollision, t)"
  using assms
  by (auto simp: registerMessage_def in_window_def bindS_def liftR_def tx_MessageFloor_def readT_def
      failS_def retS_def Let_def if_max_left utc_env_def tryS_def tx_Message_def map_get_def)

text \<open>
  \<open>seen mj env d\<close>: the message is stored as it was accepted, or the floor has passed its time of issue.
\<close>

definition seen :: "marshal \<Rightarrow> Envelope \<Rightarrow> data \<Rightarrow> bool" where
  "seen mj env d \<longleftrightarrow> integrity d \<and> validate_envelope env = Inr () \<and>
     ((\<exists>m. fmlookup (d_messages d) (env_MessageID env) = Some m \<and> msg_IssuedAt m = env_IssuedAt env
        \<and> message_digest mj (utc_env env) = Inr (msg_Digest m))
      \<or> time_Unix (env_IssuedAt env) < d_messageFloor d)"

lemma good_seen: "good m \<Longrightarrow> kept_by (seen mj env) m"
  unfolding kept_by_def
proof (rule keepsSI)
  fix t v t'
  assume good: "good m" and S: "seen mj env (tx_d t)" and run: "m t = (Inr v, t')"
  from S have "integrity (tx_d t)" by (simp add: seen_def)
  from goodD[OF good this run] have "integrity (tx_d t')" and ext: "extends (tx_d t) (tx_d t')" by simp_all
  with S extendsD(8)[OF ext] growsD[OF extendsD(7)[OF ext]] show "seen mj env (tx_d t')"
    unfolding seen_def by fastforce
qed

interpretation seen: run_invariant "seen mj env" for mj env
proof unfold_locales
  show "seen mj env d'" if "seen mj env d" "integrity d'" "collected opt d d' out" for d d' opt out
  proof -
    have fl: "d_messageFloor d \<le> d_messageFloor d'"
      using that(3) by (simp add: collected_def)
    have msgs: "fmlookup (d_messages d') k = Some m \<or> time_Unix (msg_IssuedAt m) < d_messageFloor d'"
      if "fmlookup (d_messages d) k = Some m" for k m
      using \<open>collected opt d d' out\<close> that
      unfolding collected_def taken_def kept_def past_window_def by blast
    from that(1,2) fl show ?thesis
      unfolding seen_def by (elim conjE disjE exE) (auto dest: msgs)
  qed
  show "integrity d" if "seen mj env d" for d using that by (simp add: seen_def)
qed (rule good_seen good_methods)+

lemma registerMessage_seen:
  assumes I: "integrity (tx_d t)" and run: "registerMessage mj now env t = (Inr False, t')"
  shows "seen mj env (tx_d t')"
proof -
  have "validate_envelope env = Inr ()" using run by (auto simp: registerMessage_def bindS_Inr liftR_eq)
  moreover have "integrity (tx_d t')" using goodD[OF good_registerMessage I run] by blast
  ultimately show ?thesis
    using registerMessage_Inr[OF run] by (auto simp: seen_def receipt_def)
qed

text \<open>What an accepted message leaves behind.\<close>

lemma accepted_seen:
  assumes I: "integrity (repo_d r)" and run: "ProcessMessage mj ctx clock env fn r = (Inr False, r')"
  shows "seen mj env (repo_d r')"
proof -
  from writeValue_ok[OF run[unfolded ProcessMessage_def]] obtain t where
    pm: "process_message mj env fn \<lparr>t_tx = \<lparr>tx_d = repo_d r, tx_write = True\<rparr>, t_failed = None,
        t_now = time_UTC clock\<rparr> = (Inr False, t)"
    and ok: "t_failed t = None" and r': "r' = r\<lparr>repo_d := tx_d (t_tx t)\<rparr>" by blast
  obtain t1 where reg: "t_RegisterMessage mj env \<lparr>t_tx = \<lparr>tx_d = repo_d r, tx_write = True\<rparr>,
        t_failed = None, t_now = time_UTC clock\<rparr> = (Inr False, t1)"
    and rest: "t = t1 \<or> (\<exists>f x. run_callback mj f t1 = (x, t))"
    using pm by (auto simp: process_message_def split: prod.splits sum.splits if_splits option.splits)
  from reg have "\<exists>s. registerMessage mj clock env \<lparr>tx_d = repo_d r, tx_write = True\<rparr> = (Inr False, s)
      \<and> t_tx t1 = s"
    by (auto simp: t_RegisterMessage_def exported_Inr)
  with registerMessage_seen[of "\<lparr>tx_d = repo_d r, tx_write = True\<rparr>"] I
  have "seen mj env (tx_d (t_tx t1))" by auto
  then have "fine (\<lambda>s. seen mj env (tx_d s)) t1" by (simp add: fine_def)
  with rest run_callback_fine[OF seen.call_keeps_P] have "fine (\<lambda>s. seen mj env (tx_d s)) t" by blast
  with ok r' show ?thesis by (simp add: fine_def)
qed

text \<open>What a second delivery finds.\<close>

lemma seen_redelivered:
  assumes S: "seen mj env (repo_d r)" and run: "ProcessMessage mj ctx clock env fn r = (x, r')"
  shows "x \<noteq> Inr False" and "r' = r"
proof -
  let ?t = "\<lparr>t_tx = \<lparr>tx_d = repo_d r, tx_write = True\<rparr>, t_failed = None, t_now = time_UTC clock\<rparr>"
  have reg: "registerMessage mj clock env (t_tx ?t) \<in>
      {(Inr True, t_tx ?t), (Inl ErrExpiredMessage, t_tx ?t)}"
    using S registerMessage_window_failed[of env "t_tx ?t" clock mj]
      registerMessage_known[of env "t_tx ?t" clock mj]
    by (cases "in_window (d_messageFloor (repo_d r)) clock env") (auto simp: seen_def in_window_def)
  then have pm: "\<exists>t. process_message mj env fn ?t \<in> {(Inr True, ?t), (Inl ErrExpiredMessage, t)}"
    by (auto simp: process_message_def t_RegisterMessage_def exported_def)
  show "r' = r"
  proof (cases x)
    case (Inl e)
    with run show ?thesis unfolding ProcessMessage_def by (blast dest: writeValue_error)
  next
    case (Inr b)
    with writeValue_ok[of ctx clock "process_message mj env fn" r b r'] run pm show ?thesis
      by (auto simp: ProcessMessage_def)
  qed
  show "x \<noteq> Inr False"
    using writeValue_ok[of ctx clock "process_message mj env fn" r False r'] run pm
    by (auto simp: ProcessMessage_def)
qed

text \<open>A delivery of a stored message in its window, with no cancellation.\<close>

lemma known_redelivered:
  assumes "validate_envelope env = Inr ()" and "in_window (d_messageFloor (repo_d r)) clock env"
    and "message_digest mj (utc_env env) = Inr digest"
    and "fmlookup (d_messages (repo_d r)) (env_MessageID env) = Some m" and "\<not> repo_closed r"
  shows "ProcessMessage mj Background clock env fn r =
    (if msg_Digest m = digest then Inr True else Inl ErrMessageIDCollision, r)"
  using registerMessage_known[of env "\<lparr>tx_d = repo_d r, tx_write = True\<rparr>" clock mj digest m] assms
  by (simp add: ProcessMessage_def writeValue_def memory_Update_def memory_run_def Background_def
      process_message_def t_RegisterMessage_def exported_def)

section \<open>Authority\<close>

text \<open>Who may act for an operation now: what \<open>checkActive\<close> lets pass.\<close>

definition holds_authority ::
  "data \<Rightarrow> OperationID \<Rightarrow> AttemptID \<Rightarrow> LeaseID \<Rightarrow> uint64 \<Rightarrow> ActorID \<Rightarrow> bool" where
  "holds_authority d ident aid lease gen owner \<longleftrightarrow>
     (\<exists>opn a. fmlookup (d_ops d) ident = Some opn \<and> in_execution (op_State opn)
        \<and> aid \<noteq> '''' \<and> op_ActiveAttemptID opn = aid \<and> op_LeaseGeneration opn = gen
        \<and> fmlookup (d_attempts d) aid = Some a \<and> live a
        \<and> att_LeaseID a = lease \<and> att_LeaseGeneration a = gen \<and> att_OwnerActorID a = owner
        \<and> fmlookup (d_revocations d) aid = None)"

lemma checkActive_store:
  "(\<exists>u. fst (store_CheckActiveAttemptContext ctx ident aid lease gen owner r) = Inr u) \<Longrightarrow>
     holds_authority (repo_d r) ident aid lease gen owner"
  "\<not> repo_closed r \<Longrightarrow> holds_authority (repo_d r) ident aid lease gen owner \<Longrightarrow>
     store_CheckActiveAttemptContext Background ident aid lease gen owner r = (Inr (), r)"
  unfolding holds_authority_def
  using checkActive_Inr[of ident aid lease gen owner "\<lparr>tx_d = repo_d r, tx_write = False\<rparr>"]
  by (fastforce simp: store_CheckActiveAttemptContext_def memory_View_def memory_run_def Background_def
      split: option.splits if_splits prod.splits sum.splits)+

text \<open>On data with integrity the attempt alone decides: the rest of the answer is in its row.\<close>

lemma holds_authority_iff:
  assumes I: "integrity d"
  shows "holds_authority d ident aid lease gen owner \<longleftrightarrow>
    (\<exists>a. fmlookup (d_attempts d) aid = Some a \<and> live a \<and> att_OperationID a = ident
       \<and> att_LeaseID a = lease \<and> att_LeaseGeneration a = gen \<and> att_OwnerActorID a = owner)"
proof
  assume "holds_authority d ident aid lease gen owner"
  then obtain opn a where h: "fmlookup (d_ops d) ident = Some opn" "in_execution (op_State opn)"
    "op_ActiveAttemptID opn = aid" "fmlookup (d_attempts d) aid = Some a" "live a"
    "att_LeaseID a = lease" "att_LeaseGeneration a = gen" "att_OwnerActorID a = owner"
    by (auto simp: holds_authority_def)
  with integrityD(1)[OF I h(1)] show "\<exists>a. fmlookup (d_attempts d) aid = Some a \<and> live a
      \<and> att_OperationID a = ident \<and> att_LeaseID a = lease \<and> att_LeaseGeneration a = gen
      \<and> att_OwnerActorID a = owner"
    by (auto simp: op_row_def)
next
  assume "\<exists>a. fmlookup (d_attempts d) aid = Some a \<and> live a \<and> att_OperationID a = ident
       \<and> att_LeaseID a = lease \<and> att_LeaseGeneration a = gen \<and> att_OwnerActorID a = owner"
  then obtain a where a: "fmlookup (d_attempts d) aid = Some a" "live a" "att_OperationID a = ident"
       "att_LeaseID a = lease" "att_LeaseGeneration a = gen" "att_OwnerActorID a = owner" by blast
  with integrityD(3)[OF I] obtain opn where opn: "fmlookup (d_ops d) ident = Some opn"
    "in_execution (op_State opn)" "op_ActiveAttemptID opn = aid" by (auto simp: live_ok_def)
  have "op_LeaseGeneration opn = gen"
    using integrityD(1)[OF I opn(1)] opn a by (auto simp: op_row_def)
  moreover have "aid \<noteq> ''''" using integrityD(2)[OF I a(1)] by (simp add: att_row_def)
  moreover have "fmlookup (d_revocations d) aid = None"
    using integrityD(9)[OF I, of aid] a(1,2) by (cases "fmlookup (d_revocations d) aid") (auto simp: rvk_row_def)
  ultimately show "holds_authority d ident aid lease gen owner"
    using opn a by (auto simp: holds_authority_def)
qed

lemma authority_unique:
  assumes I: "integrity d" and "holds_authority d ident aid lease gen owner"
    and "holds_authority d ident aid' lease' gen' owner'"
  shows "aid' = aid \<and> lease' = lease \<and> gen' = gen \<and> owner' = owner"
  using assms(2,3) by (auto simp: holds_authority_def)

lemma authority_lost:
  assumes I: "integrity d" and I': "integrity d'" and ext: "extends d d'"
    and a: "fmlookup (d_attempts d) aid = Some a"
    and "\<not> holds_authority d ident aid lease gen owner"
  shows "\<not> holds_authority d' ident aid lease gen owner"
proof -
  obtain a' where "fmlookup (d_attempts d') aid = Some a'" "att_le a a'"
    using growsD[OF extendsD(3)[OF ext] a] by blast
  with assms(5) a show ?thesis
    unfolding holds_authority_iff[OF I] holds_authority_iff[OF I'] by (auto simp: att_le_def)
qed

section \<open>Revisions\<close>

text \<open>The operation and the revision that a call of the transaction expects.\<close>

fun call_revision :: "call \<Rightarrow> (OperationID \<times> uint64) option" where
  "call_revision (CMarkReady ident rvn now) = Some (ident, rvn)"
| "call_revision (CBeginVerification ident rvn now) = Some (ident, rvn)"
| "call_revision (CMarkUnknownOutcome ident rvn now) = Some (ident, rvn)"
| "call_revision (CMarkNotStarted ident rvn v now) = Some (ident, rvn)"
| "call_revision (CApplyVerification ident rvn v now) = Some (ident, rvn)"
| "call_revision (CStartAttempt ident rvn aid lease owner retry now) = Some (ident, rvn)"
| "call_revision (CInvalidateAttempt ident rvn aid reason obs now) = Some (ident, rvn)"
| "call_revision _ = None"

definition spends :: "OperationID \<Rightarrow> uint64 \<Rightarrow> 'a tx \<Rightarrow> bool" where
  "spends ident rvn m \<longleftrightarrow> (\<forall>t v t'. integrity (tx_d t) \<longrightarrow> m t = (Inr v, t') \<longrightarrow>
     rvn < MaxInt64 \<and> (\<exists>opn opn'. fmlookup (d_ops (tx_d t)) ident = Some opn \<and> op_Revision opn = rvn
       \<and> fmlookup (d_ops (tx_d t')) ident = Some opn' \<and> op_Revision opn' = rvn + 1))"

lemma transition_spends:
  assumes I: "integrity (tx_d t)" and opn: "fmlookup (d_ops (tx_d t)) k = Some opn"
    and run: "transition opn rvn to as now t = (Inr nxt, t')"
  shows "rvn < MaxInt64 \<and> op_Revision opn = rvn
    \<and> fmlookup (d_ops (tx_d t')) k = Some nxt \<and> op_Revision nxt = rvn + 1"
proof -
  have k: "od_ID (op_Descriptor opn) = k" using integrityD(1)[OF I opn] by (simp add: op_row_def)
  from transition_Inr(2)[OF run, of opn] opn k obtain A where "tx_d t' = moved (tx_d t) k nxt A" by auto
  with transition_Inr(1)[OF run] show ?thesis by (auto simp: Transition_Inr)
qed

lemma spends_simple:
  "spends ident rvn (markReady ident rvn now)" "spends ident rvn (beginVerification ident rvn now)"
  "spends ident rvn (markUnknownOutcome ident rvn now)"
  unfolding spends_def markReady_def beginVerification_def markUnknownOutcome_def bindS_Inr
    if_fail_Inr tx_reads map_get_Inr
  by (auto dest: transition_spends)

lemma spends_verdict:
  assumes ns: "notStarted \<longrightarrow> ver_Verdict v = VerdictNotSatisfiedRetryable"
  shows "spends ident rvn (apply_verdict ident rvn v now notStarted)"
  unfolding spends_def
proof (intro allI impI)
  fix t u t'
  assume I: "integrity (tx_d t)" and run: "apply_verdict ident rvn v now notStarted t = (Inr u, t')"
  obtain opn as t1 where opn: "fmlookup (d_ops (tx_d t)) ident = Some opn"
    and t1: "t1 = t\<lparr>tx_d := d_verifications_update (fmupd (ver_ID v) v) (tx_d t)\<rparr>"
    and I1: "integrity (tx_d t1)"
    and tr: "transition opn rvn (verdict_state (ver_Verdict v)) as now t1 = (Inr u, t')"
    by (rule apply_verdict_stored[OF ns I run])
  have "fmlookup (d_ops (tx_d t1)) ident = Some opn" by (simp add: t1 opn)
  from transition_spends[OF I1 this tr] opn
  show "rvn < MaxInt64 \<and> (\<exists>opn opn'. fmlookup (d_ops (tx_d t)) ident = Some opn \<and> op_Revision opn = rvn
       \<and> fmlookup (d_ops (tx_d t')) ident = Some opn' \<and> op_Revision opn' = rvn + 1)" by blast
qed

lemma spends_markNotStarted: "spends ident rvn (markNotStarted ident rvn v now)"
proof (cases "ver_Verdict v \<noteq> VerdictNotSatisfiedRetryable \<or> \<not> ver_RetryExecutionSafe v")
  case True
  then show ?thesis by (auto simp: markNotStarted_def spends_def failS_eq)
next
  case False
  then show ?thesis by (simp add: markNotStarted_def spends_verdict)
qed

lemma spends_startAttempt: "spends ident rvn (startAttempt ident rvn aid lease owner retry now)"
  unfolding spends_def
proof (intro allI impI)
  fix t v t'
  assume I: "integrity (tx_d t)" and run: "startAttempt ident rvn aid lease owner retry now t = (Inr v, t')"
  obtain nxt a where v: "v = (nxt, a)" by fastforce
  from startAttempt_starts[OF I run[unfolded v]] obtain opn R where
    st: "starts (tx_d t) ident opn nxt a R" and t': "tx_d t' = started (tx_d t) ident nxt a R"
    and rv: "op_Revision opn = rvn" "op_Revision nxt = rvn + 1" "rvn < MaxInt64" by blast
  then show "rvn < MaxInt64 \<and> (\<exists>opn opn'. fmlookup (d_ops (tx_d t)) ident = Some opn \<and> op_Revision opn = rvn
       \<and> fmlookup (d_ops (tx_d t')) ident = Some opn' \<and> op_Revision opn' = rvn + 1)"
    by (auto simp: starts_def)
qed

lemma spends_invalidateAttempt: "spends ident rvn (invalidateAttempt ident rvn aid reason obs now)"
  unfolding spends_def
proof (intro allI impI)
  fix t nxt t'
  assume I: "integrity (tx_d t)" and run: "invalidateAttempt ident rvn aid reason obs now t = (Inr nxt, t')"
  from run obtain opn where opn: "fmlookup (d_ops (tx_d t)) ident = Some opn"
    and lose: "LoseExecutionCertainty opn rvn now = Inr nxt"
    unfolding invalidateAttempt_def if_fail_Inr bindS_Inr tx_reads reject_found_Inr liftR_eq map_get_Inr
    by (auto simp: retS_eq)
  from invalidateAttempt_Inr[OF I run] obtain A d1 where "tx_d t' = d_revocations_update d1
       (d_evidence_update (fmupd (ev_ID obs) obs) (moved (tx_d t) ident nxt A))" by metis
  with opn lose show "rvn < MaxInt64 \<and> (\<exists>opn opn'. fmlookup (d_ops (tx_d t)) ident = Some opn \<and> op_Revision opn = rvn
       \<and> fmlookup (d_ops (tx_d t')) ident = Some opn' \<and> op_Revision opn' = rvn + 1)"
    by (auto simp: LoseExecutionCertainty_Inr)
qed

lemma call_spends:
  assumes I: "integrity (tx_d (t_tx t))" and run: "t_call mj c t = (Inr reply, t')"
    and rev: "call_revision c = Some (ident, rvn)"
  shows "rvn < MaxInt64 \<and> (\<exists>opn opn'. fmlookup (d_ops (tx_d (t_tx t))) ident = Some opn
    \<and> op_Revision opn = rvn \<and> fmlookup (d_ops (tx_d (t_tx t'))) ident = Some opn' \<and> op_Revision opn' = rvn + 1)"
proof -
  from run rev show ?thesis
    using spends_simple(1)[of ident rvn, unfolded spends_def, rule_format, OF I]
      spends_simple(2)[of ident rvn, unfolded spends_def, rule_format, OF I]
      spends_simple(3)[of ident rvn, unfolded spends_def, rule_format, OF I]
      spends_markNotStarted[of ident rvn, unfolded spends_def, rule_format, OF I]
      spends_verdict[of False _ ident rvn, unfolded spends_def, rule_format, OF _ I]
      spends_startAttempt[of ident rvn, unfolded spends_def, rule_format, OF I]
      spends_invalidateAttempt[of ident rvn, unfolded spends_def, rule_format, OF I]
    by (cases c) (auto simp: mapR_Inr t_defs exported_Inr applyVerification_def)
qed

text \<open>Once the revision of an operation has moved on, no call that expects an older one succeeds.\<close>

lemma old_revision_refused:
  assumes I: "integrity (tx_d (t_tx t))" and opn: "fmlookup (d_ops (tx_d (t_tx t))) ident = Some opn"
    and old: "rvn < op_Revision opn" and rev: "call_revision c = Some (ident, rvn)"
  shows "\<exists>e t'. t_call mj c t = (Inl e, t')"
proof -
  obtain r t' where run: "t_call mj c t = (r, t')" by fastforce
  show ?thesis
  proof (cases r)
    case (Inl e)
    with run show ?thesis by blast
  next
    case (Inr reply)
    with call_spends[OF I run[unfolded Inr] rev] opn old show ?thesis by auto
  qed
qed

text \<open>The transaction as \<open>writeValue\<close> hands it to the function it runs.\<close>

definition opened :: "Repository \<Rightarrow> go_time \<Rightarrow> Transaction" where
  "opened r clock = \<lparr>t_tx = \<lparr>tx_d = repo_d r, tx_write = True\<rparr>, t_failed = None, t_now = time_UTC clock\<rparr>"

lemma t_call_ok: "t_call mj c t = (Inr reply, t') \<Longrightarrow> t_failed t' = None"
  by (cases c) (auto simp: mapR_Inr t_defs exported_Inr)

section \<open>All or nothing\<close>

text \<open>The answers a callback has been given, in order.\<close>

primrec callback_replies :: "marshal \<Rightarrow> callback \<Rightarrow> Transaction \<Rightarrow> reply result list" where
  "callback_replies mj (Finish r) = (\<lambda>t. [])"
| "callback_replies mj (Call c k) = (\<lambda>t. case t_call mj c t of (r, t') \<Rightarrow> r # callback_replies mj (k r) t')"

lemma exported_error: "exported m t = (Inl e, t') \<Longrightarrow> t_failed t' \<noteq> None"
  by (auto simp: exported_def split: option.splits prod.splits sum.splits)

lemma t_call_error: "t_call mj c t = (Inl e, t') \<Longrightarrow> t_failed t' \<noteq> None"
  by (cases c) (auto simp: mapR_def t_defs split: prod.splits sum.splits dest: exported_error)

lemma run_callback_replies:
  "run_callback mj f t = (r, t') \<Longrightarrow> t_failed t' = None \<Longrightarrow>
   \<forall>x \<in> set (callback_replies mj f t). \<exists>reply. x = Inr reply"
proof (induction f arbitrary: t)
  case (Call c k)
  obtain x t1 where one: "t_call mj c t = (x, t1)" by fastforce
  show ?case
  proof (cases x)
    case (Inl e)
    from t_call_error[OF one[unfolded Inl]] obtain e1 where "t_failed t1 = Some e1" by blast
    from run_callback_failed[OF this, of mj "k x" r t'] this Call.prems one show ?thesis by simp
  next
    case (Inr reply)
    with Call.IH[of "k x" t1] Call.prems one show ?thesis by simp
  qed
qed simp

end
