(* ===== verification/Runner.thy ===== *)
theory Runner
  imports Contract Guarantees
begin

text \<open>
  Package \<open>internal/execution\<close>, \<open>runner.go\<close>: one dispatch of one job to one worker, from the offer to the
  report or the loss.  The runner is not alone with the store, so it runs on a \<open>host\<close>: the repository
  and a count of what the runner has observed.  The \<open>world\<close> answers each observation: the clock, the
  context, the context's answers inside a store call, and what others did to the repository since the
  last access.  The theorems hold for every world.
\<close>

section \<open>The host\<close>

record world =
  o_Now :: "nat \<Rightarrow> go_time"
  o_Done :: "nat \<Rightarrow> error option"
  o_Ctx :: "nat \<Rightarrow> context3"
  o_Others :: "nat \<Rightarrow> Repository \<Rightarrow> Repository"

record host =
  h_Repo :: Repository
  h_Tick :: nat

type_synonym 'a io = "host \<Rightarrow> 'a \<times> host"

definition retI :: "'a \<Rightarrow> 'a io" where
  "retI x = (\<lambda>h. (x, h))"

definition bindI :: "'a io \<Rightarrow> ('a \<Rightarrow> 'b io) \<Rightarrow> 'b io" where
  "bindI m f = (\<lambda>h. case m h of (x, h') \<Rightarrow> f x h')"

definition time_Now :: "world \<Rightarrow> go_time io" where
  "time_Now w h = (o_Now w (h_Tick h), h\<lparr>h_Tick := Suc (h_Tick h)\<rparr>)"

definition ctx_Err :: "world \<Rightarrow> error option io" where
  "ctx_Err w h = (o_Done w (h_Tick h), h\<lparr>h_Tick := Suc (h_Tick h)\<rparr>)"

text \<open>One call of the store, with the context's answers and the clock the store reads.\<close>

definition on_store :: "world \<Rightarrow> (context3 \<Rightarrow> go_time \<Rightarrow> Repository \<Rightarrow> 'a \<times> Repository) \<Rightarrow> 'a io" where
  "on_store w f h =
     (case f (o_Ctx w (h_Tick h)) (o_Now w (h_Tick h)) (o_Others w (h_Tick h) (h_Repo h)) of
        (x, r) \<Rightarrow> (x, \<lparr>h_Repo = r, h_Tick = Suc (h_Tick h)\<rparr>))"

text \<open>
  \<open>ProcessMessage\<close> with a closure that assigns variables of its surroundings: those variables are
  functions of the replies the closure was given.
\<close>

definition message_replies :: "marshal \<Rightarrow> go_time \<Rightarrow> Envelope \<Rightarrow> callback \<Rightarrow> Repository \<Rightarrow> reply result list" where
  "message_replies mj clock env f r =
     (case t_RegisterMessage mj env (opened r clock) of
        (Inr False, t) \<Rightarrow> callback_replies mj f t
      | _ \<Rightarrow> [])"

definition process :: "marshal \<Rightarrow> world \<Rightarrow> Envelope \<Rightarrow> callback \<Rightarrow> (bool result \<times> reply result list) io" where
  "process mj w env f = on_store w (\<lambda>ctx clock r.
     case ProcessMessage mj ctx clock env (Some f) r of
       (x, r') \<Rightarrow> ((x, message_replies mj clock env f r), r'))"

section \<open>Outcomes (runner.go)\<close>

datatype Disposition = NoDisposition | Rejected | Duplicate | Reported | Unknown

datatype Reason = NoReason | OK | Unsupported | Denied | Unavailable | Budget | TimedOut | Cancelled | Failed

fun reason_text :: "Reason \<Rightarrow> string" where
  "reason_text NoReason = ''''"
| "reason_text OK = ''ok''"
| "reason_text Unsupported = ''unsupported''"
| "reason_text Denied = ''denied''"
| "reason_text Unavailable = ''unavailable''"
| "reason_text Budget = ''budget_exceeded''"
| "reason_text TimedOut = ''timeout''"
| "reason_text Cancelled = ''cancelled''"
| "reason_text Failed = ''executor_error''"

definition reason :: "unit result \<Rightarrow> Reason" where
  "reason r = (case r of Inr _ \<Rightarrow> OK | Inl err \<Rightarrow>
     if errors_is err ErrUnsupported then Unsupported
     else if errors_is err ErrDenied then Denied
     else if errors_is err ErrUnavailable then Unavailable
     else if errors_is err ErrLimit then Budget
     else if errors_is err DeadlineExceeded then TimedOut
     else if errors_is err Canceled then Cancelled
     else Failed)"

record Report =
  rep_At :: go_time
  rep_Reason :: Reason
  rep_Digest :: string
  rep_Units :: int

record Outcome =
  out_Disposition :: Disposition
  out_Reason :: Reason
  out_Applied :: bool
  out_Report :: Report
  out_Output :: string

definition zero_report :: Report where
  "zero_report = \<lparr>rep_At = 0, rep_Reason = NoReason, rep_Digest = '''', rep_Units = 0\<rparr>"

definition plain_outcome :: "Disposition \<Rightarrow> Reason \<Rightarrow> Outcome" where
  "plain_outcome d why = \<lparr>out_Disposition = d, out_Reason = why, out_Applied = False, out_Report = zero_report,
     out_Output = ''''\<rparr>"

record Runner =
  rn_controller :: ActorID
  rn_worker :: Worker
  rn_policy :: Policy

text \<open>The store is the repository of the host; \<open>has_store\<close>: the argument is not nil.\<close>

definition NewRunner :: "bool \<Rightarrow> ActorID \<Rightarrow> Worker option \<Rightarrow> Policy option \<Rightarrow> Runner result" where
  "NewRunner has_store controller worker policy =
     (case (worker, policy) of
        (Some wk, Some p) \<Rightarrow>
          if \<not> has_store \<or> controller = '''' then Inl ErrInvalid
          else Inr \<lparr>rn_controller = controller, rn_worker = wk, rn_policy = p\<rparr>
      | _ \<Rightarrow> Inl ErrInvalid)"

definition digest :: "string \<Rightarrow> string" where
  "digest s = ''sha256:'' @ sha256_hex s"

definition event :: "Job \<Rightarrow> MessageID \<Rightarrow> string \<Rightarrow> ActorID \<Rightarrow> go_time \<Rightarrow> (string \<times> payload) list \<Rightarrow> Envelope" where
  "event j ident name actor at pl = \<lparr>env_ProtocolVersion = ProtocolVersion, env_MessageID = ident,
     env_MessageType = MessageEvent, env_MessageName = name, env_TaskID = od_TaskID (job_Descriptor j),
     env_OperationID = od_ID (job_Descriptor j), env_AttemptID = rq_AttemptID (job_Request j),
     env_CorrelationID = rq_CorrelationID (job_Request j), env_CausationID = rq_MessageID (job_Request j),
     env_Actor = \<lparr>actor_ID = actor, actor_Role = ''worker''\<rparr>, env_IssuedAt = at, env_DeadlineAt = None,
     env_Lease = Some \<lparr>leaseref_ID = rq_LeaseID (job_Request j), leaseref_Generation = job_Generation j\<rparr>,
     env_Payload = pl, env_Extensions = []\<rparr>"

definition job_record :: "Job \<Rightarrow> string \<Rightarrow> Kind \<Rightarrow> ActorID \<Rightarrow> go_time \<Rightarrow> string \<Rightarrow> Record" where
  "job_record j ident kind actor at summary = \<lparr>ev_ID = ident, ev_TaskID = od_TaskID (job_Descriptor j),
     ev_OperationID = od_ID (job_Descriptor j), ev_AttemptID = rq_AttemptID (job_Request j), ev_Kind = kind,
     ev_SourceActorID = actor, ev_ObservedAt = at, ev_SubjectRef = od_TargetRef (job_Descriptor j),
     ev_Summary = summary, ev_ArtifactRef = '''', ev_Digest = ''''\<rparr>"

section \<open>Execute: the offer (runner.go)\<close>

definition unit_of :: "reply result \<Rightarrow> unit result" where
  "unit_of r = (case r of Inl e \<Rightarrow> Inl e | Inr _ \<Rightarrow> Inr ())"

text \<open>
  The checks before the offer.  The outer result is an early return with that error, the inner one the
  variable \<open>check\<close>.
\<close>

definition check_retry :: "Request \<Rightarrow> Operation \<Rightarrow> unit result \<Rightarrow> Attempt result \<Rightarrow> unit result result" where
  "check_retry req opn check prior = (case prior of
     Inl e \<Rightarrow> if \<not> errors_is e ErrNotFound then Inl e else Inr (Inl ErrDenied)
   | Inr a \<Rightarrow> if att_OperationID a \<noteq> rq_OperationID req \<or> att_LeaseGeneration a \<noteq> op_LeaseGeneration opn
       then Inr (Inl ErrDenied) else Inr check)"

definition check_offer ::
  "world \<Rightarrow> Runner \<Rightarrow> Request \<Rightarrow> Capabilities \<Rightarrow> Job \<Rightarrow> Operation \<Rightarrow> go_time \<Rightarrow> unit result result io" where
  "check_offer w R req c j opn now =
     (let check = bindR (supports c j) (\<lambda>_. rn_policy R j c now) in
      bindI (if check = Inr () \<and> op_LeaseGeneration opn > 0 \<and> op_State opn = OperationReady
        then bindI (on_store w (\<lambda>ctx _. store_GetAttempt ctx (rq_RetryOf req))) (\<lambda>prior.
          retI (check_retry req opn check prior))
        else retI (Inr check)) (\<lambda>r.
      retI (bindR r (\<lambda>check. Inr (bindR check (\<lambda>_. wk_Accept (rn_worker R) j))))))"

definition offer_envelope :: "Runner \<Rightarrow> Request \<Rightarrow> Capabilities \<Rightarrow> Job \<Rightarrow> Envelope" where
  "offer_envelope R req c j =
     (event j (rq_MessageID req) ''operation.offer'' (rn_controller R) (rq_IssuedAt req)
       [(''version'', PString (rq_Version req)), (''worker'', PString (cap_Worker c)),
        (''provider'', PString (rq_Provider req)), (''model'', PString (rq_Model req)),
        (''data_class'', PString (rq_DataClass req)), (''input_digest'', PString (digest (rq_Input req))),
        (''revision'', PUint (unat (rq_Revision req))), (''retry_of'', PString (rq_RetryOf req)),
        (''duration_ns'', PInt (lim_Duration (rq_Limits req))),
        (''input_bytes'', PInt (lim_InputBytes (rq_Limits req))),
        (''output_bytes'', PInt (lim_OutputBytes (rq_Limits req))),
        (''units'', PInt (lim_Units (rq_Limits req)))])
     \<lparr>env_MessageType := MessageCommand, env_Actor := \<lparr>actor_ID = rn_controller R, actor_Role = ''controller''\<rparr>,
      env_DeadlineAt := Some (rq_Deadline req),
      env_Lease := Some \<lparr>leaseref_ID = rq_LeaseID req, leaseref_Generation = 0\<rparr>\<rparr>"

definition offer_callback :: "Runner \<Rightarrow> Request \<Rightarrow> Capabilities \<Rightarrow> Job \<Rightarrow> go_time \<Rightarrow> unit result \<Rightarrow> callback" where
  "offer_callback R req c j now check =
     (case check of
        Inl err \<Rightarrow> Call (CRegisterEvidence ((job_record j (rq_MessageID req @ ''/rejected'') KindPolicyDecision
            (rn_controller R) now (reason_text (reason check)))\<lparr>ev_AttemptID := ''''\<rparr>)) (\<lambda>r. Finish (unit_of r))
      | Inr _ \<Rightarrow> Call (CStartAttempt (rq_OperationID req) (rq_Revision req) (rq_AttemptID req) (rq_LeaseID req)
            (cap_Worker c) (rq_RetryOf req) now) (\<lambda>r. case r of
          Inl e \<Rightarrow> Finish (Inl e)
        | Inr _ \<Rightarrow> Call (CRegisterEvidence (job_record j (rq_AttemptID req @ ''/accepted'') KindPolicyDecision
              (rn_controller R) now ''accepted'')) (\<lambda>r. Finish (unit_of r))))"

text \<open>\<open>j.Generation = a.LeaseGeneration\<close> of the closure.\<close>

fun offered_generation :: "reply result list \<Rightarrow> uint64" where
  "offered_generation (Inr (RStart opn a) # rs) = att_LeaseGeneration a"
| "offered_generation _ = 0"

text \<open>\<open>Inl\<close>: \<open>Execute\<close> returns; \<open>Inr\<close>: the offer is committed and the job goes to the worker.\<close>

definition offer ::
  "marshal \<Rightarrow> world \<Rightarrow> Runner \<Rightarrow> Request \<Rightarrow> ((Outcome \<times> error option) + (Job \<times> Capabilities)) io" where
  "offer mj w R req =
     bindI (time_Now w) (\<lambda>now.
     case validate_request req now of
       Inl err \<Rightarrow> retI (Inl (plain_outcome Rejected (reason (Inl err)), Some err))
     | Inr _ \<Rightarrow> bindI (ctx_Err w) (\<lambda>gone. case gone of
       Some err \<Rightarrow> retI (Inl (plain_outcome Rejected (reason (Inl err)), Some err))
     | None \<Rightarrow> bindI (on_store w (\<lambda>ctx _. store_GetOperation ctx (rq_OperationID req))) (\<lambda>found. case found of
       Inl err \<Rightarrow> retI (Inl (plain_outcome NoDisposition NoReason, Some err))
     | Inr opn \<Rightarrow>
       let c = wk_Capabilities (rn_worker R);
           j = \<lparr>job_Request = req, job_Descriptor = op_Descriptor opn, job_Worker = cap_Worker c, job_Generation = 0\<rparr>
       in bindI (check_offer w R req c j opn now) (\<lambda>checked. case checked of
       Inl err \<Rightarrow> retI (Inl (plain_outcome NoDisposition NoReason, Some err))
     | Inr check \<Rightarrow> bindI (process mj w (offer_envelope R req c j) (offer_callback R req c j now check)) (\<lambda>(sent, replies).
       case sent of
         Inl err \<Rightarrow> retI (Inl (plain_outcome NoDisposition NoReason, Some err))
       | Inr duplicate \<Rightarrow>
           if duplicate then retI (Inl (plain_outcome Duplicate NoReason, None))
           else (case check of
               Inl e \<Rightarrow> retI (Inl (plain_outcome Rejected (reason check), None))
             | Inr _ \<Rightarrow> retI (Inr (j\<lparr>job_Generation := offered_generation replies\<rparr>, c))))))))"

section \<open>Execute: the supervised run (runner.go)\<close>

definition heartbeat_callback :: "Job \<Rightarrow> string \<Rightarrow> go_time \<Rightarrow> callback" where
  "heartbeat_callback j ident at =
     Call (CCheckActiveAttemptContext (rq_OperationID (job_Request j)) (rq_AttemptID (job_Request j))
       (rq_LeaseID (job_Request j)) (job_Generation j) (job_Worker j)) (\<lambda>r. case r of
         Inl e \<Rightarrow> Finish (Inl e)
       | Inr _ \<Rightarrow> Call (CRegisterEvidence (job_record j ident KindWorkerReport (job_Worker j) at ''heartbeat''))
           (\<lambda>r. Finish (unit_of r)))"

text \<open>The closure \<open>heartbeat\<close> with its variables \<open>closed\<close> and \<open>beats\<close>.\<close>

definition heartbeat ::
  "marshal \<Rightarrow> world \<Rightarrow> Runner \<Rightarrow> Capabilities \<Rightarrow> Job \<Rightarrow> bool \<Rightarrow> nat \<Rightarrow> (unit result \<times> nat) io" where
  "heartbeat mj w R c j closed beats =
     (if closed then retI (Inl ErrStaleOwnership, beats)
      else bindI (ctx_Err w) (\<lambda>gone. case gone of Some err \<Rightarrow> retI (Inl err, beats) | None \<Rightarrow>
      bindI (ctx_Err w) (\<lambda>call_gone. case call_gone of Some err \<Rightarrow> retI (Inl err, beats) | None \<Rightarrow>
      bindI (time_Now w) (\<lambda>at.
      if \<not> at < rq_Deadline (job_Request j) then retI (Inl DeadlineExceeded, beats)
      else case rn_policy R j c at of Inl _ \<Rightarrow> retI (Inl ErrDenied, beats) | Inr _ \<Rightarrow>
      if beats \<ge> MaxHeartbeats then retI (Inl ErrLimit, beats)
      else let ident = rq_AttemptID (job_Request j) @ ''/heartbeat/'' @ decimal beats
        in bindI (process mj w (event j ident ''operation.progress'' (job_Worker j) at [])
             (heartbeat_callback j ident at)) (\<lambda>(sent, _). case sent of
               Inl err \<Rightarrow> retI (Inl err, beats) | Inr _ \<Rightarrow> retI (Inr (), Suc beats))))))"

text \<open>
  The worker's goroutine up to the moment the \<open>select\<close> is left; a panic is recovered into
  \<open>ErrProvider\<close>.  A heartbeat the worker calls later finds \<open>closed\<close> set.
\<close>

primrec run_script :: "(nat \<Rightarrow> (unit result \<times> nat) io) \<Rightarrow> world \<Rightarrow> script \<Rightarrow> nat \<Rightarrow> (Claim result \<times> nat) io" where
  "run_script beat w (Returns v) = (\<lambda>n. retI (v, n))"
| "run_script beat w Panics = (\<lambda>n. retI (Inl ErrProvider, n))"
| "run_script beat w (Hangs err) = (\<lambda>n. retI (Inl err, n))"
| "run_script beat w (Heartbeat k) = (\<lambda>n. bindI (beat n) (\<lambda>(r, n). run_script beat w (k r) n))"
| "run_script beat w (AskCtx k) = (\<lambda>n. bindI (ctx_Err w) (\<lambda>e. run_script beat w (k e) n))"

definition uncertain :: "world \<Rightarrow> Runner \<Rightarrow> Job \<Rightarrow> Reason \<Rightarrow> (Outcome \<times> error option) io" where
  "uncertain w R j why =
     (let out = plain_outcome Unknown why in
      bindI (on_store w (\<lambda>ctx _. store_GetOperation ctx (od_ID (job_Descriptor j)))) (\<lambda>found. case found of
        Inl err \<Rightarrow> retI (out, Some err)
      | Inr opn \<Rightarrow>
        if op_ActiveAttemptID opn \<noteq> rq_AttemptID (job_Request j) then retI (out, Some ErrStaleOwnership)
        else bindI (time_Now w) (\<lambda>now.
          let rec = job_record j (rq_AttemptID (job_Request j) @ ''/lost'') KindProcessObservation
                (rn_controller R) now (reason_text why);
              loss = (if why = TimedOut then LeaseExpired else OwnershipLost)
          in bindI (on_store w (\<lambda>ctx clock. store_InvalidateAttempt ctx clock (od_ID (job_Descriptor j))
               (op_Revision opn) (rq_AttemptID (job_Request j)) loss rec now)) (\<lambda>r.
             retI (out, case r of Inl err \<Rightarrow> Some err | Inr _ \<Rightarrow> None)))))"

section \<open>Execute: the report (runner.go)\<close>

text \<open>\<open>hex.DecodeString\<close> succeeds.\<close>

definition hex_decodes :: "string \<Rightarrow> bool" where
  "hex_decodes s \<longleftrightarrow> even (length s) \<and> list_all (\<lambda>c. c \<in> set ''0123456789abcdefABCDEF'') s"

text \<open>\<open>applied\<close> of the closure.\<close>

fun reply_applied :: "reply result list \<Rightarrow> bool" where
  "reply_applied (Inr (RBool b) # rs) = b"
| "reply_applied _ = False"

definition report_callback :: "Job \<Rightarrow> string \<Rightarrow> Report \<Rightarrow> callback" where
  "report_callback j ident v =
     Call (CRecordWorkerReport ((job_record j ident KindWorkerReport (job_Worker j) (rep_At v) ''result_reported'')
         \<lparr>ev_Digest := rep_Digest v\<rparr>) (rq_LeaseID (job_Request j)) (job_Generation j) (rq_Deadline (job_Request j)))
       (\<lambda>r. Finish (unit_of r))"

definition send_report :: "marshal \<Rightarrow> world \<Rightarrow> Job \<Rightarrow> Report \<Rightarrow> (bool \<times> bool) result io" where
  "send_report mj w j v =
     bindI (time_Now w) (\<lambda>now.
     if rep_Reason v \<noteq> OK \<or> time_IsZero (rep_At v) \<or> rep_At v > now + Second
        \<or> rep_At v < rq_IssuedAt (job_Request j) \<or> rep_Units v < 0
        \<or> rep_Units v > lim_Units (rq_Limits (job_Request j)) \<or> length (rep_Digest v) \<noteq> 71
        \<or> take 7 (rep_Digest v) \<noteq> ''sha256:''
     then retI (Inl ErrInvalid)
     else if \<not> hex_decodes (drop 7 (rep_Digest v)) then retI (Inl ErrInvalid)
     else let ident = rq_AttemptID (job_Request j) @ ''/result'';
         env = event j ident ''operation.result_reported'' (job_Worker j) (rep_At v)
           [(''reason'', PString (reason_text (rep_Reason v))), (''digest'', PString (rep_Digest v)),
            (''units'', PInt (rep_Units v))]
       in bindI (process mj w env (report_callback j ident v)) (\<lambda>(sent, replies). case sent of
            Inl err \<Rightarrow> retI (Inl err)
          | Inr duplicate \<Rightarrow> retI (Inr (reply_applied replies, duplicate))))"

text \<open>\<open>errors.Join\<close> of an error and an error that may be nil.\<close>

definition join_errors :: "error \<Rightarrow> error option \<Rightarrow> error" where
  "join_errors e e' = (case e' of None \<Rightarrow> e | Some e' \<Rightarrow> ErrJoin e e')"

text \<open>What is left of the worker's result after the controller's own checks.\<close>

definition check_claim :: "world \<Rightarrow> Runner \<Rightarrow> Capabilities \<Rightarrow> Job \<Rightarrow> Claim result \<Rightarrow> Claim result io" where
  "check_claim w R c j v =
     bindI (ctx_Err w) (\<lambda>gone.
     let v = (case gone of Some err \<Rightarrow> Inl err | None \<Rightarrow> v);
         v = (case v of
             Inl err \<Rightarrow> Inl err
           | Inr claim \<Rightarrow>
               if int (length (cl_Output claim)) > lim_OutputBytes (rq_Limits (job_Request j))
                  \<or> cl_Units claim < 0 \<or> cl_Units claim > lim_Units (rq_Limits (job_Request j))
               then Inl ErrLimit else Inr claim)
     in case v of
          Inl err \<Rightarrow> retI (Inl err)
        | Inr claim \<Rightarrow> bindI (time_Now w) (\<lambda>at. retI
            (case rn_policy R j c at of Inl _ \<Rightarrow> Inl ErrDenied | Inr _ \<Rightarrow> Inr claim)))"

definition conclude :: "marshal \<Rightarrow> world \<Rightarrow> Runner \<Rightarrow> Job \<Rightarrow> Claim \<Rightarrow> (Outcome \<times> error option) io" where
  "conclude mj w R j claim =
     bindI (time_Now w) (\<lambda>at.
     let report = \<lparr>rep_At = at, rep_Reason = OK, rep_Digest = digest (cl_Output claim), rep_Units = cl_Units claim\<rparr>
     in bindI (send_report mj w j report) (\<lambda>sent. case sent of
          Inl err \<Rightarrow> bindI (uncertain w R j (reason (Inl err))) (\<lambda>(out, e).
            retI (out, Some (join_errors err e)))
        | Inr (applied, dup) \<Rightarrow> retI (\<lparr>out_Disposition = (if dup then Duplicate else Reported), out_Reason = OK,
            out_Applied = applied, out_Report = report, out_Output = cl_Output claim\<rparr>, None)))"

definition dispatch :: "marshal \<Rightarrow> world \<Rightarrow> Runner \<Rightarrow> Capabilities \<Rightarrow> Job \<Rightarrow> (Outcome \<times> error option) io" where
  "dispatch mj w R c j =
     bindI (heartbeat mj w R c j False 0) (\<lambda>(gate, beats). case gate of
       Inl err \<Rightarrow> uncertain w R j (reason (Inl err))
     | Inr _ \<Rightarrow> bindI (run_script (heartbeat mj w R c j False) w (wk_Run (rn_worker R) j) beats) (\<lambda>(v, beats).
       bindI (check_claim w R c j v) (\<lambda>v. case v of
         Inl err \<Rightarrow> uncertain w R j (reason (Inl err))
       | Inr claim \<Rightarrow> conclude mj w R j claim)))"

definition Execute :: "marshal \<Rightarrow> world \<Rightarrow> Runner \<Rightarrow> Request \<Rightarrow> (Outcome \<times> error option) io" where
  "Execute mj w R req =
     bindI (offer mj w R req) (\<lambda>x. case x of
       Inl early \<Rightarrow> retI early
     | Inr (j, c) \<Rightarrow> dispatch mj w R c j)"

section \<open>Runs of the runner are work of the store\<close>

text \<open>Between two accesses, others do work on the store.\<close>

definition fair :: "marshal \<Rightarrow> world \<Rightarrow> bool" where
  "fair mj w \<longleftrightarrow> (\<forall>n r. works mj r (o_Others w n r))"

text \<open>\<open>toils w m\<close>: the action leads the repository by work only, whatever the context and the clock answer.\<close>

definition toils :: "marshal \<Rightarrow> 'a io \<Rightarrow> bool" where
  "toils mj m \<longleftrightarrow> (\<forall>h x h'. m h = (x, h') \<longrightarrow> works mj (h_Repo h) (h_Repo h'))"

lemma toilsD: "toils mj m \<Longrightarrow> m h = (x, h') \<Longrightarrow> works mj (h_Repo h) (h_Repo h')"
  by (auto simp: toils_def)

lemma works_trans: "works mj r1 r2 \<Longrightarrow> works mj r0 r1 \<Longrightarrow> works mj r0 r2"
  by (induction rule: works.induct) (auto intro: works_step)

lemma toils_ret [intro]: "toils mj (retI x)"
  by (simp add: toils_def retI_def works_refl)

lemma toils_bind [intro]: "toils mj m \<Longrightarrow> (\<And>x. toils mj (f x)) \<Longrightarrow> toils mj (bindI m f)"
  unfolding toils_def bindI_def by (auto split: prod.splits) (metis works_trans)

lemma toils_time [intro]: "toils mj (time_Now w)"
  by (simp add: toils_def time_Now_def works_refl)

lemma toils_ctx [intro]: "toils mj (ctx_Err w)"
  by (simp add: toils_def ctx_Err_def works_refl)

lemma toils_store:
  assumes "fair mj w" and "\<And>ctx clock r x r'. f ctx clock r = (x, r') \<Longrightarrow> works mj r r'"
  shows "toils mj (on_store w f)"
  using assms unfolding toils_def on_store_def fair_def by (auto split: prod.splits) (metis works_trans)

lemma works_one: "work mj r r' \<Longrightarrow> works mj r r'"
  by (rule works_step[OF works_refl])

lemma memory_View_same: "memory_View ctx m r = (x, r') \<Longrightarrow> r' = r"
  by (auto simp: memory_View_def memory_run_def split: option.splits if_splits prod.splits sum.splits)

lemma readValue_same: "readValue ctx m r = (x, r') \<Longrightarrow> r' = r"
  unfolding readValue_def by (rule memory_View_same)

lemma toils_read:
  assumes "fair mj w" and "\<And>ctx clock r x r'. f ctx clock r = (x, r') \<Longrightarrow> r' = r"
  shows "toils mj (on_store w f)"
  by (rule toils_store[OF assms(1)]) (metis assms(2) works_refl)

lemma toils_process: "fair mj w \<Longrightarrow> toils mj (process mj w env f)"
  unfolding process_def
  by (rule toils_store) (auto split: prod.splits intro: works_one work.process)

lemma toils_GetOperation: "fair mj w \<Longrightarrow> toils mj (on_store w (\<lambda>ctx clock. store_GetOperation ctx ident))"
  by (erule toils_read) (auto simp: store_GetOperation_def dest: readValue_same)

lemma toils_GetAttempt: "fair mj w \<Longrightarrow> toils mj (on_store w (\<lambda>ctx clock. store_GetAttempt ctx ident))"
  by (erule toils_read) (auto simp: store_GetAttempt_def dest: readValue_same)

lemma toils_InvalidateAttempt: "fair mj w \<Longrightarrow>
    toils mj (on_store w (\<lambda>ctx clock. store_InvalidateAttempt ctx clock ident rvn aid loss rec now))"
  by (erule toils_store) (auto intro: works_one work.invalidate)

lemmas toils_simple = toils_ret toils_time toils_ctx toils_GetOperation toils_GetAttempt toils_InvalidateAttempt

lemma toils_check_offer: "fair mj w \<Longrightarrow> toils mj (check_offer w R req c j opn now)"
  unfolding check_offer_def Let_def
  by (intro toils_bind toils_simple)
     (auto intro!: toils_bind toils_simple)

lemma toils_offer: "fair mj w \<Longrightarrow> toils mj (offer mj w R req)"
  unfolding offer_def Let_def
  by (auto intro!: toils_bind toils_simple toils_check_offer toils_process split: sum.split option.split)

lemma toils_heartbeat: "fair mj w \<Longrightarrow> toils mj (heartbeat mj w R c j closed beats)"
  unfolding heartbeat_def Let_def
  by (auto intro!: toils_bind toils_simple toils_process split: sum.split option.split)

lemma toils_script: "(\<And>n. toils mj (beat n)) \<Longrightarrow> toils mj (run_script beat w s n)"
proof (induction s arbitrary: n)
  case (Heartbeat k)
  then show ?case by (auto intro!: toils_bind split: prod.split)
next
  case (AskCtx k)
  then show ?case by (auto intro!: toils_bind toils_simple)
qed (auto intro: toils_simple)

lemma toils_uncertain: "fair mj w \<Longrightarrow> toils mj (uncertain w R j why)"
  unfolding uncertain_def Let_def
  by (auto intro!: toils_bind toils_simple split: sum.split)

lemma toils_send_report: "fair mj w \<Longrightarrow> toils mj (send_report mj w j v)"
  unfolding send_report_def Let_def
  by (auto intro!: toils_bind toils_simple toils_process split: sum.split)

lemma toils_check_claim: "toils mj (check_claim w R c j v)"
  unfolding check_claim_def Let_def
  by (auto intro!: toils_bind toils_simple split: sum.split)

lemma toils_conclude: "fair mj w \<Longrightarrow> toils mj (conclude mj w R j claim)"
  unfolding conclude_def Let_def
  by (auto intro!: toils_bind toils_simple toils_send_report toils_uncertain split: sum.split prod.split)

lemma toils_dispatch: "fair mj w \<Longrightarrow> toils mj (dispatch mj w R c j)"
  unfolding dispatch_def
  by (auto intro!: toils_bind toils_heartbeat toils_uncertain toils_script toils_check_claim toils_conclude
      split: sum.split prod.split)

lemma toils_Execute: "fair mj w \<Longrightarrow> toils mj (Execute mj w R req)"
  unfolding Execute_def
  by (auto intro!: toils_bind toils_offer toils_simple toils_dispatch split: sum.split prod.split)

end
