(* ===== verification/Dispatch.thy ===== *)
theory Dispatch
  imports Runner
begin

text \<open>
  What a run of \<open>Execute\<close> establishes: the worker is started only behind a committed offer that gave it
  authority, an offer is dispatched at most once, a report is applied only with its evidence, and a
  lost worker's authority is revoked.
\<close>

section \<open>Messages with their callbacks\<close>

lemma bindI_eq: "bindI m f h = (y, h') \<longleftrightarrow> (\<exists>x h1. m h = (x, h1) \<and> f x h1 = (y, h'))"
  by (auto simp: bindI_def split: prod.splits)

lemma retI_eq: "retI x h = (y, h') \<longleftrightarrow> y = x \<and> h' = h"
  by (auto simp: retI_def)

text \<open>An early return was not taken.\<close>

lemma early_sum: "(case x of Inl e \<Rightarrow> retI (Inl (f e)) | Inr u \<Rightarrow> m u) h = (Inr z, h') \<longleftrightarrow>
    (\<exists>u. x = Inr u \<and> m u h = (Inr z, h'))"
  by (auto simp: retI_eq split: sum.splits)

lemma early_option: "(case x of None \<Rightarrow> m | Some e \<Rightarrow> retI (Inl (f e))) h = (Inr z, h') \<longleftrightarrow>
    x = None \<and> m h = (Inr z, h')"
  by (auto simp: retI_eq split: option.splits)

lemma early_if: "(if b then retI (Inl y) else m) h = (Inr z, h') \<longleftrightarrow> \<not> b \<and> m h = (Inr z, h')"
  by (auto simp: retI_eq)

lemmas early_return = early_sum early_option early_if

lemma time_Now_repo: "time_Now w h = (t, h') \<Longrightarrow> h_Repo h' = h_Repo h"
  by (auto simp: time_Now_def)

lemma ctx_Err_repo: "ctx_Err w h = (e, h') \<Longrightarrow> h_Repo h' = h_Repo h"
  by (auto simp: ctx_Err_def)

lemma exec_call:
  assumes "run_callback mj (Call c k) t = (Inr (), t')" and "t_failed t' = None"
  obtains reply t1 where "t_call mj c t = (Inr reply, t1)" and "run_callback mj (k (Inr reply)) t1 = (Inr (), t')"
proof -
  obtain x t1 where one: "t_call mj c t = (x, t1)" by fastforce
  show ?thesis
  proof (cases x)
    case (Inl e)
    from t_call_error[OF one[unfolded Inl]] obtain e1 where "t_failed t1 = Some e1" by blast
    from run_callback_failed[OF this, of mj "k x"] this one assms show ?thesis by fastforce
  next
    case (Inr reply)
    with that[of reply t1] one assms(1) show ?thesis by simp
  qed
qed

text \<open>A message that was new: its receipt was written, then its callback ran to its end without error.\<close>

lemma process_new:
  assumes "process mj w env f h = ((Inr False, replies), h')"
  obtains clock r t1 t where "r = o_Others w (h_Tick h) (h_Repo h)"
    and "ProcessMessage mj (o_Ctx w (h_Tick h)) clock env (Some f) r = (Inr False, h_Repo h')"
    and "registerMessage mj clock env \<lparr>tx_d = repo_d r, tx_write = True\<rparr> = (Inr False, t_tx t1)"
    and "t_failed t1 = None" and "t_now t1 = time_UTC clock"
    and "run_callback mj f t1 = (Inr (), t)" and "t_failed t = None"
    and "repo_d (h_Repo h') = tx_d (t_tx t)" and "replies = callback_replies mj f t1"
proof -
  let ?r = "o_Others w (h_Tick h) (h_Repo h)" and ?clock = "o_Now w (h_Tick h)"
  from assms have run: "ProcessMessage mj (o_Ctx w (h_Tick h)) ?clock env (Some f) ?r = (Inr False, h_Repo h')"
    and replies: "replies = message_replies mj ?clock env f ?r"
    by (auto simp: process_def on_store_def split: prod.splits)
  from writeValue_ok[OF run[unfolded ProcessMessage_def]] obtain t where
    pm: "process_message mj env (Some f) (opened ?r ?clock) = (Inr False, t)"
    and t: "t_failed t = None" "h_Repo h' = ?r\<lparr>repo_d := tx_d (t_tx t)\<rparr>"
    by (auto simp: opened_def)
  from pm obtain t1 where reg: "t_RegisterMessage mj env (opened ?r ?clock) = (Inr False, t1)"
    and cb: "run_callback mj f t1 = (Inr (), t)"
    by (auto simp: process_message_def split: prod.splits sum.splits if_splits)
  from reg have "registerMessage mj ?clock env \<lparr>tx_d = repo_d ?r, tx_write = True\<rparr> = (Inr False, t_tx t1)"
    "t_failed t1 = None" "t_now t1 = time_UTC ?clock"
    by (auto simp: t_RegisterMessage_def exported_Inr opened_def)
  with that[of ?r ?clock t1 t] run cb t reg replies show ?thesis by (simp add: message_replies_def)
qed

text \<open>A message that was a duplicate changed nothing: its receipt was there.\<close>

lemma process_duplicate:
  assumes "process mj w env f h = ((Inr True, replies), h')"
  shows "\<exists>m. fmlookup (d_messages (repo_d (h_Repo h'))) (env_MessageID env) = Some m"
proof -
  let ?r = "o_Others w (h_Tick h) (h_Repo h)" and ?clock = "o_Now w (h_Tick h)"
  from assms have run: "ProcessMessage mj (o_Ctx w (h_Tick h)) ?clock env (Some f) ?r = (Inr True, h_Repo h')"
    by (auto simp: process_def on_store_def split: prod.splits)
  from writeValue_ok[OF run[unfolded ProcessMessage_def]] obtain t where
    pm: "process_message mj env (Some f) (opened ?r ?clock) = (Inr True, t)"
    and h': "repo_d (h_Repo h') = tx_d (t_tx t)"
    by (auto simp: opened_def)
  from pm have "t_RegisterMessage mj env (opened ?r ?clock) = (Inr True, t)"
    by (auto simp: process_message_def split: prod.splits sum.splits if_splits)
  then have "registerMessage mj ?clock env \<lparr>tx_d = repo_d ?r, tx_write = True\<rparr> = (Inr True, t_tx t)"
    by (auto simp: t_RegisterMessage_def exported_Inr opened_def)
  from registerMessage_Inr[OF this] show ?thesis by (auto simp: h')
qed

lemma new_message_data:
  assumes "registerMessage mj clock env \<lparr>tx_d = d, tx_write = True\<rparr> = (Inr False, s)" and "integrity d"
  shows "integrity (tx_d s)" "tx_write s"
    "d_ops (tx_d s) = d_ops d" "d_attempts (tx_d s) = d_attempts d" "d_tasks (tx_d s) = d_tasks d"
    "d_evidence (tx_d s) = d_evidence d" "d_revocations (tx_d s) = d_revocations d"
    "fmlookup (d_messages (tx_d s)) (env_MessageID env) \<noteq> None"
    "fmlookup (d_messages d) (env_MessageID env) = None"
proof -
  show "integrity (tx_d s)" using goodD[OF good_registerMessage _ assms(1)] assms(2) by simp
qed (use registerMessage_Inr[OF assms(1)] in auto)

section \<open>The offer\<close>

text \<open>What the worker is given when it is started.\<close>

definition commissioned :: "Runner \<Rightarrow> Request \<Rightarrow> Job \<Rightarrow> data \<Rightarrow> bool" where
  "commissioned R req j d \<longleftrightarrow>
     job_Request j = req \<and> job_Worker j = cap_Worker (wk_Capabilities (rn_worker R))
     \<and> holds_authority d (rq_OperationID req) (rq_AttemptID req) (rq_LeaseID req) (job_Generation j) (job_Worker j)
     \<and> (\<exists>opn. fmlookup (d_ops d) (rq_OperationID req) = Some opn \<and> op_State opn = OperationExecuting
          \<and> op_Descriptor opn = job_Descriptor j)
     \<and> (\<exists>e. fmlookup (d_evidence d) (rq_AttemptID req @ ''/accepted'') = Some e
          \<and> ev_Kind e = KindPolicyDecision \<and> ev_SourceActorID e = rn_controller R)"

lemma commissionedD:
  assumes "commissioned R req j d" and "integrity d"
  shows "job_Request j = req" "job_Worker j = cap_Worker (wk_Capabilities (rn_worker R))"
    "od_ID (job_Descriptor j) = rq_OperationID req"
proof -
  show "job_Request j = req" "job_Worker j = cap_Worker (wk_Capabilities (rn_worker R))"
    using assms(1) by (simp_all add: commissioned_def)
  from assms(1) obtain opn where "fmlookup (d_ops d) (rq_OperationID req) = Some opn" "op_Descriptor opn = job_Descriptor j"
    by (auto simp: commissioned_def)
  with integrityD(1)[OF assms(2) this(1)] show "od_ID (job_Descriptor j) = rq_OperationID req"
    by (simp add: op_row_def)
qed

lemma accept_callback:
  assumes I: "integrity (tx_d (t_tx t1))"
    and run: "run_callback mj (offer_callback R req c j now (Inr ())) t1 = (Inr (), t)" and ok: "t_failed t = None"
    and c: "cap_Worker c = cap_Worker (wk_Capabilities (rn_worker R))" and j: "job_Request j = req" "job_Worker j = cap_Worker c"
    and desc: "\<And>opn. fmlookup (d_ops (tx_d (t_tx t1))) (rq_OperationID req) = Some opn \<Longrightarrow> op_Descriptor opn = job_Descriptor j"
  shows "commissioned R req (j\<lparr>job_Generation :=
    offered_generation (callback_replies mj (offer_callback R req c j now (Inr ())) t1)\<rparr>) (tx_d (t_tx t))"
proof -
  let ?rec = "job_record j (rq_AttemptID req @ ''/accepted'') KindPolicyDecision (rn_controller R) now ''accepted''"
  let ?start = "CStartAttempt (rq_OperationID req) (rq_Revision req) (rq_AttemptID req) (rq_LeaseID req)
    (cap_Worker c) (rq_RetryOf req) now"
  define k where "k = (\<lambda>r :: reply result. case r of Inl e \<Rightarrow> Finish (Inl e)
        | Inr _ \<Rightarrow> Call (CRegisterEvidence ?rec) (\<lambda>r. Finish (unit_of r)))"
  have cb: "offer_callback R req c j now (Inr ()) = Call ?start k"
    by (simp add: offer_callback_def k_def)
  from run ok obtain reply t2 where first: "t_call mj ?start t1 = (Inr reply, t2)"
    and rest: "run_callback mj (k (Inr reply)) t2 = (Inr (), t)"
    unfolding cb by (rule exec_call)
  from rest have "run_callback mj (Call (CRegisterEvidence ?rec) (\<lambda>r. Finish (unit_of r))) t2 = (Inr (), t)"
    by (simp add: k_def)
  then obtain reply2 where second: "t_call mj (CRegisterEvidence ?rec) t2 = (Inr reply2, t)"
    using ok by (rule exec_call) simp
  from first obtain nxt a s2 where start: "startAttempt (rq_OperationID req) (rq_Revision req) (rq_AttemptID req)
      (rq_LeaseID req) (cap_Worker c) (rq_RetryOf req) now (t_tx t1) = (Inr (nxt, a), s2)"
    and t2: "t2 = t1\<lparr>t_tx := s2\<rparr>" and reply: "reply = RStart nxt a"
    by (auto simp: mapR_Inr t_StartAttempt_def exported_Inr)
  from second have ev: "registerEvidence ?rec s2 = (Inr (), t_tx t)"
    by (auto simp: mapR_Inr t_RegisterEvidence_def exported_Inr t2)
  from startAttempt_starts[OF I start] obtain opn Rs where
    st: "starts (tx_d (t_tx t1)) (rq_OperationID req) opn nxt a Rs"
    and d2: "tx_d s2 = started (tx_d (t_tx t1)) (rq_OperationID req) nxt a Rs"
    and a: "att_ID a = rq_AttemptID req" "att_LeaseID a = rq_LeaseID req" "att_OwnerActorID a = cap_Worker c"
    by blast
  have I2: "integrity (tx_d s2)" using goodD[OF good_startAttempt I start] by blast
  have I3: "integrity (tx_d (t_tx t))" using goodD[OF good_registerEvidence I2 ev] by blast
  have tx: "tx_d (t_tx t) = d_evidence_update (fmupd (ev_ID ?rec) ?rec) (tx_d s2)"
    using registerEvidence_Inr(4)[OF ev] by simp
  have gen: "offered_generation (callback_replies mj (Call ?start k) t1) = att_LeaseGeneration a"
    using first reply by simp
  have "holds_authority (tx_d (t_tx t)) (rq_OperationID req) (rq_AttemptID req) (rq_LeaseID req)
      (att_LeaseGeneration a) (cap_Worker c)"
    unfolding holds_authority_iff[OF I3] using st a
    by (simp add: tx d2 starts_def live_def)
  then show ?thesis
    unfolding cb gen using st c j desc by (simp add: commissioned_def tx d2 starts_def job_record_def)
qed

lemma check_retry_cases: "check_retry req opn check prior = Inr check \<or> (\<exists>e. check_retry req opn check prior = Inl e)
    \<or> check_retry req opn check prior = Inr (Inl ErrDenied)"
  by (simp add: check_retry_def split: sum.split)

lemma check_offer_Inr:
  assumes "check_offer w R req c j opn now h = (Inr (Inr u), h')"
  shows "supports c j = Inr ()" "rn_policy R j c now = Inr ()" "wk_Accept (rn_worker R) j = Inr ()"
proof -
  define check where "check = bindR (supports c j) (\<lambda>_. rn_policy R j c now)"
  from assms obtain r h1 where final: "Inr (Inr u) = bindR r (\<lambda>chk. Inr (bindR chk (\<lambda>_. wk_Accept (rn_worker R) j)))"
    and m: "(if check = Inr () \<and> op_LeaseGeneration opn > 0 \<and> op_State opn = OperationReady
        then bindI (on_store w (\<lambda>ctx _. store_GetAttempt ctx (rq_RetryOf req))) (\<lambda>prior.
          retI (check_retry req opn check prior))
        else retI (Inr check)) h = (r, h1)"
    unfolding check_offer_def Let_def check_def[symmetric] by (auto simp: bindI_eq[of _ _ h] retI_eq)
  from m have early: "r = Inr check \<or> (\<exists>e. r = Inl e) \<or> r = Inr (Inl ErrDenied)"
  proof (cases "check = Inr () \<and> op_LeaseGeneration opn > 0 \<and> op_State opn = OperationReady")
    case True
    with m obtain prior where "r = check_retry req opn check prior"
      unfolding if_P[OF True] bindI_eq retI_eq by blast
    with check_retry_cases[of req opn check prior] show ?thesis by blast
  next
    case False
    from m show ?thesis unfolding if_not_P[OF False] retI_eq by blast
  qed
  from final obtain chk where "r = Inr chk" "bindR chk (\<lambda>_. wk_Accept (rn_worker R) j) = Inr u"
    by (cases r) (simp_all add: bindR_def)
  with early have "bindR check (\<lambda>_. wk_Accept (rn_worker R) j) = Inr u"
    by (auto simp: bindR_def)
  then show "supports c j = Inr ()" "rn_policy R j c now = Inr ()" "wk_Accept (rn_worker R) j = Inr ()"
    by (auto simp: check_def bindR_Inr)
qed

lemma GetOperation_found:
  "on_store w (\<lambda>ctx _. store_GetOperation ctx ident) h = (Inr opn, h') \<Longrightarrow>
     fmlookup (d_ops (repo_d (h_Repo h'))) ident = Some opn"
  by (auto simp: on_store_def store_GetOperation_def readValue_def memory_View_def memory_run_def tx_reads map_get_Inr
      split: prod.splits option.splits if_splits sum.splits)

lemma offer_Inr:
  assumes "offer mj w R req h = (Inr (j, c), h')" and "fair mj w"
  obtains now j0 h3 replies where "validate_request req now = Inr ()" and "c = wk_Capabilities (rn_worker R)"
    and "job_Request j0 = req" and "job_Worker j0 = cap_Worker c"
    and "\<exists>r opn. works mj (h_Repo h) r \<and> works mj r (h_Repo h3)
      \<and> fmlookup (d_ops (repo_d r)) (rq_OperationID req) = Some opn \<and> job_Descriptor j0 = op_Descriptor opn"
    and "j = j0\<lparr>job_Generation := offered_generation replies\<rparr>"
    and "supports c j0 = Inr ()" and "rn_policy R j0 c now = Inr ()" and "wk_Accept (rn_worker R) j0 = Inr ()"
    and "process mj w (offer_envelope R req c j0) (offer_callback R req c j0 now (Inr ())) h3 = ((Inr False, replies), h')"
    and "works mj (h_Repo h) (h_Repo h3)"
proof -
  from assms(1) obtain now h1 h2 h2' opn h3 sent replies check j0 where
    t: "time_Now w h = (now, h1)" and v: "validate_request req now = Inr ()"
    and e: "ctx_Err w h1 = (None, h2)"
    and g: "on_store w (\<lambda>ctx _. store_GetOperation ctx (rq_OperationID req)) h2 = (Inr opn, h2')"
    and c: "c = wk_Capabilities (rn_worker R)"
    and j0: "j0 = \<lparr>job_Request = req, job_Descriptor = op_Descriptor opn, job_Worker = cap_Worker c, job_Generation = 0\<rparr>"
    and chk: "check_offer w R req c j0 opn now h2' = (Inr (Inr check), h3)"
    and p: "process mj w (offer_envelope R req c j0) (offer_callback R req c j0 now (Inr check)) h3
      = ((Inr False, replies), h')"
    and j: "j = j0\<lparr>job_Generation := offered_generation replies\<rparr>"
    unfolding offer_def Let_def
    by (clarsimp simp: bindI_eq early_return retI_eq)
  have "works mj (h_Repo h) (h_Repo h2)"
    using time_Now_repo[OF t] ctx_Err_repo[OF e] by (simp add: works_refl)
  then have w2: "works mj (h_Repo h) (h_Repo h2')"
    using toilsD[OF toils_GetOperation[OF assms(2)] g] works_trans by blast
  have w3: "works mj (h_Repo h2') (h_Repo h3)"
    by (rule toilsD[OF toils_check_offer[OF assms(2)] chk])
  have found: "\<exists>r opn. works mj (h_Repo h) r \<and> works mj r (h_Repo h3)
      \<and> fmlookup (d_ops (repo_d r)) (rq_OperationID req) = Some opn \<and> job_Descriptor j0 = op_Descriptor opn"
    using w2 w3 GetOperation_found[OF g] by (intro exI[of _ "h_Repo h2'"] exI[of _ opn]) (simp add: j0)
  have "works mj (h_Repo h) (h_Repo h3)" using w2 w3 works_trans by blast
  with that[OF v c _ _ found j check_offer_Inr[OF chk] _ ] j0 p show ?thesis by simp
qed

lemma offer_commissions:
  assumes run: "offer mj w R req h = (Inr (j, c), h')" and "fair mj w" and I: "integrity (repo_d (h_Repo h))"
  shows "commissioned R req j (repo_d (h_Repo h'))"
proof (rule offer_Inr[OF run assms(2)])
  fix now j0 h3 replies
  assume c: "c = wk_Capabilities (rn_worker R)" and j0: "job_Request j0 = req" "job_Worker j0 = cap_Worker c"
    and j: "j = j0\<lparr>job_Generation := offered_generation replies\<rparr>"
    and p: "process mj w (offer_envelope R req c j0) (offer_callback R req c j0 now (Inr ())) h3
      = ((Inr False, replies), h')"
    and wk: "works mj (h_Repo h) (h_Repo h3)"
    and "\<exists>r opn. works mj (h_Repo h) r \<and> works mj r (h_Repo h3)
      \<and> fmlookup (d_ops (repo_d r)) (rq_OperationID req) = Some opn \<and> job_Descriptor j0 = op_Descriptor opn"
  then obtain r0 opn0 where r0: "works mj (h_Repo h) r0" "works mj r0 (h_Repo h3)"
    and opn0: "fmlookup (d_ops (repo_d r0)) (rq_OperationID req) = Some opn0" "job_Descriptor j0 = op_Descriptor opn0"
    by blast
  show ?thesis
  proof (rule process_new[OF p])
    fix clock r t1 t
    assume r: "r = o_Others w (h_Tick h3) (h_Repo h3)"
      and reg: "registerMessage mj clock (offer_envelope R req c j0) \<lparr>tx_d = repo_d r, tx_write = True\<rparr>
        = (Inr False, t_tx t1)"
      and cb: "run_callback mj (offer_callback R req c j0 now (Inr ())) t1 = (Inr (), t)" "t_failed t = None"
      and h': "repo_d (h_Repo h') = tx_d (t_tx t)"
      and replies: "replies = callback_replies mj (offer_callback R req c j0 now (Inr ())) t1"
    have "works mj (h_Repo h3) r" using assms(2) r by (simp add: fair_def)
    with wk r0 have w: "works mj (h_Repo h) r" "works mj r0 r" using works_trans by blast+
    have Ir: "integrity (repo_d r)" using works_good[OF w(1) I] by blast
    have "integrity (repo_d r0)" using works_good[OF r0(1) I] by blast
    then have "extends (repo_d r0) (repo_d r)" using works_good[OF w(2)] by blast
    from growsD[OF extendsD(2)[OF this] opn0(1)] have "op_Descriptor opn = job_Descriptor j0"
      if "fmlookup (d_ops (repo_d r)) (rq_OperationID req) = Some opn" for opn
      using that opn0(2) by (auto simp: op_le_def)
    then have "op_Descriptor opn = job_Descriptor j0"
      if "fmlookup (d_ops (tx_d (t_tx t1))) (rq_OperationID req) = Some opn" for opn
      using that new_message_data(3)[OF reg Ir] by simp
    from accept_callback[OF new_message_data(1)[OF reg Ir] cb _ j0 this] c
    show ?thesis by (simp add: h' j replies)
  qed
qed

text \<open>An offer with the id and the time of issue of one that was accepted is not accepted again.\<close>

lemma seen_not_new:
  assumes "seen mj env (repo_d r)" and "env_MessageID env' = env_MessageID env"
    and "env_IssuedAt env' = env_IssuedAt env"
  shows "registerMessage mj' clock env' \<lparr>tx_d = repo_d r, tx_write = True\<rparr> \<noteq> (Inr False, s)"
proof
  assume run: "registerMessage mj' clock env' \<lparr>tx_d = repo_d r, tx_write = True\<rparr> = (Inr False, s)"
  from registerMessage_window[OF run] registerMessage_Inr[OF run] assms show False
    by (auto simp: seen_def in_window_def)
qed

lemma offer_twice:
  assumes run: "offer mj w R req h = (Inr (j, c), h1)" and "fair mj w" and I: "integrity (repo_d (h_Repo h))"
    and later: "steps mj (h_Repo h1) (h_Repo h2)" and "fair mj w'"
  shows "offer mj w' R' req h2 \<noteq> (Inr (j', c'), h3)"
proof
  assume again: "offer mj w' R' req h2 = (Inr (j', c'), h3)"
  have "\<exists>env. env_MessageID env = rq_MessageID req \<and> env_IssuedAt env = rq_IssuedAt req \<and> seen mj env (repo_d (h_Repo h1))"
  proof (rule offer_Inr[OF run assms(2)])
    fix now j0 g replies
    assume p: "process mj w (offer_envelope R req c j0) (offer_callback R req c j0 now (Inr ())) g = ((Inr False, replies), h1)"
      and wk: "works mj (h_Repo h) (h_Repo g)"
    show ?thesis
    proof (rule process_new[OF p])
      fix clock r
      assume r: "r = o_Others w (h_Tick g) (h_Repo g)"
        and pm: "ProcessMessage mj (o_Ctx w (h_Tick g)) clock (offer_envelope R req c j0)
          (Some (offer_callback R req c j0 now (Inr ()))) r = (Inr False, h_Repo h1)"
      have "works mj (h_Repo g) r" using assms(2) r by (simp add: fair_def)
      with wk have "integrity (repo_d r)" using works_trans works_good[OF _ I] by blast
      from accepted_seen[OF this pm] show ?thesis
        by (intro exI[of _ "offer_envelope R req c j0"]) (simp add: offer_envelope_def event_def)
    qed
  qed
  then obtain env where env: "env_MessageID env = rq_MessageID req" "env_IssuedAt env = rq_IssuedAt req"
    and s1: "seen mj env (repo_d (h_Repo h1))" by blast
  show False
  proof (rule offer_Inr[OF again assms(5)])
    fix now j0 g replies
    assume p: "process mj w' (offer_envelope R' req c' j0) (offer_callback R' req c' j0 now (Inr ())) g = ((Inr False, replies), h3)"
      and wk: "works mj (h_Repo h2) (h_Repo g)"
    show False
    proof (rule process_new[OF p])
      fix clock r t1
      assume r: "r = o_Others w' (h_Tick g) (h_Repo g)"
        and reg: "registerMessage mj clock (offer_envelope R' req c' j0) \<lparr>tx_d = repo_d r, tx_write = True\<rparr> = (Inr False, t_tx t1)"
      have "works mj (h_Repo g) r" using assms(5) r by (simp add: fair_def)
      with wk have "steps mj (h_Repo h2) r" using works_trans works_steps by blast
      from seen.steps_P[OF this seen.steps_P[OF later s1]]
      have "seen mj env (repo_d r)" .
      from seen_not_new[OF this] env reg show False by (auto simp: offer_envelope_def event_def)
    qed
  qed
qed

section \<open>The run of the worker\<close>

lemma not_Inl_unit: "(\<forall>x1. (r :: unit result) \<noteq> Inl x1) \<longleftrightarrow> r = Inr ()"
  by (cases r) auto

lemma no_sum: "\<forall>x1. a \<noteq> Inl x1 \<Longrightarrow> \<forall>x2. a \<noteq> Inr x2 \<Longrightarrow> False"
  by (cases a) auto

lemma heartbeat_beats:
  assumes "heartbeat mj w R c j closed n h = ((r, n'), h')"
  shows "n' = n \<or> n' = Suc n \<and> n < MaxHeartbeats \<and> r = Inr ()"
  using assms unfolding heartbeat_def Let_def
  by (auto simp: bindI_eq retI_eq not_Inl_unit split: if_splits sum.splits option.splits prod.splits dest: no_sum)

text \<open>No worker, however it behaves, gets more than \<open>MaxHeartbeats\<close> heartbeats recorded.\<close>

lemma run_script_beats_max:
  assumes "run_script (heartbeat mj w R c j closed) w s n h = ((v, n'), h')"
  shows "n' \<le> max n MaxHeartbeats"
  using assms
proof (induction s arbitrary: n h)
  case (Heartbeat k)
  then obtain r n1 h1 where beat: "heartbeat mj w R c j closed n h = ((r, n1), h1)"
    and rest: "run_script (heartbeat mj w R c j closed) w (k r) n1 h1 = ((v, n'), h')"
    by (auto simp: bindI_eq split: prod.splits)
  from heartbeat_beats[OF beat] Heartbeat.IH[OF _ rest] show ?case by auto
next
  case (AskCtx k)
  then show ?case by (fastforce simp: bindI_eq)
qed (auto simp: retI_eq)

lemma late_heartbeat: "heartbeat mj w R c j True n h = ((Inl ErrStaleOwnership, n), h)"
  by (simp add: heartbeat_def retI_def)

text \<open>A claim that passed the controller's checks is within the limits of the request.\<close>

lemma check_claim_Inr:
  assumes "check_claim w R c j v h = (Inr claim, h')"
  shows "v = Inr claim" "within (rq_Limits (job_Request j)) claim"
  using assms unfolding check_claim_def Let_def within_def
  by (auto simp: bindI_eq retI_eq not_less not_Inl_unit split: if_splits sum.splits option.splits)

section \<open>The report\<close>

lemma beginVerification_effect:
  assumes "integrity (tx_d t)" and "beginVerification ident rvn now t = (Inr nxt, t')"
  shows "fmlookup (d_ops (tx_d t')) ident = Some nxt" "op_State nxt = OperationVerifying"
    "d_evidence (tx_d t') = d_evidence (tx_d t)"
proof -
  from assms(2) obtain opn as where opn: "fmlookup (d_ops (tx_d t)) ident = Some opn"
    and tr: "transition opn rvn OperationVerifying as now t = (Inr nxt, t')"
    and s: "suits (op_State opn) OperationVerifying as"
    by (rule beginVerification_Inr)
  from transition_moves[OF assms(1) opn tr s] transition_Inr(1)[OF tr]
  show "fmlookup (d_ops (tx_d t')) ident = Some nxt" "op_State nxt = OperationVerifying"
    "d_evidence (tx_d t') = d_evidence (tx_d t)"
    by (auto simp: Transition_Inr)
qed

text \<open>What a report leaves behind: the evidence always, the operation in verification when it was applied.\<close>

definition reported :: "Job \<Rightarrow> Report \<Rightarrow> bool \<Rightarrow> data \<Rightarrow> bool" where
  "reported j v applied d \<longleftrightarrow>
     (\<exists>e. fmlookup (d_evidence d) (rq_AttemptID (job_Request j) @ ''/result'') = Some e
        \<and> ev_Kind e = KindWorkerReport \<and> ev_SourceActorID e = job_Worker j \<and> ev_Digest e = rep_Digest v
        \<and> ev_AttemptID e = rq_AttemptID (job_Request j) \<and> ev_OperationID e = od_ID (job_Descriptor j))
     \<and> (applied \<longrightarrow> (\<exists>opn. fmlookup (d_ops d) (od_ID (job_Descriptor j)) = Some opn \<and> op_State opn = OperationVerifying))"

lemma report_effect:
  assumes p: "process mj w env (report_callback j (rq_AttemptID (job_Request j) @ ''/result'') v) h = ((Inr False, replies), h')"
    and "fair mj w" and I: "integrity (repo_d (h_Repo h))"
  shows "reported j v (reply_applied replies) (repo_d (h_Repo h'))"
proof (rule process_new[OF p])
  fix clock r t1 t
  let ?rec = "(job_record j (rq_AttemptID (job_Request j) @ ''/result'') KindWorkerReport (job_Worker j) (rep_At v)
      ''result_reported'')\<lparr>ev_Digest := rep_Digest v\<rparr>"
  let ?call = "CRecordWorkerReport ?rec (rq_LeaseID (job_Request j)) (job_Generation j) (rq_Deadline (job_Request j))"
  assume r: "r = o_Others w (h_Tick h) (h_Repo h)"
    and reg: "registerMessage mj clock env \<lparr>tx_d = repo_d r, tx_write = True\<rparr> = (Inr False, t_tx t1)"
    and cb: "run_callback mj (report_callback j (rq_AttemptID (job_Request j) @ ''/result'') v) t1 = (Inr (), t)"
      "t_failed t = None"
    and h': "repo_d (h_Repo h') = tx_d (t_tx t)"
    and replies: "replies = callback_replies mj (report_callback j (rq_AttemptID (job_Request j) @ ''/result'') v) t1"
  have "works mj (h_Repo h) r" using assms(2) r by (simp add: fair_def)
  then have Ir: "integrity (repo_d r)" using works_good[OF _ I] by blast
  have I1: "integrity (tx_d (t_tx t1))" by (rule new_message_data(1)[OF reg Ir])
  from cb obtain reply where call: "t_call mj ?call t1 = (Inr reply, t)"
    unfolding report_callback_def by (rule exec_call) simp
  then obtain b where rw: "recordWorkerReport (t_now t1) ?rec (rq_LeaseID (job_Request j)) (job_Generation j)
      (rq_Deadline (job_Request j)) (t_tx t1) = (Inr b, t_tx t)" and reply: "reply = RBool b"
    by (auto simp: mapR_Inr t_RecordWorkerReport_def exported_Inr)
  have applied: "reply_applied replies = b"
    using call reply by (simp add: replies report_callback_def)
  from rw show ?thesis
  proof (rule recordWorkerReport_Inr)
    fix opn t2
    assume ev: "registerEvidence ?rec (t_tx t1) = (Inr (), t2)" and no: "\<not> b \<longrightarrow> t_tx t = t2"
      and yes: "b \<longrightarrow> t_now t1 < rq_Deadline (job_Request j) \<and> op_State opn = OperationExecuting
        \<and> (\<exists>a. checkActive (ev_OperationID ?rec) a (rq_LeaseID (job_Request j)) (job_Generation j)
              (ev_SourceActorID ?rec) t2 = (Inr (), t2))
        \<and> (\<exists>nxt. beginVerification (ev_OperationID ?rec) (op_Revision opn) (t_now t1) t2 = (Inr nxt, t_tx t))"
    have I2: "integrity (tx_d t2)" using goodD[OF good_registerEvidence I1 ev] by blast
    have row: "fmlookup (d_evidence (tx_d t2)) (rq_AttemptID (job_Request j) @ ''/result'') = Some ?rec"
      using registerEvidence_Inr(4)[OF ev] by (simp add: job_record_def)
    show ?thesis
    proof (cases b)
      case False
      with no row show ?thesis unfolding reported_def applied h' by (simp add: job_record_def)
    next
      case True
      with yes obtain nxt where
        "beginVerification (od_ID (job_Descriptor j)) (op_Revision opn) (t_now t1) t2 = (Inr nxt, t_tx t)"
        by (auto simp: job_record_def)
      from beginVerification_effect[OF I2 this] row True show ?thesis
        unfolding reported_def applied h' by (simp add: job_record_def)
    qed
  qed
qed

section \<open>The loss\<close>

text \<open>The worker's attempt is revoked and the outcome of the operation is unknown.\<close>

definition abandoned :: "Job \<Rightarrow> data \<Rightarrow> bool" where
  "abandoned j d \<longleftrightarrow>
     fmlookup (d_revocations d) (rq_AttemptID (job_Request j)) \<noteq> None
     \<and> (\<exists>opn. fmlookup (d_ops d) (od_ID (job_Descriptor j)) = Some opn \<and> op_State opn = OperationUnknownOutcome)"

lemma abandoned_no_authority:
  "abandoned j d \<Longrightarrow> \<not> holds_authority d ident (rq_AttemptID (job_Request j)) lease gen owner"
  by (auto simp: abandoned_def holds_authority_def)

lemma uncertain_None:
  assumes run: "uncertain w R j why h = ((out, None), h')" and "fair mj w" and I: "integrity (repo_d (h_Repo h))"
  shows "abandoned j (repo_d (h_Repo h'))"
proof -
  define rec where "rec now = job_record j (rq_AttemptID (job_Request j) @ ''/lost'') KindProcessObservation
      (rn_controller R) now (reason_text why)" for now
  define loss where "loss = (if why = TimedOut then LeaseExpired else OwnershipLost)"
  define inval where "inval opn now = on_store w (\<lambda>ctx clock. store_InvalidateAttempt ctx clock (od_ID (job_Descriptor j))
      (op_Revision opn) (rq_AttemptID (job_Request j)) loss (rec now) now)" for opn :: Operation and now
  note un = uncertain_def Let_def rec_def[symmetric] loss_def[symmetric] inval_def[symmetric]
  from run obtain found h1 where
    g: "on_store w (\<lambda>ctx _. store_GetOperation ctx (od_ID (job_Descriptor j))) h = (found, h1)"
    and rest: "(case found of Inl err \<Rightarrow> retI (plain_outcome Unknown why, Some err)
      | Inr opn \<Rightarrow>
        if op_ActiveAttemptID opn \<noteq> rq_AttemptID (job_Request j) then retI (plain_outcome Unknown why, Some ErrStaleOwnership)
        else bindI (time_Now w) (\<lambda>now. bindI (inval opn now)
          (\<lambda>r. retI (plain_outcome Unknown why, case r of Inl err \<Rightarrow> Some err | Inr _ \<Rightarrow> None)))) h1 = ((out, None), h')"
    unfolding un bindI_eq[of _ _ h] by blast
  from rest obtain opn where found: "found = Inr opn" by (cases found) (auto simp: retI_eq)
  from rest have "bindI (time_Now w) (\<lambda>now. bindI (inval opn now)
      (\<lambda>r. retI (plain_outcome Unknown why, case r of Inl err \<Rightarrow> Some err | Inr _ \<Rightarrow> None))) h1 = ((out, None), h')"
    by (simp add: found retI_eq split: if_splits)
  then obtain now h2 r where t: "time_Now w h1 = (now, h2)" and i0: "inval opn now h2 = (r, h')"
    and r: "None = (case r of Inl err \<Rightarrow> Some err | Inr _ \<Rightarrow> None)"
    unfolding bindI_eq retI_eq by blast
  from r obtain nxt where "r = Inr nxt" by (cases r) auto
  with i0 have i: "inval opn now h2 = (Inr nxt, h')" by simp
  have "works mj (h_Repo h) (h_Repo h1)" by (rule toilsD[OF toils_GetOperation[OF assms(2)] g])
  moreover have "works mj (h_Repo h2) (o_Others w (h_Tick h2) (h_Repo h2))"
    using assms(2) by (simp add: fair_def)
  ultimately have "works mj (h_Repo h) (o_Others w (h_Tick h2) (h_Repo h2))"
    using time_Now_repo[OF t] works_trans by metis
  then have I2: "integrity (repo_d (o_Others w (h_Tick h2) (h_Repo h2)))" using works_good[OF _ I] by blast
  from i obtain ctx clock where "store_InvalidateAttempt ctx clock (od_ID (job_Descriptor j)) (op_Revision opn)
      (rq_AttemptID (job_Request j)) loss (rec now) now (o_Others w (h_Tick h2) (h_Repo h2)) = (Inr nxt, h_Repo h')"
    unfolding inval_def on_store_def by (auto split: prod.splits)
  from writeValue_ok[OF this[unfolded store_InvalidateAttempt_def]] obtain s where
    inv: "invalidateAttempt (od_ID (job_Descriptor j)) (op_Revision opn) (rq_AttemptID (job_Request j)) loss (rec now) now
      \<lparr>tx_d = repo_d (o_Others w (h_Tick h2) (h_Repo h2)), tx_write = True\<rparr> = (Inr nxt, s)"
    and h': "repo_d (h_Repo h') = tx_d s"
    by (auto simp: t_InvalidateAttempt_def exported_Inr)
  show ?thesis
    by (rule invalidateAttempt_Inr[OF _ inv]) (simp_all add: I2 abandoned_def h')
qed

section \<open>Execute as a whole\<close>

text \<open>Whatever the world answers, the value of the action satisfies \<open>P\<close>.\<close>

definition always :: "('a \<Rightarrow> bool) \<Rightarrow> 'a io \<Rightarrow> bool" where
  "always P m \<longleftrightarrow> (\<forall>h x h'. m h = (x, h') \<longrightarrow> P x)"

lemma always_ret: "P x \<Longrightarrow> always P (retI x)"
  by (simp add: always_def retI_def)

lemma always_bind: "(\<And>x. always P (f x)) \<Longrightarrow> always P (bindI m f)"
  by (auto simp: always_def bindI_def split: prod.splits)

lemma alwaysD: "always P m \<Longrightarrow> m h = (x, h') \<Longrightarrow> P x"
  by (auto simp: always_def)

lemma uncertain_out: "always (\<lambda>(out, e). out = plain_outcome Unknown why) (uncertain w R j why)"
  unfolding uncertain_def Let_def
  by (auto intro!: always_bind always_ret split: sum.split)

lemma send_report_Inr:
  assumes "send_report mj w j v h = (Inr (applied, dup), h')"
  obtains env h1 replies where "h_Repo h1 = h_Repo h"
    and "process mj w env (report_callback j (rq_AttemptID (job_Request j) @ ''/result'') v) h1 = ((Inr dup, replies), h')"
    and "applied = reply_applied replies"
proof -
  define env where "env = event j (rq_AttemptID (job_Request j) @ ''/result'') ''operation.result_reported'' (job_Worker j)
      (rep_At v) [(''reason'', PString (reason_text (rep_Reason v))), (''digest'', PString (rep_Digest v)),
        (''units'', PInt (rep_Units v))]"
  define p where "p = process mj w env (report_callback j (rq_AttemptID (job_Request j) @ ''/result'') v)"
  define k where "k = (\<lambda>(sent :: bool result, replies). case sent of
            Inl err \<Rightarrow> retI (Inl err)
          | Inr duplicate \<Rightarrow> retI (Inr (reply_applied replies, duplicate :: bool)))"
  from assms obtain now h1 where t: "time_Now w h = (now, h1)" and body: "bindI p k h1 = (Inr (applied, dup), h')"
    unfolding send_report_def Let_def env_def[symmetric] p_def[symmetric] k_def[symmetric] bindI_eq[of _ _ h]
    by (auto simp: retI_eq split: if_splits)
  from body obtain sent replies h2 where p: "p h1 = ((sent, replies), h2)"
    and k: "k (sent, replies) h2 = (Inr (applied, dup), h')"
    unfolding bindI_eq by (metis prod.collapse)
  from k have "sent = Inr dup" "applied = reply_applied replies" "h2 = h'"
    by (cases sent; auto simp: k_def retI_eq)+
  with p time_Now_repo[OF t] that show ?thesis by (simp add: p_def)
qed

text \<open>A reported outcome: the claim is within the limits, and the store holds the report.\<close>

lemma conclude_Reported:
  assumes run: "conclude mj w R j claim h = ((out, e), h')" and "out_Disposition out = Reported"
    and "fair mj w" and I: "integrity (repo_d (h_Repo h))"
  shows "e = None" "out_Output out = cl_Output claim" "rep_Digest (out_Report out) = digest (cl_Output claim)"
    "reported j (out_Report out) (out_Applied out) (repo_d (h_Repo h'))"
proof -
  define rp where "rp at = \<lparr>rep_At = at, rep_Reason = OK, rep_Digest = digest (cl_Output claim),
      rep_Units = cl_Units claim\<rparr>" for at
  from run obtain at h1 sent h2 where t: "time_Now w h = (at, h1)"
    and s: "send_report mj w j (rp at) h1 = (sent, h2)"
    and rest: "(case sent of
          Inl err \<Rightarrow> bindI (uncertain w R j (reason (Inl err))) (\<lambda>(out, e). retI (out, Some (join_errors err e)))
        | Inr (applied, dup) \<Rightarrow> retI (\<lparr>out_Disposition = (if dup then Duplicate else Reported), out_Reason = OK,
            out_Applied = applied, out_Report = rp at, out_Output = cl_Output claim\<rparr>, None)) h2 = ((out, e), h')"
    unfolding conclude_def Let_def rp_def[symmetric] bindI_eq[of "time_Now w"] bindI_eq[of "send_report mj w j x" for x]
    by blast
  obtain applied where sent: "sent = Inr (applied, False)"
    and out: "out = \<lparr>out_Disposition = Reported, out_Reason = OK, out_Applied = applied, out_Report = rp at,
      out_Output = cl_Output claim\<rparr>" and e: "e = None" and h2: "h2 = h'"
  proof (cases sent)
    case (Inl err)
    with rest have "out = plain_outcome Unknown (reason (Inl err))"
      by (auto simp: bindI_eq retI_eq dest!: alwaysD[OF uncertain_out])
    with assms(2) show ?thesis by (simp add: plain_outcome_def)
  next
    case (Inr ad)
    with rest assms(2) that show ?thesis by (cases ad) (auto simp: retI_eq split: if_splits)
  qed
  show "e = None" by (rule e)
  show "out_Output out = cl_Output claim" "rep_Digest (out_Report out) = digest (cl_Output claim)"
    by (simp_all add: out rp_def)
  show "reported j (out_Report out) (out_Applied out) (repo_d (h_Repo h'))"
    using s[unfolded sent h2]
  proof (rule send_report_Inr)
    fix env h2 replies
    assume h2: "h_Repo h2 = h_Repo h1" and ap: "applied = reply_applied replies"
      and p: "process mj w env (report_callback j (rq_AttemptID (job_Request j) @ ''/result'') (rp at)) h2
        = ((Inr False, replies), h')"
    have "integrity (repo_d (h_Repo h2))" using I h2 time_Now_repo[OF t] by simp
    from report_effect[OF p assms(3) this] show ?thesis by (simp add: out ap)
  qed
qed

text \<open>A dispatch ends in a loss, or in the conclusion of a claim within the limits.\<close>

lemma dispatch_cases:
  assumes run: "dispatch mj w R c j h = (y, h')" and "fair mj w"
  obtains (lost) why h2 where "works mj (h_Repo h) (h_Repo h2)" and "uncertain w R j why h2 = (y, h')"
  | (claimed) claim h2 where "works mj (h_Repo h) (h_Repo h2)" and "within (rq_Limits (job_Request j)) claim"
      and "conclude mj w R j claim h2 = (y, h')"
proof -
  from run obtain gate n h1 where beat: "heartbeat mj w R c j False 0 h = ((gate, n), h1)"
    and rest: "(case gate of
       Inl err \<Rightarrow> uncertain w R j (reason (Inl err))
     | Inr _ \<Rightarrow> bindI (run_script (heartbeat mj w R c j False) w (wk_Run (rn_worker R) j) n) (\<lambda>(v, beats).
       bindI (check_claim w R c j v) (\<lambda>v. case v of
         Inl err \<Rightarrow> uncertain w R j (reason (Inl err))
       | Inr claim \<Rightarrow> conclude mj w R j claim))) h1 = (y, h')"
    unfolding dispatch_def bindI_eq[of _ _ h] by auto
  have w1: "works mj (h_Repo h) (h_Repo h1)" by (rule toilsD[OF toils_heartbeat[OF assms(2)] beat])
  show ?thesis
  proof (cases gate)
    case (Inl err)
    with rest lost w1 show ?thesis by simp
  next
    case (Inr u)
    with rest obtain v n2 h2 v2 h3 where
      script: "run_script (heartbeat mj w R c j False) w (wk_Run (rn_worker R) j) n h1 = ((v, n2), h2)"
      and chk: "check_claim w R c j v h2 = (v2, h3)"
      and last: "(case v2 of Inl err \<Rightarrow> uncertain w R j (reason (Inl err))
       | Inr claim \<Rightarrow> conclude mj w R j claim) h3 = (y, h')"
      by (auto simp: bindI_eq)
    have "works mj (h_Repo h1) (h_Repo h2)"
      by (rule toilsD[OF toils_script[OF toils_heartbeat[OF assms(2)]] script])
    moreover have "works mj (h_Repo h2) (h_Repo h3)" by (rule toilsD[OF toils_check_claim chk])
    ultimately have w3: "works mj (h_Repo h) (h_Repo h3)" using w1 works_trans by blast
    show ?thesis
    proof (cases v2)
      case (Inl err)
      with last lost w3 show ?thesis by simp
    next
      case (Inr claim)
      with check_claim_Inr(2)[OF chk[unfolded Inr]] last claimed w3 show ?thesis by simp
    qed
  qed
qed

lemma conclude_None_not_Unknown:
  "always (\<lambda>(out, e). e = None \<longrightarrow> out_Disposition out \<in> {Reported, Duplicate}) (conclude mj w R j claim)"
  unfolding conclude_def Let_def by (auto intro!: always_bind always_ret split: sum.split prod.split)

lemma offer_early: "always (\<lambda>x. case x of Inl (out, e) \<Rightarrow> out_Disposition out \<in> {NoDisposition, Rejected, Duplicate}
    | Inr _ \<Rightarrow> True) (offer mj w R req)"
  unfolding offer_def Let_def
  by (auto intro!: always_bind always_ret simp: plain_outcome_def split: sum.split option.split prod.split)

lemma Execute_Reported:
  assumes run: "Execute mj w R req h = ((out, e), h')" and out: "out_Disposition out = Reported"
    and "fair mj w" and I: "integrity (repo_d (h_Repo h))"
  obtains j where "job_Request j = req" and "job_Worker j = cap_Worker (wk_Capabilities (rn_worker R))"
    and "od_ID (job_Descriptor j) = rq_OperationID req" and "e = None" and "reported j (out_Report out) (out_Applied out) (repo_d (h_Repo h'))"
    and "within (rq_Limits req) \<lparr>cl_Output = out_Output out, cl_Units = 0\<rparr>"
    and "rep_Digest (out_Report out) = digest (out_Output out)"
proof -
  from run obtain x h1 where off: "offer mj w R req h = (x, h1)"
    and rest: "(case x of Inl early \<Rightarrow> retI early | Inr (j, c) \<Rightarrow> dispatch mj w R c j) h1 = ((out, e), h')"
    unfolding Execute_def bindI_eq[of _ _ h] by blast
  show ?thesis
  proof (cases x)
    case (Inl early)
    with rest alwaysD[OF offer_early off] out show ?thesis by (auto simp: retI_eq)
  next
    case (Inr jc)
    obtain j c where jc: "jc = (j, c)" by fastforce
    have "works mj (h_Repo h) (h_Repo h1)" by (rule toilsD[OF toils_offer[OF assms(3)] off])
    from works_good[OF this I] have I1: "integrity (repo_d (h_Repo h1))" by simp
    note req = commissionedD[OF offer_commissions[OF off[unfolded Inr jc] assms(3) I] I1]
    from rest have "dispatch mj w R c j h1 = ((out, e), h')" by (simp add: Inr jc)
    then show ?thesis
      using assms(3)
    proof (cases rule: dispatch_cases)
      case (lost why h2)
      from alwaysD[OF uncertain_out lost(2)] out show ?thesis by (simp add: plain_outcome_def)
    next
      case (claimed claim h2)
      have "integrity (repo_d (h_Repo h2))" using works_good[OF claimed(1) I1] by simp
      note r = conclude_Reported[OF claimed(3) out assms(3) this]
      from that[OF req r(1,4)] r(2,3) claimed(2) req(1) show ?thesis
        by (auto simp: within_def)
    qed
  qed
qed

lemma Execute_Unknown:
  assumes run: "Execute mj w R req h = ((out, None), h')" and out: "out_Disposition out = Unknown"
    and "fair mj w" and I: "integrity (repo_d (h_Repo h))"
  obtains j where "job_Request j = req" and "job_Worker j = cap_Worker (wk_Capabilities (rn_worker R))"
    and "od_ID (job_Descriptor j) = rq_OperationID req" and "abandoned j (repo_d (h_Repo h'))"
proof -
  from run obtain x h1 where off: "offer mj w R req h = (x, h1)"
    and rest: "(case x of Inl early \<Rightarrow> retI early | Inr (j, c) \<Rightarrow> dispatch mj w R c j) h1 = ((out, None), h')"
    unfolding Execute_def bindI_eq[of _ _ h] by blast
  show ?thesis
  proof (cases x)
    case (Inl early)
    with rest alwaysD[OF offer_early off] out show ?thesis by (auto simp: retI_eq)
  next
    case (Inr jc)
    obtain j c where jc: "jc = (j, c)" by fastforce
    have "works mj (h_Repo h) (h_Repo h1)" by (rule toilsD[OF toils_offer[OF assms(3)] off])
    from works_good[OF this I] have I1: "integrity (repo_d (h_Repo h1))" by simp
    note req = commissionedD[OF offer_commissions[OF off[unfolded Inr jc] assms(3) I] I1]
    from rest have "dispatch mj w R c j h1 = ((out, None), h')" by (simp add: Inr jc)
    then show ?thesis
      using assms(3)
    proof (cases rule: dispatch_cases)
      case (lost why h2)
      have "integrity (repo_d (h_Repo h2))" using works_good[OF lost(1) I1] by simp
      from that[OF req] uncertain_None[OF lost(2) assms(3) this] show ?thesis by blast
    next
      case (claimed claim h2)
      from alwaysD[OF conclude_None_not_Unknown claimed(3)] out show ?thesis by simp
    qed
  qed
qed

section \<open>Digests\<close>

lemma digest_shape:
  "length (digest s) = 71" "take 7 (digest s) = ''sha256:''" "hex_decodes (drop 7 (digest s))"
proof -
  have "is_hex_char c \<Longrightarrow> c \<in> set ''0123456789abcdefABCDEF''" for c by (auto simp: is_hex_char_def)
  then show "length (digest s) = 71" "take 7 (digest s) = ''sha256:''" "hex_decodes (drop 7 (digest s))"
    using sha256_hex_digits[of s] by (auto simp: digest_def hex_decodes_def list_all_iff)
qed

text \<open>A report that carries a digest of the controller is refused for its time or its units only.\<close>

lemma send_report_digest:
  assumes "rep_Digest v = digest s" and "rep_Reason v = OK"
  shows "send_report mj w j v = bindI (time_Now w) (\<lambda>now.
     if time_IsZero (rep_At v) \<or> rep_At v > now + Second \<or> rep_At v < rq_IssuedAt (job_Request j)
        \<or> rep_Units v < 0 \<or> rep_Units v > lim_Units (rq_Limits (job_Request j))
     then retI (Inl ErrInvalid)
     else bindI (process mj w (event j (rq_AttemptID (job_Request j) @ ''/result'') ''operation.result_reported''
            (job_Worker j) (rep_At v) [(''reason'', PString ''ok''), (''digest'', PString (rep_Digest v)),
              (''units'', PInt (rep_Units v))])
          (report_callback j (rq_AttemptID (job_Request j) @ ''/result'') v)) (\<lambda>(sent, replies). case sent of
            Inl err \<Rightarrow> retI (Inl err)
          | Inr duplicate \<Rightarrow> retI (Inr (reply_applied replies, duplicate))))"
  unfolding send_report_def Let_def by (simp add: assms digest_shape cong: if_cong)

section \<open>The local worker\<close>

text \<open>A claim of the local worker is one its provider returned, for the request of the job.\<close>

lemma Local_Run_claim:
  assumes run: "run_script beat w (Local_Run l j) n h = ((Inr cl, n'), h')"
    and gen: "\<And>r. prov_Generate (loc_provider l) r = AskCtx (\<lambda>e. Returns (G e r))"
  shows "\<exists>e. G e \<lparr>pr_Model = rq_Model (job_Request j), pr_Input = rq_Input (job_Request j),
             pr_Limits = rq_Limits (job_Request j)\<rparr> = Inr cl"
proof (cases "Local_Accept l j")
  case (Inl e)
  with run show ?thesis by (simp add: Local_Run_def retI_eq)
next
  case (Inr u)
  with run obtain r n1 h1 where "beat n h = ((r, n1), h1)"
    and rest: "run_script beat w (case r of Inl e \<Rightarrow> Returns (Inl e) | Inr _ \<Rightarrow> prov_Generate (loc_provider l)
        \<lparr>pr_Model = rq_Model (job_Request j), pr_Input = rq_Input (job_Request j),
         pr_Limits = rq_Limits (job_Request j)\<rparr>) n1 h1 = ((Inr cl, n'), h')"
    by (auto simp: Local_Run_def bindI_eq)
  from rest show ?thesis by (cases r) (auto simp: retI_eq gen bindI_eq dest: sym)
qed

end
