(* ===== verification/Reference.thy ===== *)
theory Reference
  imports Dispatch
begin

text \<open>
  Package \<open>internal/reference\<close>: \<open>Verify\<close>, the fixed verification policy of the reference fixture, on the
  same host as the runner.  It succeeds only on the expected bytes, seen by someone other than the
  worker, and then the operation has succeeded on evidence of that digest.
\<close>

section \<open>Verify (verify.go)\<close>

definition Input :: string where "Input = ''R5 synthetic reference''"
definition Target :: string where "Target = ''fixture/r5-v1''"
definition Reference_Policy :: string where "Reference_Policy = ''reference-check/v1''"

definition expected_output :: "Request \<Rightarrow> string result" where
  "expected_output req =
     (if rq_Provider req = ''test.echo'' \<and> rq_Model req = ''echo-v1'' then Inr Input
      else if rq_Provider req = ''test.digest'' \<and> rq_Model req = ''sha256-v1'' then Inr (sha256_hex Input)
      else Inl ErrUnsupported)"

definition verify_envelope :: "Request \<Rightarrow> Outcome \<Rightarrow> ActorID \<Rightarrow> Operation \<Rightarrow> string \<Rightarrow> string \<Rightarrow> Envelope" where
  "verify_envelope req out verifier opn ident dg = \<lparr>env_ProtocolVersion = ProtocolVersion, env_MessageID = ident,
     env_MessageType = MessageObservation, env_MessageName = ''verification.completed'',
     env_TaskID = od_TaskID (op_Descriptor opn), env_OperationID = od_ID (op_Descriptor opn),
     env_AttemptID = rq_AttemptID req, env_CorrelationID = rq_CorrelationID req, env_CausationID = rq_MessageID req,
     env_Actor = \<lparr>actor_ID = verifier, actor_Role = ''verifier''\<rparr>, env_IssuedAt = rep_At (out_Report out),
     env_DeadlineAt = None, env_Lease = None,
     env_Payload = [(''digest'', PString dg), (''policy'', PString Reference_Policy)], env_Extensions = []\<rparr>"

definition verify_record :: "Request \<Rightarrow> ActorID \<Rightarrow> Operation \<Rightarrow> string \<Rightarrow> string \<Rightarrow> go_time \<Rightarrow> Record" where
  "verify_record req verifier opn ident dg now = \<lparr>ev_ID = ident, ev_TaskID = od_TaskID (op_Descriptor opn),
     ev_OperationID = od_ID (op_Descriptor opn), ev_AttemptID = rq_AttemptID req, ev_Kind = KindTargetObservation,
     ev_SourceActorID = verifier, ev_ObservedAt = now, ev_SubjectRef = Target,
     ev_Summary = ''reference bytes matched'', ev_ArtifactRef = '''', ev_Digest = dg\<rparr>"

definition verify_verification :: "Request \<Rightarrow> ActorID \<Rightarrow> Operation \<Rightarrow> string \<Rightarrow> go_time \<Rightarrow> Verification" where
  "verify_verification req verifier opn ident now = \<lparr>ver_ID = ident, ver_OperationID = od_ID (op_Descriptor opn),
     ver_AttemptID = rq_AttemptID req, ver_PolicyRef = Reference_Policy, ver_EvidenceIDs = [ident],
     ver_Verdict = VerdictSatisfied, ver_RetryExecutionSafe = False,
     ver_ActualStateSummary = ''fixed synthetic result independently matched'', ver_VerifiedAt = now,
     ver_VerifierActorID = verifier\<rparr>"

definition verify_callback :: "Request \<Rightarrow> ActorID \<Rightarrow> Operation \<Rightarrow> string \<Rightarrow> string \<Rightarrow> go_time \<Rightarrow> callback" where
  "verify_callback req verifier opn ident dg now =
     Call (CRegisterEvidence (verify_record req verifier opn ident dg now)) (\<lambda>r. case r of
       Inl e \<Rightarrow> Finish (Inl e)
     | Inr _ \<Rightarrow> Call (CApplyVerification (od_ID (op_Descriptor opn)) (op_Revision opn)
           (verify_verification req verifier opn ident now) now) (\<lambda>r. Finish (unit_of r)))"

text \<open>The request, the outcome and the bytes; \<open>has_store\<close>: the store is not nil.\<close>

definition check_output :: "bool \<Rightarrow> Request \<Rightarrow> Outcome \<Rightarrow> ActorID \<Rightarrow> string result" where
  "check_output has_store req out verifier =
     (if \<not> has_store \<or> verifier = '''' \<or> rq_Input req \<noteq> Input \<or> rq_DataClass req \<noteq> ''synthetic''
         \<or> out_Disposition out \<noteq> Reported \<or> \<not> out_Applied out \<or> out_Reason out \<noteq> OK
         \<or> time_IsZero (rep_At (out_Report out))
      then Inl ErrInvalid
      else bindR (expected_output req) (\<lambda>expected.
        let dg = ''sha256:'' @ sha256_hex (out_Output out)
        in if out_Output out \<noteq> expected \<or> rep_Digest (out_Report out) \<noteq> dg
              \<or> rep_Units (out_Report out) \<noteq> int (length Input)
           then Inl ErrInvalid else Inr dg))"

text \<open>The operation and the attempt the report is about.\<close>

definition check_scope :: "Request \<Rightarrow> ActorID \<Rightarrow> Operation \<Rightarrow> Attempt \<Rightarrow> unit result" where
  "check_scope req verifier opn a =
     (if od_TargetRef (op_Descriptor opn) \<noteq> Target \<or> od_Name (op_Descriptor opn) \<noteq> ''analyze''
         \<or> od_EffectClass (op_Descriptor opn) \<noteq> EffectReadOnly
         \<or> od_VerificationPolicyRef (op_Descriptor opn) \<noteq> Reference_Policy
         \<or> att_OperationID a \<noteq> od_ID (op_Descriptor opn) \<or> att_LeaseID a \<noteq> rq_LeaseID req
         \<or> att_LeaseGeneration a \<noteq> op_LeaseGeneration opn \<or> verifier = att_OwnerActorID a
      then Inl ErrEvidenceScope
      else if op_State opn \<noteq> OperationSucceeded
         \<and> (op_State opn \<noteq> OperationVerifying \<or> op_ActiveAttemptID opn \<noteq> rq_AttemptID req)
        then Inl ErrStaleOwnership
      else Inr ())"

definition early :: "'a result \<Rightarrow> ('a \<Rightarrow> 'b result io) \<Rightarrow> 'b result io" where
  "early r k = (case r of Inl err \<Rightarrow> retI (Inl err) | Inr v \<Rightarrow> k v)"

definition Verify :: "marshal \<Rightarrow> world \<Rightarrow> bool \<Rightarrow> Request \<Rightarrow> Outcome \<Rightarrow> ActorID \<Rightarrow> Operation result io" where
  "Verify mj w has_store req out verifier =
     early (check_output has_store req out verifier) (\<lambda>dg.
     bindI (on_store w (\<lambda>ctx _. store_GetOperation ctx (rq_OperationID req))) (\<lambda>found. early found (\<lambda>opn.
     bindI (on_store w (\<lambda>ctx _. store_GetAttempt ctx (rq_AttemptID req))) (\<lambda>found. early found (\<lambda>a.
     early (check_scope req verifier opn a) (\<lambda>_.
     bindI (time_Now w) (\<lambda>now.
     let ident = rq_AttemptID req @ ''/reference-verification''
     in bindI (process mj w (verify_envelope req out verifier opn ident dg)
          (verify_callback req verifier opn ident dg now)) (\<lambda>(sent, _). early sent (\<lambda>_.
        on_store w (\<lambda>ctx _. store_GetOperation ctx (od_ID (op_Descriptor opn))))))))))))"

section \<open>What a verification means\<close>

lemma early_Inr: "early r k h = (Inr v, h') \<longleftrightarrow> (\<exists>x. r = Inr x \<and> k x h = (Inr v, h'))"
  by (auto simp: early_def retI_eq split: sum.splits)

lemma toils_early: "(\<And>x. toils mj (k x)) \<Longrightarrow> toils mj (early r k)"
  by (auto simp: early_def intro: toils_ret split: sum.split)

lemma toils_Verify: "fair mj w \<Longrightarrow> toils mj (Verify mj w has_store req out verifier)"
  unfolding Verify_def Let_def
  by (auto intro!: toils_early toils_bind toils_simple toils_process split: prod.split)

lemma check_output_Inr:
  "check_output has_store req out verifier = Inr dg \<longleftrightarrow>
     has_store \<and> verifier \<noteq> '''' \<and> rq_Input req = Input \<and> rq_DataClass req = ''synthetic''
     \<and> out_Disposition out = Reported \<and> out_Applied out \<and> out_Reason out = OK
     \<and> \<not> time_IsZero (rep_At (out_Report out)) \<and> expected_output req = Inr (out_Output out)
     \<and> rep_Digest (out_Report out) = dg \<and> dg = digest (out_Output out)
     \<and> rep_Units (out_Report out) = int (length Input)"
  by (auto simp: check_output_def bindR_Inr Let_def digest_def)

lemma check_scope_Inr:
  "check_scope req verifier opn a = Inr u \<longleftrightarrow>
     od_TargetRef (op_Descriptor opn) = Target \<and> od_Name (op_Descriptor opn) = ''analyze''
     \<and> od_EffectClass (op_Descriptor opn) = EffectReadOnly
     \<and> od_VerificationPolicyRef (op_Descriptor opn) = Reference_Policy
     \<and> att_OperationID a = od_ID (op_Descriptor opn) \<and> att_LeaseID a = rq_LeaseID req
     \<and> att_LeaseGeneration a = op_LeaseGeneration opn \<and> verifier \<noteq> att_OwnerActorID a
     \<and> (op_State opn = OperationSucceeded
        \<or> op_State opn = OperationVerifying \<and> op_ActiveAttemptID opn = rq_AttemptID req)"
  by (auto simp: check_scope_def)

lemma apply_effect:
  assumes I: "integrity (tx_d t)" and run: "applyVerification ident rvn v now t = (Inr u, t')"
  shows "fmlookup (d_ops (tx_d t')) ident = Some u" "op_State u = verdict_state (ver_Verdict v)"
    "fmlookup (d_verifications (tx_d t')) (ver_ID v) = Some v" "d_evidence (tx_d t') = d_evidence (tx_d t)"
proof -
  obtain opn as t1 where opn: "fmlookup (d_ops (tx_d t)) ident = Some opn"
    and t1: "t1 = t\<lparr>tx_d := d_verifications_update (fmupd (ver_ID v) v) (tx_d t)\<rparr>"
    and I1: "integrity (tx_d t1)" and s: "suits (op_State opn) (verdict_state (ver_Verdict v)) as"
    and tr: "transition opn rvn (verdict_state (ver_Verdict v)) as now t1 = (Inr u, t')"
    by (rule apply_verdict_stored[OF _ I run[unfolded applyVerification_def]]) simp
  have opn1: "fmlookup (d_ops (tx_d t1)) ident = Some opn" using opn by (simp add: t1)
  from transition_moves[OF I1 opn1 tr s] transition_Inr(1)[OF tr]
  show "fmlookup (d_ops (tx_d t')) ident = Some u" "op_State u = verdict_state (ver_Verdict v)"
    "fmlookup (d_verifications (tx_d t')) (ver_ID v) = Some v" "d_evidence (tx_d t') = d_evidence (tx_d t)"
    by (auto simp: Transition_Inr t1)
qed

text \<open>What a verification by this package leaves behind.\<close>

definition verified :: "Request \<Rightarrow> ActorID \<Rightarrow> string \<Rightarrow> data \<Rightarrow> bool" where
  "verified req verifier dg d \<longleftrightarrow>
     (\<exists>v. fmlookup (d_verifications d) (rq_AttemptID req @ ''/reference-verification'') = Some v
        \<and> ver_OperationID v = rq_OperationID req \<and> ver_Verdict v = VerdictSatisfied \<and> ver_VerifierActorID v = verifier)
     \<and> (\<exists>e. fmlookup (d_evidence d) (rq_AttemptID req @ ''/reference-verification'') = Some e
        \<and> ev_Kind e = KindTargetObservation \<and> ev_Digest e = dg \<and> ev_SourceActorID e = verifier)
     \<and> (\<exists>opn. fmlookup (d_ops d) (rq_OperationID req) = Some opn \<and> op_State opn = OperationSucceeded)"

lemma verified_works: "verified req verifier dg (repo_d r) \<Longrightarrow> works mj r r' \<Longrightarrow> integrity (repo_d r) \<Longrightarrow>
    verified req verifier dg (repo_d r')"
proof -
  assume v: "verified req verifier dg (repo_d r)" and w: "works mj r r'" and I: "integrity (repo_d r)"
  have ext: "extends (repo_d r) (repo_d r')" using works_good[OF w I] by simp
  have keep: "fmlookup (d_evidence (repo_d r')) k = Some e" if "fmlookup (d_evidence (repo_d r)) k = Some e" for k e
    using growsD[OF extendsD(4)[OF ext] that] by simp
  have keepv: "fmlookup (d_verifications (repo_d r')) k = Some e" if "fmlookup (d_verifications (repo_d r)) k = Some e" for k e
    using growsD[OF extendsD(5)[OF ext] that] by simp
  from v obtain opn where "fmlookup (d_ops (repo_d r)) (rq_OperationID req) = Some opn" "op_State opn = OperationSucceeded"
    by (auto simp: verified_def)
  moreover from works_settled[OF w I] have "\<forall>k opn0. fmlookup (d_ops (repo_d r)) k = Some opn0 \<longrightarrow> terminal_operation (op_State opn0)
      \<longrightarrow> (\<exists>opn. fmlookup (d_ops (repo_d r')) k = Some opn \<and> op_State opn = op_State opn0)"
    unfolding settled_def by (rule conjunct1)
  moreover have "terminal_operation OperationSucceeded" by (simp add: terminal_operation_def)
  ultimately have "\<exists>opn'. fmlookup (d_ops (repo_d r')) (rq_OperationID req) = Some opn' \<and> op_State opn' = OperationSucceeded"
    by fastforce
  moreover from v obtain vr where "fmlookup (d_verifications (repo_d r)) (rq_AttemptID req @ ''/reference-verification'') = Some vr"
    "ver_OperationID vr = rq_OperationID req" "ver_Verdict vr = VerdictSatisfied" "ver_VerifierActorID vr = verifier"
    by (auto simp: verified_def)
  moreover note keepv[OF this(1)]
  moreover from v obtain e where "fmlookup (d_evidence (repo_d r)) (rq_AttemptID req @ ''/reference-verification'') = Some e"
    "ev_Kind e = KindTargetObservation" "ev_Digest e = dg" "ev_SourceActorID e = verifier"
    by (auto simp: verified_def)
  moreover note keep[OF this(1)]
  ultimately show "verified req verifier dg (repo_d r')" by (simp add: verified_def)
qed

lemma verify_callback_effect:
  assumes I: "integrity (tx_d (t_tx t1))"
    and run: "run_callback mj (verify_callback req verifier opn (rq_AttemptID req @ ''/reference-verification'') dg now) t1
      = (Inr (), t)"
    and ok: "t_failed t = None" and ident: "od_ID (op_Descriptor opn) = rq_OperationID req"
  shows "verified req verifier dg (tx_d (t_tx t))"
proof -
  let ?id = "rq_AttemptID req @ ''/reference-verification''"
  let ?rec = "verify_record req verifier opn ?id dg now" and ?ver = "verify_verification req verifier opn ?id now"
  let ?apply = "CApplyVerification (od_ID (op_Descriptor opn)) (op_Revision opn) ?ver now"
  from run ok obtain reply t2 where first: "t_call mj (CRegisterEvidence ?rec) t1 = (Inr reply, t2)"
    and rest: "run_callback mj (Call ?apply (\<lambda>r. Finish (unit_of r))) t2 = (Inr (), t)"
    unfolding verify_callback_def by (rule exec_call) simp
  from rest ok obtain reply2 where second: "t_call mj ?apply t2 = (Inr reply2, t)" by (rule exec_call) simp
  from first have ev: "registerEvidence ?rec (t_tx t1) = (Inr (), t_tx t2)"
    by (auto simp: mapR_Inr t_RegisterEvidence_def exported_Inr)
  from second obtain u where ap: "applyVerification (rq_OperationID req) (op_Revision opn) ?ver now (t_tx t2) = (Inr u, t_tx t)"
    by (auto simp: mapR_Inr t_ApplyVerification_def exported_Inr ident)
  have I2: "integrity (tx_d (t_tx t2))" using goodD[OF good_registerEvidence I ev] by blast
  have "fmlookup (d_evidence (tx_d (t_tx t2))) ?id = Some ?rec"
    using registerEvidence_Inr(4)[OF ev] by (simp add: verify_record_def)
  with apply_effect[OF I2 ap] show ?thesis
    by (auto simp: verified_def verify_record_def verify_verification_def ident)
qed

lemma Verify_Inr:
  assumes run: "Verify mj w has_store req out verifier h = (Inr opn', h')" and "fair mj w"
    and I: "integrity (repo_d (h_Repo h))"
  shows "expected_output req = Inr (out_Output out)" "rep_Digest (out_Report out) = digest (out_Output out)"
    "\<exists>r a. works mj (h_Repo h) r \<and> fmlookup (d_attempts (repo_d r)) (rq_AttemptID req) = Some a \<and> att_OwnerActorID a \<noteq> verifier"
    "fmlookup (d_ops (repo_d (h_Repo h'))) (rq_OperationID req) = Some opn'"
    "verified req verifier (digest (out_Output out)) (repo_d (h_Repo h'))
      \<or> (\<exists>r. works mj (h_Repo h) r \<and> fmlookup (d_messages (repo_d r)) (rq_AttemptID req @ ''/reference-verification'') \<noteq> None)"
proof -
  let ?id = "rq_AttemptID req @ ''/reference-verification''"
  from run obtain dg opn a now h1 h2 h3 b replies h4 where
    chk: "check_output has_store req out verifier = Inr dg"
    and g: "on_store w (\<lambda>ctx _. store_GetOperation ctx (rq_OperationID req)) h = (Inr opn, h1)"
    and ga: "on_store w (\<lambda>ctx _. store_GetAttempt ctx (rq_AttemptID req)) h1 = (Inr a, h2)"
    and sc: "check_scope req verifier opn a = Inr ()"
    and t: "time_Now w h2 = (now, h3)"
    and p: "process mj w (verify_envelope req out verifier opn ?id dg) (verify_callback req verifier opn ?id dg now) h3
      = ((Inr b, replies), h4)"
    and last: "on_store w (\<lambda>ctx _. store_GetOperation ctx (od_ID (op_Descriptor opn))) h4 = (Inr opn', h')"
    unfolding Verify_def Let_def by (auto simp: early_Inr bindI_eq)
  note c = chk[unfolded check_output_Inr] and s = sc[unfolded check_scope_Inr]
  show "expected_output req = Inr (out_Output out)" "rep_Digest (out_Report out) = digest (out_Output out)"
    using c by simp_all
  have w1: "works mj (h_Repo h) (h_Repo h1)" by (rule toilsD[OF toils_GetOperation[OF assms(2)] g])
  have w2: "works mj (h_Repo h) (h_Repo h2)"
    using w1 toilsD[OF toils_GetAttempt[OF assms(2)] ga] works_trans by blast
  have w3: "works mj (h_Repo h) (h_Repo h3)" using w2 time_Now_repo[OF t] by simp
  have w4: "works mj (h_Repo h) (h_Repo h4)"
    using w3 toilsD[OF toils_process[OF assms(2)] p] works_trans by blast
  have w5: "works mj (h_Repo h4) (h_Repo h')" by (rule toilsD[OF toils_GetOperation[OF assms(2)] last])
  have "fmlookup (d_attempts (repo_d (h_Repo h2))) (rq_AttemptID req) = Some a"
    using ga by (auto simp: on_store_def store_GetAttempt_def readValue_def memory_View_def memory_run_def tx_reads
        map_get_Inr split: prod.splits option.splits if_splits sum.splits)
  with w2 s show "\<exists>r a. works mj (h_Repo h) r \<and> fmlookup (d_attempts (repo_d r)) (rq_AttemptID req) = Some a
      \<and> att_OwnerActorID a \<noteq> verifier" by metis
  have I1: "integrity (repo_d (h_Repo h1))" using works_good[OF w1 I] by simp
  have ident: "od_ID (op_Descriptor opn) = rq_OperationID req"
    using integrityD(1)[OF I1 GetOperation_found[OF g]] by (simp add: op_row_def)
  show "fmlookup (d_ops (repo_d (h_Repo h'))) (rq_OperationID req) = Some opn'"
    using GetOperation_found[OF last[unfolded ident]] .
  show "verified req verifier (digest (out_Output out)) (repo_d (h_Repo h'))
      \<or> (\<exists>r. works mj (h_Repo h) r \<and> fmlookup (d_messages (repo_d r)) ?id \<noteq> None)"
  proof (cases b)
    case True
    then have b: "b = True" by simp
    have "\<exists>m. fmlookup (d_messages (repo_d (h_Repo h4))) ?id = Some m"
      using process_duplicate[OF p[unfolded b]] by (simp add: verify_envelope_def)
    with w4 show ?thesis by blast
  next
    case False
    then have b: "b = False" by simp
    show ?thesis
    proof (rule process_new[OF p[unfolded b]])
      fix clock r t1 t4
      assume r: "r = o_Others w (h_Tick h3) (h_Repo h3)"
        and reg: "registerMessage mj clock (verify_envelope req out verifier opn ?id dg) \<lparr>tx_d = repo_d r, tx_write = True\<rparr>
          = (Inr False, t_tx t1)"
        and cb: "run_callback mj (verify_callback req verifier opn ?id dg now) t1 = (Inr (), t4)" "t_failed t4 = None"
        and h4: "repo_d (h_Repo h4) = tx_d (t_tx t4)"
      have "works mj (h_Repo h3) r" using assms(2) r by (simp add: fair_def)
      with w3 have "integrity (repo_d r)" using works_trans works_good[OF _ I] by blast
      from verify_callback_effect[OF new_message_data(1)[OF reg this] cb ident]
      have "verified req verifier (digest (out_Output out)) (repo_d (h_Repo h4))" using c by (simp add: h4)
      from verified_works[OF this w5] works_good[OF w4 I] show ?thesis by blast
    qed
  qed
qed

end
