(* ===== verification/Demo.thy ===== *)
theory Demo
  imports Reference
begin

text \<open>
  The concrete inputs at which the witnesses apply the properties: one task with one mutation, taken
  through its life by calls of the store, a message, and two workers that compete for a scope.
\<close>

definition demo_desc :: "OperationID \<Rightarrow> string list \<Rightarrow> OperationDescriptor" where
  "demo_desc ident scopes = \<lparr>od_ID = ident, od_TaskID = ''t'', od_Name = ''n'', od_TargetRef = ''x'',
     od_EffectClass = EffectMutation, od_ConflictScope = scopes, od_IdempotencyMode = IdempotencyIdempotent,
     od_VerificationPolicyRef = ''vp'', od_AuthorizationPolicyRef = ''ap''\<rparr>"

definition demo_marshal :: marshal where
  "demo_marshal env = Inr (env_MessageID env)"

text \<open>A mutation that has been started.\<close>

definition demo_task :: Repository where
  "demo_task = snd (store_CreateTask Background 1 ''t'' 1 memory_New)"

definition demo_planned :: Repository where
  "demo_planned = snd (store_CreateOperation Background 1 (demo_desc ''o'' [''s'']) 1 demo_task)"

definition demo_ready :: Repository where
  "demo_ready = snd (store_MarkReady Background 1 ''o'' 1 2 demo_planned)"

definition demo_running :: Repository where
  "demo_running = snd (store_StartAttempt Background 1 ''o'' 2 ''a'' ''l'' ''w'' '''' 3 demo_ready)"

definition demo_evidence :: "EvidenceID \<Rightarrow> Kind \<Rightarrow> Record" where
  "demo_evidence ident kind = \<lparr>ev_ID = ident, ev_TaskID = ''t'', ev_OperationID = ''o'',
     ev_AttemptID = ''a'', ev_Kind = kind, ev_SourceActorID = ''w'', ev_ObservedAt = 4,
     ev_SubjectRef = ''x'', ev_Summary = '''', ev_ArtifactRef = '''', ev_Digest = ''''\<rparr>"

text \<open>It is observed, verified and found done; the task is closed.\<close>

definition demo_observed :: Repository where
  "demo_observed = snd (store_RegisterEvidence Background 1 (demo_evidence ''e'' KindTargetObservation)
     demo_running)"

definition demo_verifying :: Repository where
  "demo_verifying = snd (store_BeginVerification Background 1 ''o'' 3 5 demo_observed)"

definition demo_verification :: "Verdict \<Rightarrow> Verification" where
  "demo_verification verdict = \<lparr>ver_ID = ''v'', ver_OperationID = ''o'', ver_AttemptID = ''a'',
     ver_PolicyRef = ''vp'', ver_EvidenceIDs = [''e''], ver_Verdict = verdict,
     ver_RetryExecutionSafe = False, ver_ActualStateSummary = '''', ver_VerifiedAt = 6,
     ver_VerifierActorID = ''q''\<rparr>"

definition demo_succeeded :: Repository where
  "demo_succeeded = snd (store_ApplyVerification Background 1 ''o'' 4 (demo_verification VerdictSatisfied) 6
     demo_verifying)"

definition demo_completed :: Repository where
  "demo_completed = snd (store_FinalizeTask Background 1 ''t'' 1 7 demo_succeeded)"

text \<open>Or the controller loses the worker.\<close>

definition demo_lost :: Repository where
  "demo_lost = snd (store_InvalidateAttempt Background 1 ''o'' 3 ''a'' LeaseExpired
     (demo_evidence ''f'' KindProcessObservation) 5 demo_running)"

text \<open>A message, issued a while after 1970.\<close>

definition demo_time :: go_time where "demo_time = 63000000000 * Second"

definition demo_env :: Envelope where
  "demo_env = \<lparr>env_ProtocolVersion = ''1.0'', env_MessageID = ''m'', env_MessageType = MessageEvent,
     env_MessageName = ''issue.opened'', env_TaskID = ''t'', env_OperationID = '''', env_AttemptID = '''',
     env_CorrelationID = ''c'', env_CausationID = '''', env_Actor = \<lparr>actor_ID = ''w'', actor_Role = ''r''\<rparr>,
     env_IssuedAt = demo_time, env_DeadlineAt = None, env_Lease = None, env_Payload = [], env_Extensions = []\<rparr>"

lemmas demo_repos =
  demo_task_def demo_planned_def demo_ready_def demo_running_def demo_observed_def demo_verifying_def
  demo_succeeded_def demo_completed_def demo_lost_def

lemma demo_reachable:
  "reachable mj demo_task" "reachable mj demo_planned" "reachable mj demo_ready"
  "reachable mj demo_running" "reachable mj demo_observed" "reachable mj demo_verifying"
  "reachable mj demo_succeeded" "reachable mj demo_completed" "reachable mj demo_lost"
proof -
  show 1: "reachable mj demo_task"
    unfolding demo_task_def
    by (rule reachable_step[OF reachable_New step_work[OF create_task[OF surjective_pairing]]])
  show 2: "reachable mj demo_planned"
    unfolding demo_planned_def
    by (rule reachable_step[OF 1 step_work[OF create_operation[OF surjective_pairing]]])
  show 3: "reachable mj demo_ready"
    unfolding demo_ready_def
    by (rule reachable_step[OF 2 step_work[OF mark_ready[OF surjective_pairing]]])
  show 4: "reachable mj demo_running"
    unfolding demo_running_def
    by (rule reachable_step[OF 3 step_work[OF start_attempt[OF surjective_pairing]]])
  show 5: "reachable mj demo_observed"
    unfolding demo_observed_def
    by (rule reachable_step[OF 4 step_work[OF register_evidence[OF surjective_pairing]]])
  show 6: "reachable mj demo_verifying"
    unfolding demo_verifying_def
    by (rule reachable_step[OF 5 step_work[OF begin_verification[OF surjective_pairing]]])
  show 7: "reachable mj demo_succeeded"
    unfolding demo_succeeded_def
    by (rule reachable_step[OF 6 step_work[OF apply_verification[OF surjective_pairing]]])
  show "reachable mj demo_completed"
    unfolding demo_completed_def
    by (rule reachable_step[OF 7 step_work[OF finalize[OF surjective_pairing]]])
  show "reachable mj demo_lost"
    unfolding demo_lost_def
    by (rule reachable_step[OF 4 step_work[OF invalidate[OF surjective_pairing]]])
qed


section \<open>A run of the runner\<close>

text \<open>
  A read-only analysis, made ready, that the local worker with the echo provider carries out under a
  matching grant; nobody else touches the store, and every observation takes a millisecond.  Digests
  are left unevaluated.
\<close>

declare sha256_hex_def [code del]

definition demo_analysis :: OperationDescriptor where
  "demo_analysis = \<lparr>od_ID = ''o'', od_TaskID = ''t'', od_Name = ''analyze'', od_TargetRef = ''fixture/r5-v1'',
     od_EffectClass = EffectReadOnly, od_ConflictScope = [], od_IdempotencyMode = IdempotencyIdempotent,
     od_VerificationPolicyRef = ''reference-check/v1'', od_AuthorizationPolicyRef = ''ap''\<rparr>"

definition demo_open :: Repository where
  "demo_open = snd (store_CreateTask Background 1 ''t'' 1 memory_New)"

definition demo_described :: Repository where
  "demo_described = snd (store_CreateOperation Background 1 demo_analysis 1 demo_open)"

definition demo_offered :: Repository where
  "demo_offered = snd (store_MarkReady Background 1 ''o'' 1 2 demo_described)"

lemma demo_offered_reachable: "reachable mj demo_offered"
  unfolding demo_offered_def demo_described_def demo_open_def
  by (rule reachable_step[OF reachable_step[OF reachable_step[OF reachable_New
        step_work[OF create_task[OF surjective_pairing]]]
      step_work[OF create_operation[OF surjective_pairing]]]
    step_work[OF mark_ready[OF surjective_pairing]]])

definition demo_world :: world where
  "demo_world = \<lparr>o_Now = \<lambda>n. demo_time + int n * 1000000, o_Done = \<lambda>n. None, o_Ctx = \<lambda>n. Background,
     o_Others = \<lambda>n r. r\<rparr>"

lemma demo_fair: "fair mj demo_world"
  by (simp add: fair_def demo_world_def works_refl)

definition demo_limits :: Limits where
  "demo_limits = \<lparr>lim_Duration = Minute, lim_InputBytes = 100, lim_OutputBytes = 100, lim_Units = 100\<rparr>"

definition demo_request :: Request where
  "demo_request = \<lparr>rq_Version = ''1.0'', rq_MessageID = ''m'', rq_OperationID = ''o'', rq_AttemptID = ''a'',
     rq_LeaseID = ''l'', rq_RetryOf = '''', rq_CorrelationID = ''c'', rq_Revision = 2, rq_IssuedAt = demo_time,
     rq_Deadline = demo_time + Minute, rq_Provider = ''test.echo'', rq_Model = ''echo-v1'',
     rq_DataClass = ''synthetic'', rq_Input = ''R5 synthetic reference'', rq_Limits = demo_limits\<rparr>"

definition demo_grant :: Grant where
  "demo_grant = \<lparr>gt_PolicyRef = ''ap'', gt_Worker = ''w'', gt_Provider = ''test.echo'', gt_Model = ''echo-v1'',
     gt_Action = ''analyze'', gt_Target = ''fixture/r5-v1'', gt_DataClass = ''synthetic'', gt_Effect = EffectReadOnly,
     gt_AllowExternal = False, gt_Expires = demo_time + Hour, gt_Limits = demo_limits\<rparr>"

definition demo_runner :: "Grant list \<Rightarrow> Runner" where
  "demo_runner grants = \<lparr>rn_controller = ''k'', rn_worker = Local_Worker \<lparr>loc_actor = ''w'', loc_provider = EchoProvider\<rparr>,
     rn_policy = ExactPolicy_Check grants\<rparr>"

definition demo_host :: host where
  "demo_host = \<lparr>h_Repo = demo_offered, h_Tick = 0\<rparr>"

lemma demo_host_reachable: "reachable mj (h_Repo demo_host)"
  by (simp add: demo_host_def demo_offered_reachable)

text \<open>With digests left symbolic, the checks of a report that carries one are decided by their shape.\<close>

lemma conclude_code [code]:
  "conclude mj w R j claim =
     bindI (time_Now w) (\<lambda>at.
     let report = \<lparr>rep_At = at, rep_Reason = OK, rep_Digest = digest (cl_Output claim), rep_Units = cl_Units claim\<rparr>
     in bindI (bindI (time_Now w) (\<lambda>now.
     if time_IsZero at \<or> at > now + Second \<or> at < rq_IssuedAt (job_Request j)
        \<or> cl_Units claim < 0 \<or> cl_Units claim > lim_Units (rq_Limits (job_Request j))
     then retI (Inl ErrInvalid)
     else bindI (process mj w (event j (rq_AttemptID (job_Request j) @ ''/result'') ''operation.result_reported''
            (job_Worker j) at [(''reason'', PString ''ok''), (''digest'', PString (digest (cl_Output claim))),
              (''units'', PInt (cl_Units claim))])
          (report_callback j (rq_AttemptID (job_Request j) @ ''/result'') report)) (\<lambda>(sent, replies). case sent of
            Inl err \<Rightarrow> retI (Inl err)
          | Inr duplicate \<Rightarrow> retI (Inr (reply_applied replies, duplicate))))) (\<lambda>sent. case sent of
          Inl err \<Rightarrow> bindI (uncertain w R j (reason (Inl err))) (\<lambda>(out, e).
            retI (out, Some (join_errors err e)))
        | Inr (applied, dup) \<Rightarrow> retI (\<lparr>out_Disposition = (if dup then Duplicate else Reported), out_Reason = OK,
            out_Applied = applied, out_Report = report, out_Output = cl_Output claim\<rparr>, None)))"
  unfolding conclude_def Let_def by (simp add: send_report_digest cong: if_cong)

end
