(* ===== verification/JsonText.thy ===== *)
theory JsonText
  imports GoStd
begin

text \<open>
  What the program uses of \<open>unicode/utf8\<close> and of the texts of \<open>encoding/json\<close>: UTF-8 validity, strings
  and numbers as \<open>json.Marshal\<close> writes them and as a \<open>Decoder\<close> reads them.  Strings are byte sequences.
\<close>

section \<open>UTF-8\<close>

definition code :: "char \<Rightarrow> nat" where "code c = of_char c"

lemma code_bound: "code c < 256"
  by (simp add: code_def)

lemma char_of_code [simp]: "char_of (code c) = c"
  by (simp add: code_def)

lemma code_char_of [simp]: "n < 256 \<Longrightarrow> code (char_of n) = n"
  by (simp add: code_def)

lemma code_eq [simp]: "code c = code d \<longleftrightarrow> c = d"
  by (simp add: code_def)

text \<open>
  The well-formed encodings of one code point, by the ranges of their bytes (table 3-7 of the Unicode
  standard).  \<open>rune_len s\<close> is the length of the one \<open>s\<close> begins with, 0 if there is none (\<open>DecodeRune\<close> with
  result \<open>RuneError\<close> and width at most 1).
\<close>

definition rune_forms :: "(nat \<times> nat) list list" where
  "rune_forms =
     [[(0, 127)],
      [(194, 223), (128, 191)],
      [(224, 224), (160, 191), (128, 191)],
      [(225, 236), (128, 191), (128, 191)],
      [(237, 237), (128, 159), (128, 191)],
      [(238, 239), (128, 191), (128, 191)],
      [(240, 240), (144, 191), (128, 191), (128, 191)],
      [(241, 243), (128, 191), (128, 191), (128, 191)],
      [(244, 244), (128, 143), (128, 191), (128, 191)]]"

fun of_form :: "(nat \<times> nat) list \<Rightarrow> string \<Rightarrow> bool" where
  "of_form [] s = True"
| "of_form (p # ps) [] = False"
| "of_form ((lo, hi) # ps) (c # s) = (lo \<le> code c \<and> code c \<le> hi \<and> of_form ps s)"

definition rune_len :: "string \<Rightarrow> nat" where
  "rune_len s = (case find (\<lambda>p. of_form p s) rune_forms of Some p \<Rightarrow> length p | None \<Rightarrow> 0)"

lemma rune_len_Nil [simp]: "rune_len [] = 0"
  by (simp add: rune_len_def rune_forms_def)

lemma rune_len_ascii [simp]: "code a < 128 \<Longrightarrow> rune_len (a # s) = 1"
  by (simp add: rune_len_def rune_forms_def)

lemma of_form_length: "of_form p s \<Longrightarrow> length p \<le> length s"
  by (induction p s rule: of_form.induct) auto

lemma of_form_take: "length p \<le> k \<Longrightarrow> k \<le> length s \<Longrightarrow> of_form p (take k s @ t) = of_form p s"
  by (induction p s arbitrary: k rule: of_form.induct) (auto simp: take_Cons split: nat.splits)

lemma rune_len_le: "rune_len s \<le> length s"
  by (auto simp: rune_len_def find_Some_iff dest!: of_form_length split: option.splits)

lemma find_sorted:
  assumes "sorted (map f ps)" "find P ps = Some p" "\<And>q. f q \<le> f p \<Longrightarrow> Q q = P q"
  shows "find Q ps = Some p"
  using assms
proof (induction ps)
  case (Cons a ps)
  show ?case
  proof (cases "P a")
    case False
    then have rest: "find P ps = Some p"
      using Cons.prems(2) by simp
    then have "p \<in> set ps"
      by (auto simp: find_Some_iff)
    then have "f a \<le> f p"
      using Cons.prems(1) by simp
    then show ?thesis
      using Cons.IH Cons.prems(1,3) rest False by simp
  qed (use Cons.prems in simp)
qed simp

lemma rune_len_take:
  assumes "rune_len s > 0"
  shows "rune_len (take (rune_len s) s @ t) = rune_len s"
proof -
  obtain p where p: "find (\<lambda>p. of_form p s) rune_forms = Some p"
    using assms by (auto simp: rune_len_def split: option.splits)
  then have k: "rune_len s = length p"
    by (simp add: rune_len_def)
  have "sorted (map length rune_forms)"
    by (simp add: rune_forms_def)
  then have "find (\<lambda>q. of_form q (take (length p) s @ t)) rune_forms = Some p"
    using p by (rule find_sorted) (use rune_len_le[of s] k in \<open>simp add: of_form_take\<close>)
  then have "rune_len (take (length p) s @ t) = length p"
    unfolding rune_len_def by (simp only: option.case)
  then show ?thesis
    unfolding k .
qed

lemma of_form_high: "of_form p s \<Longrightarrow> list_all (\<lambda>(lo, hi). 128 \<le> lo) p \<Longrightarrow> list_all (\<lambda>c. 128 \<le> code c) (take (length p) s)"
  by (induction p s rule: of_form.induct) auto

lemma rune_len_high: "rune_len s \<noteq> 1 \<Longrightarrow> list_all (\<lambda>c. 128 \<le> code c) (take (rune_len s) s)"
proof (cases "find (\<lambda>p. of_form p s) rune_forms")
  case (Some p)
  assume "rune_len s \<noteq> 1"
  then have "p \<in> set rune_forms" "length p \<noteq> 1" "of_form p s"
    using Some by (auto simp: rune_len_def find_Some_iff)
  then have "list_all (\<lambda>(lo, hi). 128 \<le> lo) p"
    by (auto simp: rune_forms_def)
  then show ?thesis
    using \<open>of_form p s\<close> of_form_high Some by (simp add: rune_len_def)
qed (simp add: rune_len_def)

text \<open>\<open>utf8.Valid\<close>.\<close>

function utf8_Valid :: "string \<Rightarrow> bool" where
  "utf8_Valid s = (if s = [] then True else if rune_len s = 0 then False else utf8_Valid (drop (rune_len s) s))"
  by pat_completeness auto
termination
  by (relation "measure length") auto

declare utf8_Valid.simps [simp del]

lemma utf8_Valid_Nil [simp]: "utf8_Valid []"
  by (simp add: utf8_Valid.simps)

definition is_rune :: "string \<Rightarrow> bool" where
  "is_rune r \<longleftrightarrow> r \<noteq> [] \<and> rune_len r = length r"

lemma is_rune_append:
  assumes "is_rune r"
  shows "rune_len (r @ s) = length r"
  using rune_len_take[of r s] assms by (auto simp: is_rune_def)

lemma utf8_Valid_append: "is_rune r \<Longrightarrow> utf8_Valid (r @ s) = utf8_Valid s"
  by (subst utf8_Valid.simps) (auto simp: is_rune_append is_rune_def)

lemma utf8_induct [consumes 1, case_names Nil rune]:
  assumes "utf8_Valid s" "P []" "\<And>r s. is_rune r \<Longrightarrow> utf8_Valid s \<Longrightarrow> P s \<Longrightarrow> P (r @ s)"
  shows "P s"
  using assms(1)
proof (induction s rule: length_induct)
  case (1 s)
  show ?case
  proof (cases "s = []")
    case False
    then have pos: "rune_len s > 0" and rest: "utf8_Valid (drop (rune_len s) s)"
      using 1(2) utf8_Valid.simps[of s] by (auto split: if_splits)
    have "is_rune (take (rune_len s) s)"
      using rune_len_take[OF pos, of "[]"] pos rune_len_le[of s] False by (auto simp: is_rune_def min_def)
    moreover have "P (drop (rune_len s) s)"
      using 1(1) rest pos False by simp
    ultimately have "P (take (rune_len s) s @ drop (rune_len s) s)"
      using rest assms(3) by blast
    then show ?thesis by simp
  qed (simp add: assms(2))
qed

lemma utf8_Valid_append_iff: "utf8_Valid s \<Longrightarrow> utf8_Valid (s @ t) = utf8_Valid t"
  by (induction s rule: utf8_induct) (simp_all add: utf8_Valid_append)

lemma is_rune_ascii: "code c < 128 \<Longrightarrow> is_rune [c]"
  by (simp add: is_rune_def)

lemma utf8_Valid_ascii: "(\<And>c. c \<in> set s \<Longrightarrow> code c < 128) \<Longrightarrow> utf8_Valid s"
proof (induction s)
  case (Cons c s)
  then show ?case using utf8_Valid_append[OF is_rune_ascii, of c s] by simp
qed simp

text \<open>The encoding of a code point.\<close>

definition utf8_encode :: "nat \<Rightarrow> string" where
  "utf8_encode n =
     (if n < 128 then [char_of n]
      else if n < 2048 then [char_of (192 + n div 64), char_of (128 + n mod 64)]
      else if n < 65536 then [char_of (224 + n div 4096), char_of (128 + n div 64 mod 64), char_of (128 + n mod 64)]
      else [char_of (240 + n div 262144), char_of (128 + n div 4096 mod 64), char_of (128 + n div 64 mod 64),
            char_of (128 + n mod 64)])"

section \<open>The text of strings\<close>

abbreviation quotes :: char where "quotes \<equiv> CHR 0x22"
abbreviation backslash :: char where "backslash \<equiv> CHR 0x5C"

definition hexdig :: "nat \<Rightarrow> char" where
  "hexdig n = char_of (if n < 10 then 48 + n else 87 + n)"

definition hexval :: "char \<Rightarrow> nat option" where
  "hexval c = (let n = code c in
     if 48 \<le> n \<and> n \<le> 57 then Some (n - 48)
     else if 97 \<le> n \<and> n \<le> 102 then Some (n - 87)
     else if 65 \<le> n \<and> n \<le> 70 then Some (n - 55)
     else None)"

fun hex4 :: "string \<Rightarrow> nat option" where
  "hex4 (a # b # c # d # s) =
     (case (hexval a, hexval b, hexval c, hexval d) of
        (Some w, Some x, Some y, Some z) \<Rightarrow> Some (4096 * w + 256 * x + 16 * y + z)
      | _ \<Rightarrow> None)"
| "hex4 _ = None"

text \<open>
  What \<open>json.Marshal\<close> writes between the quotes: control characters and \<open>< > &\<close> escaped, U+2028 and
  U+2029 escaped, each byte that is not part of a well-formed encoding replaced by U+FFFD.
\<close>

definition escape_byte :: "char \<Rightarrow> string" where
  "escape_byte c =
     (if c = quotes \<or> c = backslash then [backslash, c]
      else if code c = 8 then [backslash, CHR ''b'']
      else if code c = 12 then [backslash, CHR ''f'']
      else if code c = 10 then [backslash, CHR ''n'']
      else if code c = 13 then [backslash, CHR ''r'']
      else if code c = 9 then [backslash, CHR ''t'']
      else if code c < 32 \<or> c \<in> {CHR ''<'', CHR ''>'', CHR ''&''}
        then [backslash, CHR ''u'', CHR ''0'', CHR ''0'', hexdig (code c div 16), hexdig (code c mod 16)]
      else [c])"

definition escape_rune :: "string \<Rightarrow> string" where
  "escape_rune r =
     (if r = [CHR 0xE2, CHR 0x80, CHR 0xA8] then backslash # ''u2028''
      else if r = [CHR 0xE2, CHR 0x80, CHR 0xA9] then backslash # ''u2029''
      else if length r = 1 then escape_byte (hd r)
      else r)"

function escape :: "string \<Rightarrow> string" where
  "escape s =
     (if s = [] then []
      else if rune_len s = 0 then (backslash # ''ufffd'') @ escape (tl s)
      else escape_rune (take (rune_len s) s) @ escape (drop (rune_len s) s))"
  by pat_completeness auto
termination
  by (relation "measure length") auto

declare escape.simps [simp del]

text \<open>The raw text up to the closing quote, and what follows it.\<close>

fun lex_string :: "string \<Rightarrow> (string \<times> string) option" where
  "lex_string [] = None"
| "lex_string (c # s) =
     (if c = quotes then Some ([], s)
      else if code c < 32 then None
      else if c = backslash then
        (case s of
           [] \<Rightarrow> None
         | e # s1 \<Rightarrow>
             if e \<in> {quotes, backslash, CHR ''/'', CHR ''b'', CHR ''f'', CHR ''n'', CHR ''r'', CHR ''t''}
                \<or> e = CHR ''u'' \<and> hex4 s1 \<noteq> None
             then map_option (apfst (\<lambda>r. c # e # r)) (lex_string s1)
             else None)
      else map_option (apfst (Cons c)) (lex_string s))"

text \<open>The string a raw text stands for (\<open>unquoteBytes\<close>).\<close>

definition replacement :: string where "replacement = [CHR 0xEF, CHR 0xBF, CHR 0xBD]"

definition unescape :: "char \<Rightarrow> char" where
  "unescape e =
     (if e = CHR ''b'' then char_of (8 :: nat)
      else if e = CHR ''f'' then char_of (12 :: nat)
      else if e = CHR ''n'' then char_of (10 :: nat)
      else if e = CHR ''r'' then char_of (13 :: nat)
      else if e = CHR ''t'' then char_of (9 :: nat)
      else e)"

definition low_surrogate :: "string \<Rightarrow> nat option" where
  "low_surrogate s =
     (if take 2 s = [backslash, CHR ''u''] then
        (case hex4 (drop 2 s) of
           Some m \<Rightarrow> if 0xDC00 \<le> m \<and> m < 0xE000 then Some (m - 0xDC00) else None
         | None \<Rightarrow> None)
      else None)"

function unquote :: "string \<Rightarrow> string" where
  "unquote s =
     (if s = [] then []
      else if hd s = backslash then
        (if take 1 (tl s) = ''u'' then
           (case hex4 (drop 2 s) of
              None \<Rightarrow> []
            | Some n \<Rightarrow>
                if 0xD800 \<le> n \<and> n < 0xE000 then
                  (case (if n < 0xDC00 then low_surrogate (drop 6 s) else None) of
                     Some m \<Rightarrow> utf8_encode (0x10000 + (n - 0xD800) * 1024 + m) @ unquote (drop 12 s)
                   | None \<Rightarrow> replacement @ unquote (drop 6 s))
                else utf8_encode n @ unquote (drop 6 s))
         else map unescape (take 1 (tl s)) @ unquote (drop 2 s))
      else if rune_len s = 0 then replacement @ unquote (tl s)
      else take (rune_len s) s @ unquote (drop (rune_len s) s))"
  by pat_completeness auto
termination
  by (relation "measure length") auto

declare unquote.simps [simp del]

lemma escape_Nil [simp]: "escape [] = []"
  by (simp add: escape.simps)

lemma unquote_Nil [simp]: "unquote [] = []"
  by (simp add: unquote.simps)

lemma escape_append: "is_rune r \<Longrightarrow> escape (r @ s) = escape_rune r @ escape s"
  by (subst escape.simps) (auto simp: is_rune_append is_rune_def)

lemma code_special [simp]: "code quotes = 34" "code backslash = 92"
  by (simp_all add: code_def)

lemma char_eq_code: "c = d \<longleftrightarrow> code c = code d"
  by simp

lemma hexval_hexdig [simp]: "n < 16 \<Longrightarrow> hexval (hexdig n) = Some n"
  by (auto simp: hexval_def hexdig_def Let_def)

lemma is_rune_cases:
  assumes "is_rune r"
  obtains c where "r = [c]" "code c < 128"
  | "length r \<noteq> 1" "list_all (\<lambda>c. 128 \<le> code c) r" "r \<noteq> []"
proof (cases "length r = 1")
  case True
  then obtain c where r: "r = [c]"
    by (auto simp: length_Suc_conv)
  with assms have "rune_len [c] = 1"
    by (simp add: is_rune_def)
  then have "code c < 128"
    by (auto simp: rune_len_def rune_forms_def split: if_splits)
  with r that show ?thesis by blast
next
  case False
  then show ?thesis
    using assms rune_len_high[of r] that by (auto simp: is_rune_def)
qed

lemma escape_byte_cases:
  assumes "code c < 128"
  obtains (1) "escape_byte c = [c]" "c \<noteq> quotes" "c \<noteq> backslash" "\<not> code c < 32"
  | (2) e where "escape_byte c = [backslash, e]" "unescape e = c" "e \<noteq> CHR ''u''"
      "e \<in> {quotes, backslash, CHR ''/'', CHR ''b'', CHR ''f'', CHR ''n'', CHR ''r'', CHR ''t''}"
  | (3) "escape_byte c = backslash # CHR ''u'' # ''00'' @ [hexdig (code c div 16), hexdig (code c mod 16)]"
proof -
  have chr: "c = char_of n" if "code c = n" for n
    using that char_of_code[of c] by simp
  have plain: "c \<noteq> quotes \<and> c \<noteq> backslash" if "code c < 32"
    using that by (auto simp: code_def)
  have special: thesis if "escape_byte c = [backslash, e]" "unescape e = c"
    "e \<in> {quotes, backslash, CHR ''b'', CHR ''f'', CHR ''n'', CHR ''r'', CHR ''t''}" for e
    using that by (intro 2[of e]) auto
  consider "c = quotes" | "c = backslash" | "code c = 8" | "code c = 9" | "code c = 10" | "code c = 12" | "code c = 13"
    | "c \<in> {CHR ''<'', CHR ''>'', CHR ''&''}" | "code c < 32" "code c \<notin> {8, 9, 10, 12, 13}"
    | "c \<noteq> quotes" "c \<noteq> backslash" "c \<notin> {CHR ''<'', CHR ''>'', CHR ''&''}" "\<not> code c < 32"
    by blast
  then show thesis
  proof cases
    case 8
    then show thesis
      by (intro 3) (auto simp: escape_byte_def code_def)
  next
    case 9
    then have "c \<noteq> quotes" "c \<noteq> backslash"
      by (auto simp: code_def)
    with 9 show thesis
      by (intro 3) (simp add: escape_byte_def)
  next
    case 10
    then show thesis
      by (intro 1) (auto simp: escape_byte_def)
  next
    case 1
    then show thesis
      using special[of quotes] by (simp add: escape_byte_def unescape_def)
  next
    case 2
    then show thesis
      using special[of backslash] by (simp add: escape_byte_def unescape_def)
  next
    case 3
    then show thesis
      using special[of "CHR ''b''"] chr[of 8] plain by (simp add: escape_byte_def unescape_def)
  next
    case 4
    then show thesis
      using special[of "CHR ''t''"] chr[of 9] plain by (simp add: escape_byte_def unescape_def)
  next
    case 5
    then show thesis
      using special[of "CHR ''n''"] chr[of 10] plain by (simp add: escape_byte_def unescape_def)
  next
    case 6
    then show thesis
      using special[of "CHR ''f''"] chr[of 12] plain by (simp add: escape_byte_def unescape_def)
  next
    case 7
    then show thesis
      using special[of "CHR ''r''"] chr[of 13] plain by (simp add: escape_byte_def unescape_def)
  qed
qed

lemma hexval_0 [simp]: "hexval (CHR ''0'') = Some 0"
  by (simp add: hexval_def code_def)

lemma hex4_byte: "code c < 128 \<Longrightarrow> hex4 (''00'' @ [hexdig (code c div 16), hexdig (code c mod 16)] @ s) = Some (code c)"
  by simp

lemma hex4_drop: "hex4 (a # b # c # d # s) = hex4 [a, b, c, d]"
  by (auto split: option.splits)

lemma unquote_escape_byte:
  assumes "code c < 128"
  shows "unquote (escape_byte c @ s) = c # unquote s"
  using assms
proof (cases c rule: escape_byte_cases)
  case 1
  then show ?thesis
    using assms by (subst unquote.simps) simp
next
  case (2 e)
  then show ?thesis
    by (subst unquote.simps) simp
next
  case 3
  then show ?thesis
    using assms hex4_byte[OF assms, of s] by (subst unquote.simps) (simp add: utf8_encode_def)
qed

lemma unquote_escape_rune:
  assumes "is_rune r"
  shows "unquote (escape_rune r @ s) = r @ unquote s"
  using assms
proof (cases r rule: is_rune_cases)
  case (1 c)
  then show ?thesis
    by (simp add: escape_rune_def unquote_escape_byte)
next
  case multi: 2
  consider "r = [CHR 0xE2, CHR 0x80, CHR 0xA8]" | "r = [CHR 0xE2, CHR 0x80, CHR 0xA9]"
    | "r \<noteq> [CHR 0xE2, CHR 0x80, CHR 0xA8]" "r \<noteq> [CHR 0xE2, CHR 0x80, CHR 0xA9]"
    by blast
  then show ?thesis
  proof cases
    case 1
    show ?thesis
      unfolding 1 by (subst unquote.simps) (simp add: escape_rune_def hexval_def code_def utf8_encode_def, code_simp)
  next
    case 2
    show ?thesis
      unfolding 2 by (subst unquote.simps) (simp add: escape_rune_def hexval_def code_def utf8_encode_def, code_simp)
  next
    case 3
    then have er: "escape_rune r = r"
      using multi by (simp add: escape_rune_def)
    obtain c r' where r: "r = c # r'"
      using multi by (cases r) auto
    then have "c \<noteq> backslash"
      using multi by auto
    then show ?thesis
      using is_rune_append[OF assms, of s] unfolding er unfolding r by (subst unquote.simps) simp
  qed
qed

lemma unquote_escape: "utf8_Valid s \<Longrightarrow> unquote (escape s) = s"
  by (induction s rule: utf8_induct) (simp_all add: escape_append unquote_escape_rune)

lemma lex_string_high:
  "list_all (\<lambda>c. 128 \<le> code c) r \<Longrightarrow> lex_string (r @ s) = map_option (apfst ((@) r)) (lex_string s)"
proof (induction r)
  case (Cons c r)
  have "c \<noteq> quotes" "c \<noteq> backslash"
    using Cons.prems by auto
  then show ?case
    using Cons by (cases "lex_string s") (auto simp: apfst_def map_prod_def)
qed (cases "lex_string s"; auto simp: apfst_def)

lemma lex_string_escape_byte:
  assumes "code c < 128"
  shows "lex_string (escape_byte c @ s) = map_option (apfst ((@) (escape_byte c))) (lex_string s)"
  using assms
proof (cases c rule: escape_byte_cases)
  case 3
  have hd: "hexdig n \<noteq> quotes \<and> hexdig n \<noteq> backslash \<and> \<not> code (hexdig n) < 32" if "n < 16" for n
  proof -
    have "code (hexdig n) = (if n < 10 then 48 + n else 87 + n)"
      using that by (simp add: hexdig_def)
    then show ?thesis
      using that by (auto simp: char_eq_code split: if_splits)
  qed
  then show ?thesis
    using 3 assms hex4_byte[OF assms, of s]
    by (cases "lex_string s") (auto simp: code_def)
qed (cases "lex_string s"; auto)+

lemma lex_string_escape_rune:
  assumes "is_rune r"
  shows "lex_string (escape_rune r @ s) = map_option (apfst ((@) (escape_rune r))) (lex_string s)"
  using assms
proof (cases r rule: is_rune_cases)
  case (1 c)
  then show ?thesis
    by (simp add: escape_rune_def lex_string_escape_byte)
next
  case 2
  then show ?thesis
    by (cases "lex_string s") (auto simp: escape_rune_def lex_string_high hexval_def code_def)
qed

lemma lex_string_escape: "utf8_Valid s \<Longrightarrow> lex_string (escape s @ quotes # t) = Some (escape s, t)"
  by (induction s rule: utf8_induct) (simp_all add: escape_append lex_string_escape_rune)

section \<open>Numbers\<close>

definition is_digit :: "char \<Rightarrow> bool" where
  "is_digit c \<longleftrightarrow> 48 \<le> code c \<and> code c \<le> 57"

definition int_text :: "int \<Rightarrow> string" where
  "int_text i = (if i < 0 then CHR ''-'' # decimal (nat (- i)) else decimal (nat i))"

definition nat_of_text :: "string \<Rightarrow> nat" where
  "nat_of_text ds = foldl (\<lambda>a c. 10 * a + (code c - 48)) 0 ds"

text \<open>\<open>strconv.ParseUint\<close> and \<open>ParseInt\<close> in base 10, without the range check.\<close>

definition text_nat :: "string \<Rightarrow> nat option" where
  "text_nat s = (if s \<noteq> [] \<and> list_all is_digit s then Some (nat_of_text s) else None)"

definition text_int :: "string \<Rightarrow> int option" where
  "text_int s =
     (case s of
        c # s' \<Rightarrow> if c = CHR ''-'' then map_option (\<lambda>n. - int n) (text_nat s') else map_option int (text_nat s)
      | [] \<Rightarrow> None)"

text \<open>A number as the grammar of JSON has it, and what follows it.\<close>

definition lex_digits :: "string \<Rightarrow> (string \<times> string) option" where
  "lex_digits s = (if takeWhile is_digit s = [] then None else Some (takeWhile is_digit s, dropWhile is_digit s))"

definition lex_integer :: "string \<Rightarrow> (string \<times> string) option" where
  "lex_integer s = (if take 1 s = ''0'' then Some (''0'', tl s) else lex_digits s)"

definition lex_fraction :: "string \<Rightarrow> (string \<times> string) option" where
  "lex_fraction s = (if take 1 s = ''.'' then map_option (apfst ((@) ''.'')) (lex_digits (tl s)) else Some ([], s))"

definition lex_exponent :: "string \<Rightarrow> (string \<times> string) option" where
  "lex_exponent s =
     (if take 1 s = ''e'' \<or> take 1 s = ''E'' then
        (if take 1 (tl s) = ''+'' \<or> take 1 (tl s) = ''-'' then map_option (apfst ((@) (take 2 s))) (lex_digits (drop 2 s))
         else map_option (apfst ((@) (take 1 s))) (lex_digits (tl s)))
      else Some ([], s))"

definition lex_number :: "string \<Rightarrow> (string \<times> string) option" where
  "lex_number s =
     (let sg = (if take 1 s = ''-'' then ''-'' else []) in
      case lex_integer (drop (length sg) s) of None \<Rightarrow> None | Some (i, s1) \<Rightarrow>
      case lex_fraction s1 of None \<Rightarrow> None | Some (f, s2) \<Rightarrow>
      case lex_exponent s2 of None \<Rightarrow> None | Some (e, s3) \<Rightarrow> Some (sg @ i @ f @ e, s3))"

lemma lex_digits_append: "lex_digits s = Some (d, t) \<Longrightarrow> s = d @ t \<and> d \<noteq> []"
  by (auto simp: lex_digits_def split: if_splits)

lemma lex_number_append:
  assumes "lex_number s = Some (n, t)"
  shows "s = n @ t \<and> n \<noteq> []"
proof -
  have int: "x = i @ y \<and> i \<noteq> []" if "lex_integer x = Some (i, y)" for x i y
    using that by (cases x) (auto simp: lex_integer_def dest: lex_digits_append split: if_splits)
  have frac: "x = f @ y" if "lex_fraction x = Some (f, y)" for x f y
    using that by (cases x) (auto simp: lex_fraction_def dest: lex_digits_append split: if_splits)
  have ex: "x = e @ y" if "lex_exponent x = Some (e, y)" for x e y
  proof (cases x)
    case (Cons a x')
    then show ?thesis
      using that by (cases x') (auto simp: lex_exponent_def dest!: lex_digits_append split: if_splits)
  qed (use that in \<open>simp add: lex_exponent_def\<close>)
  show ?thesis
    using assms by (cases s) (auto simp: lex_number_def Let_def dest!: int frac ex split: option.splits if_splits prod.splits)
qed

lemma decimal_digits: "list_all is_digit (decimal n)"
proof (induction n rule: decimal.induct)
  case (1 n)
  then show ?case
    by (subst decimal.simps) (auto simp: is_digit_def list_all_iff)
qed

lemma decimal_nonempty [simp]: "decimal n \<noteq> []"
  by (subst decimal.simps) simp

lemma nat_of_text_snoc [simp]: "nat_of_text (ds @ [c]) = 10 * nat_of_text ds + (code c - 48)"
  by (simp add: nat_of_text_def)

lemma nat_of_text_decimal [simp]: "nat_of_text (decimal n) = n"
proof (induction n rule: decimal.induct)
  case (1 n)
  show ?case
  proof (cases "n < 10")
    case True
    then show ?thesis
      by (subst decimal.simps) (simp add: nat_of_text_def)
  next
    case False
    then show ?thesis
      using 1 by (subst decimal.simps) simp
  qed
qed

lemma text_nat_decimal [simp]: "text_nat (decimal n) = Some n"
  by (simp add: text_nat_def decimal_digits)

lemma digit_not_minus: "is_digit c \<Longrightarrow> c \<noteq> CHR ''-''"
  by (auto simp: is_digit_def code_def)

lemma decimal_Cons:
  obtains c ds where "decimal n = c # ds" "is_digit c" "list_all is_digit ds"
  using decimal_digits[of n] decimal_nonempty[of n] by (cases "decimal n") auto

lemma text_int_int_text [simp]: "text_int (int_text i) = Some i"
proof (cases "i < 0")
  case False
  obtain c ds where "decimal (nat i) = c # ds" "is_digit c"
    by (rule decimal_Cons)
  then show ?thesis
    using False text_nat_decimal[of "nat i"] digit_not_minus by (simp add: int_text_def text_int_def)
qed (simp add: int_text_def text_int_def)

lemma decimal_zero: "decimal n = c # ds \<Longrightarrow> code c = 48 \<Longrightarrow> ds = []"
proof (induction n arbitrary: c ds rule: decimal.induct)
  case (1 n)
  show ?case
  proof (cases "n < 10")
    case True
    then have "decimal n = [char_of (48 + n)]"
      by (subst decimal.simps) simp
    then show ?thesis
      using 1(2) by simp
  next
    case False
    obtain d es where d: "decimal (n div 10) = d # es"
      by (rule decimal_Cons)
    have "decimal n = decimal (n div 10) @ [char_of (48 + n mod 10)]"
      using False by (subst decimal.simps) simp
    with d 1(2) have c: "c = d" and ds: "ds = es @ [char_of (48 + n mod 10)]"
      by simp_all
    then have "es = []"
      using 1(1)[OF False d] 1(3) by simp
    then have "n div 10 = 0"
      using nat_of_text_decimal[of "n div 10"] d c 1(3) by (simp add: nat_of_text_def)
    then show ?thesis
      using False by simp
  qed
qed

definition number_end :: "string \<Rightarrow> bool" where
  "number_end s \<longleftrightarrow> (case s of [] \<Rightarrow> True | c # _ \<Rightarrow> c \<in> {CHR '','', CHR ''}'', CHR '']'', CHR 0x0A})"

lemma number_end_simps [simp]:
  "number_end []" "number_end (c # s) \<longleftrightarrow> c \<in> {CHR '','', CHR ''}'', CHR '']'', CHR 0x0A}"
  by (simp_all add: number_end_def)

lemma takeWhile_digits:
  assumes "list_all is_digit d" "number_end s"
  shows "takeWhile is_digit (d @ s) = d" "dropWhile is_digit (d @ s) = s"
proof -
  have "takeWhile is_digit s = []" "dropWhile is_digit s = s"
    using assms(2) by (cases s; auto simp: is_digit_def code_def)+
  then show "takeWhile is_digit (d @ s) = d" "dropWhile is_digit (d @ s) = s"
    using assms(1) by (induction d) auto
qed

lemma lex_integer_decimal:
  assumes "number_end s"
  shows "lex_integer (decimal n @ s) = Some (decimal n, s)"
proof -
  obtain c ds where d: "decimal n = c # ds" and digits: "list_all is_digit (c # ds)"
    using decimal_digits[of n] by (metis decimal_Cons)
  show ?thesis
  proof (cases "c = CHR ''0''")
    case True
    then show ?thesis
      using d decimal_zero[OF d] by (simp add: lex_integer_def code_def)
  next
    case False
    then show ?thesis
      using takeWhile_digits[OF digits assms] d by (simp add: lex_integer_def lex_digits_def)
  qed
qed

lemma lex_number_int_text:
  assumes "number_end s"
  shows "lex_number (int_text i @ s) = Some (int_text i, s)"
proof -
  have ends: "lex_fraction s = Some ([], s)" "lex_exponent s = Some ([], s)"
    using assms by (cases s; auto simp: lex_fraction_def lex_exponent_def)+
  obtain c ds where "decimal (nat i) = c # ds" "is_digit c"
    by (rule decimal_Cons)
  then have "take 1 (decimal (nat i) @ s) \<noteq> ''-''"
    using digit_not_minus by simp
  then show ?thesis
    using lex_integer_decimal[OF assms] ends by (simp add: lex_number_def int_text_def)
qed

end
