(* ===== verification/Json.thy ===== *)
theory Json
  imports JsonText
begin

text \<open>
  \<open>encoding/json\<close>: values and their compact text, the lexical elements of a text, the token stream of a
  \<open>Decoder\<close> (\<open>Token\<close>, \<open>More\<close>) and \<open>Decode\<close> into a struct.  A string keeps its raw text, between the
  quotes, because \<open>time.Time\<close> reads that and every other type the unquoted string.

  The input is lexed as a whole here and on demand in Go; a text that is not lexed fails in both, and the
  program treats all failures of the decoder alike.  A number too large for \<open>float64\<close>, which \<open>Token\<close>
  refuses, is refused by \<open>Decode\<close> only: no field of the program is a \<open>float64\<close>.
\<close>

section \<open>Values and lexemes\<close>

datatype lexeme =
    LBrace | RBrace | LBrack | RBrack | Colon | Comma
  | LString string | LNumber string | LTrue | LFalse | LNull

datatype json =
    JNull | JBool bool | JNumber string | JString string
  | JArray "json list" | JObject "(string \<times> json) list"

fun toks :: "json \<Rightarrow> lexeme list"
and toks_elements :: "json list \<Rightarrow> lexeme list"
and toks_members :: "(string \<times> json) list \<Rightarrow> lexeme list" where
  "toks JNull = [LNull]"
| "toks (JBool b) = [if b then LTrue else LFalse]"
| "toks (JNumber n) = [LNumber n]"
| "toks (JString s) = [LString s]"
| "toks (JArray vs) = LBrack # toks_elements vs @ [RBrack]"
| "toks (JObject ms) = LBrace # toks_members ms @ [RBrace]"
| "toks_elements [] = []"
| "toks_elements (v # vs) = toks v @ (if vs = [] then [] else Comma # toks_elements vs)"
| "toks_members [] = []"
| "toks_members ((k, v) # ms) = LString k # Colon # toks v @ (if ms = [] then [] else Comma # toks_members ms)"

fun lexeme_text :: "lexeme \<Rightarrow> string" where
  "lexeme_text LBrace = ''{''"
| "lexeme_text RBrace = ''}''"
| "lexeme_text LBrack = ''[''"
| "lexeme_text RBrack = '']''"
| "lexeme_text Colon = '':''"
| "lexeme_text Comma = '',''"
| "lexeme_text (LString raw) = quotes # raw @ [quotes]"
| "lexeme_text (LNumber n) = n"
| "lexeme_text LTrue = ''true''"
| "lexeme_text LFalse = ''false''"
| "lexeme_text LNull = ''null''"

definition lexemes_text :: "lexeme list \<Rightarrow> string" where
  "lexemes_text ls = concat (map lexeme_text ls)"

definition json_text :: "json \<Rightarrow> string" where
  "json_text v = lexemes_text (toks v)"

section \<open>Lexing\<close>

definition json_space :: "char \<Rightarrow> bool" where
  "json_space c \<longleftrightarrow> code c \<in> {9, 10, 13, 32}"

definition lex_simple :: "char \<Rightarrow> lexeme option" where
  "lex_simple c =
     (if c = CHR ''{'' then Some LBrace else if c = CHR ''}'' then Some RBrace
      else if c = CHR ''['' then Some LBrack else if c = CHR '']'' then Some RBrack
      else if c = CHR '':'' then Some Colon else if c = CHR '','' then Some Comma
      else None)"

text \<open>One lexeme at the head of a text that does not begin with white space.\<close>

definition lex_one :: "string \<Rightarrow> (lexeme \<times> string) option" where
  "lex_one s =
     (case s of [] \<Rightarrow> None | c # s1 \<Rightarrow>
      case lex_simple c of Some l \<Rightarrow> Some (l, s1) | None \<Rightarrow>
      if c = quotes then map_option (apfst LString) (lex_string s1)
      else if take 4 s = ''true'' then Some (LTrue, drop 4 s)
      else if take 5 s = ''false'' then Some (LFalse, drop 5 s)
      else if take 4 s = ''null'' then Some (LNull, drop 4 s)
      else map_option (apfst LNumber) (lex_number s))"

lemma lex_string_shorter: "lex_string s = Some (raw, t) \<Longrightarrow> length t < length s"
proof (induction s arbitrary: raw t rule: lex_string.induct)
  case (2 c s)
  then show ?case
    by (fastforce split: if_splits list.splits)
qed simp

lemma lex_one_shorter:
  assumes "lex_one s = Some (l, t)"
  shows "length t < length s"
proof -
  have "length t < length s" if "lex_number s = Some (n, t)" for n
    using lex_number_append[OF that] by simp
  then show ?thesis
    using assms lex_string_shorter
    by (auto simp: lex_one_def split: list.splits option.splits if_splits) (fastforce dest: lex_string_shorter)+
qed

function lex :: "string \<Rightarrow> lexeme list option" where
  "lex s =
     (if s = [] then Some []
      else if json_space (hd s) then lex (tl s)
      else (case lex_one s of None \<Rightarrow> None | Some (l, t) \<Rightarrow> map_option (Cons l) (lex t)))"
  by pat_completeness auto
termination
  by (relation "measure length") (auto dest: lex_one_shorter)

declare lex.simps [simp del]

lemma lex_Nil [simp]: "lex [] = Some []"
  by (simp add: lex.simps)

section \<open>What Marshal writes is lexed back\<close>

fun lexable :: "lexeme \<Rightarrow> bool" where
  "lexable (LString raw) = (\<exists>s. utf8_Valid s \<and> raw = escape s)"
| "lexable (LNumber n) = (\<exists>i. n = int_text i)"
| "lexable _ = True"

fun lexable_json :: "json \<Rightarrow> bool" where
  "lexable_json (JNumber n) = lexable (LNumber n)"
| "lexable_json (JString s) = lexable (LString s)"
| "lexable_json (JArray vs) = list_all lexable_json vs"
| "lexable_json (JObject ms) = list_all (\<lambda>(k, v). lexable (LString k) \<and> lexable_json v) ms"
| "lexable_json _ = True"

lemma json_space_code [simp]: "json_space c \<longleftrightarrow> code c = 9 \<or> code c = 10 \<or> code c = 13 \<or> code c = 32"
  by (auto simp: json_space_def)

lemma int_text_head:
  obtains c ds where "int_text i = c # ds" "c = CHR ''-'' \<or> is_digit c"
proof (cases "i < 0")
  case False
  obtain c ds where "decimal (nat i) = c # ds" "is_digit c"
    by (rule decimal_Cons)
  then show ?thesis
    using that False by (simp add: int_text_def)
qed (use that in \<open>simp add: int_text_def\<close>)

definition prepend :: "'a list \<Rightarrow> 'a list option \<Rightarrow> 'a list option" where
  "prepend xs = map_option (\<lambda>ys. xs @ ys)"

lemma prepend_simps [simp]:
  "prepend [] y = y" "prepend xs (prepend ys y) = prepend (xs @ ys) y" "prepend xs (Some ys) = Some (xs @ ys)"
  by (cases y; simp add: prepend_def)+

lemma lex_int_text:
  assumes "number_end t"
  shows "lex (int_text i @ t) = prepend [LNumber (int_text i)] (lex t)"
proof -
  obtain c ds where i: "int_text i = c # ds" and c: "c = CHR ''-'' \<or> is_digit c"
    by (rule int_text_head)
  have n: "lex_number (c # ds @ t) = Some (c # ds, t)"
    using lex_number_int_text[OF assms, of i] by (simp add: i)
  have "c \<notin> {CHR ''{'', CHR ''}'', CHR ''['', CHR '']'', CHR '':'', CHR '','', quotes, CHR ''t'', CHR ''f'', CHR ''n''}"
    "\<not> json_space c"
    using c by (auto simp: is_digit_def code_def)
  moreover from this have "lex_one (c # ds @ t) = Some (LNumber (c # ds), t)"
    using n by (simp add: lex_one_def lex_simple_def)
  ultimately show ?thesis
    unfolding i by (subst lex.simps) (simp add: prepend_def)
qed

lemma lex_simple_lexeme:
  assumes "lex_simple c = Some l"
  shows "lex (c # t) = prepend [l] (lex t)"
proof -
  have "\<not> json_space c"
    using assms by (auto simp: lex_simple_def code_def split: if_splits)
  then show ?thesis
    using assms by (subst lex.simps) (simp add: lex_one_def prepend_def)
qed

lemma lex_literal:
  "lex (''true'' @ t) = prepend [LTrue] (lex t)" "lex (''false'' @ t) = prepend [LFalse] (lex t)"
  "lex (''null'' @ t) = prepend [LNull] (lex t)"
  by (subst lex.simps, simp add: lex_one_def lex_simple_def code_def prepend_def)+

lemma lex_raw_string: "utf8_Valid s \<Longrightarrow> lex (quotes # escape s @ quotes # t) = prepend [LString (escape s)] (lex t)"
  by (subst lex.simps) (simp add: lex_one_def lex_simple_def lex_string_escape prepend_def)

lemma lex_lexeme:
  assumes "lexable l" "\<And>n. l = LNumber n \<Longrightarrow> number_end t"
  shows "lex (lexeme_text l @ t) = prepend [l] (lex t)"
proof (cases l)
  case (LString raw)
  then show ?thesis
    using assms(1) lex_raw_string by auto
next
  case (LNumber n)
  then obtain i where "n = int_text i"
    using assms(1) by auto
  then show ?thesis
    using lex_int_text[of t i] assms(2) LNumber by simp
qed (use lex_literal[of t] lex_simple_lexeme[of _ l t] in \<open>simp_all add: lex_simple_def\<close>)

lemma lexemes_text_simps [simp]:
  "lexemes_text [] = []" "lexemes_text (l # ls) = lexeme_text l @ lexemes_text ls"
  "lexemes_text (ls @ ls') = lexemes_text ls @ lexemes_text ls'"
  by (simp_all add: lexemes_text_def)

lemma lex_toks:
  "lexable_json v \<Longrightarrow> number_end t \<Longrightarrow> lex (lexemes_text (toks v) @ t) = prepend (toks v) (lex t)"
  "list_all lexable_json vs \<Longrightarrow> number_end t \<Longrightarrow>
     lex (lexemes_text (toks_elements vs) @ t) = prepend (toks_elements vs) (lex t)"
  "list_all (\<lambda>(k, v). lexable (LString k) \<and> lexable_json v) ms \<Longrightarrow> number_end t \<Longrightarrow>
     lex (lexemes_text (toks_members ms) @ t) = prepend (toks_members ms) (lex t)"
proof (induction v and vs and ms arbitrary: t and t and t rule: toks_toks_elements_toks_members.induct)
  case 1 then show ?case using lex_lexeme[of LNull t] by simp
next
  case (2 b) then show ?case using lex_lexeme[of LTrue t] lex_lexeme[of LFalse t] by simp
next
  case (3 n) then show ?case using lex_lexeme[of "LNumber n" t] by simp
next
  case (4 s) then show ?case using lex_lexeme[of "LString s" t] by simp
next
  case (5 vs)
  then show ?case
    using lex_lexeme[of LBrack] lex_lexeme[of RBrack t] by simp
next
  case (6 ms)
  then show ?case
    using lex_lexeme[of LBrace] lex_lexeme[of RBrace t] by simp
next
  case 7 show ?case by simp
next
  case (8 v vs)
  then show ?case
    using lex_lexeme[of Comma] by simp
next
  case 9 show ?case by simp
next
  case (10 k v ms)
  then show ?case
    using lex_lexeme[of Comma] lex_lexeme[of "LString k"] lex_lexeme[of Colon]
    by simp
qed

lemma lex_json_text: "lexable_json v \<Longrightarrow> lex (json_text v) = Some (toks v)"
  using lex_toks(1)[of v "[]"] by (simp add: json_text_def)

section \<open>The token stream of a Decoder\<close>

datatype token_state =
    TopValue | ArrayStart | ArrayValue | ArrayComma
  | ObjectStart | ObjectKey | ObjectColon | ObjectValue | ObjectComma

record decoder =
  dec_State :: token_state
  dec_Stack :: "token_state list"
  dec_Rest :: "lexeme list"

datatype token = Delim lexeme | Text string | Scalar

definition value_allowed :: "token_state \<Rightarrow> bool" where
  "value_allowed s \<longleftrightarrow> s \<in> {TopValue, ArrayStart, ArrayValue, ObjectValue}"

definition value_end :: "token_state \<Rightarrow> token_state" where
  "value_end s = (if s \<in> {ArrayStart, ArrayValue} then ArrayComma else if s = ObjectValue then ObjectComma else s)"

definition NewDecoder :: "lexeme list \<Rightarrow> decoder" where
  "NewDecoder ls = \<lparr>dec_State = TopValue, dec_Stack = [], dec_Rest = ls\<rparr>"

definition ErrSyntax :: error where "ErrSyntax = ErrText ''json: syntax error''"

text \<open>\<open>Token\<close> from a state, a stack and the remaining lexemes.\<close>

fun token_from :: "token_state \<Rightarrow> token_state list \<Rightarrow> lexeme list \<Rightarrow> (token \<times> decoder) result" where
  "token_from s k [] = Inl ErrEOF"
| "token_from s k (l # ls) =
     (case l of
        LBrack \<Rightarrow> if value_allowed s then Inr (Delim LBrack, \<lparr>dec_State = ArrayStart, dec_Stack = s # k, dec_Rest = ls\<rparr>)
                  else Inl ErrSyntax
      | RBrack \<Rightarrow> if s \<in> {ArrayStart, ArrayComma} \<and> k \<noteq> []
                  then Inr (Delim RBrack, \<lparr>dec_State = value_end (hd k), dec_Stack = tl k, dec_Rest = ls\<rparr>)
                  else Inl ErrSyntax
      | LBrace \<Rightarrow> if value_allowed s then Inr (Delim LBrace, \<lparr>dec_State = ObjectStart, dec_Stack = s # k, dec_Rest = ls\<rparr>)
                  else Inl ErrSyntax
      | RBrace \<Rightarrow> if s \<in> {ObjectStart, ObjectComma} \<and> k \<noteq> []
                  then Inr (Delim RBrace, \<lparr>dec_State = value_end (hd k), dec_Stack = tl k, dec_Rest = ls\<rparr>)
                  else Inl ErrSyntax
      | Colon \<Rightarrow> if s = ObjectColon then token_from ObjectValue k ls else Inl ErrSyntax
      | Comma \<Rightarrow> if s = ArrayComma then token_from ArrayValue k ls
                 else if s = ObjectComma then token_from ObjectKey k ls
                 else Inl ErrSyntax
      | LString raw \<Rightarrow>
          if s \<in> {ObjectStart, ObjectKey}
          then Inr (Text (unquote raw), \<lparr>dec_State = ObjectColon, dec_Stack = k, dec_Rest = ls\<rparr>)
          else if value_allowed s
          then Inr (Text (unquote raw), \<lparr>dec_State = value_end s, dec_Stack = k, dec_Rest = ls\<rparr>)
          else Inl ErrSyntax
      | _ \<Rightarrow> if value_allowed s then Inr (Scalar, \<lparr>dec_State = value_end s, dec_Stack = k, dec_Rest = ls\<rparr>)
             else Inl ErrSyntax)"

definition Token :: "decoder \<Rightarrow> (token \<times> decoder) result" where
  "Token d = token_from (dec_State d) (dec_Stack d) (dec_Rest d)"

definition More :: "decoder \<Rightarrow> bool" where
  "More d \<longleftrightarrow> (case dec_Rest d of [] \<Rightarrow> False | l # _ \<Rightarrow> l \<noteq> RBrack \<and> l \<noteq> RBrace)"

lemma token_from_shorter: "token_from s k ls = Inr (t, d) \<Longrightarrow> length (dec_Rest d) < length ls"
proof (induction s k ls rule: token_from.induct)
  case (2 s k l ls)
  then show ?case
    by (cases l) (auto split: if_splits)
qed simp

lemma Token_shorter: "Token d = Inr (t, d') \<Longrightarrow> length (dec_Rest d') < length (dec_Rest d)"
  by (simp add: Token_def token_from_shorter)

section \<open>Decode into a struct\<close>

text \<open>The first value of the lexemes, with fuel for the nesting; \<open>length ls\<close> is enough.\<close>

definition next_is :: "lexeme \<Rightarrow> lexeme list \<Rightarrow> bool" where
  "next_is l ls \<longleftrightarrow> (case ls of [] \<Rightarrow> False | x # _ \<Rightarrow> x = l)"

lemma next_is_simps [simp]: "\<not> next_is l []" "next_is l (x # xs) \<longleftrightarrow> x = l"
  by (simp_all add: next_is_def)

lemma next_isD: "next_is l ls \<Longrightarrow> \<exists>t. ls = l # t"
  by (cases ls) auto

fun parse_value :: "nat \<Rightarrow> lexeme list \<Rightarrow> (json \<times> lexeme list) option"
and parse_elements :: "nat \<Rightarrow> lexeme list \<Rightarrow> (json list \<times> lexeme list) option"
and parse_members :: "nat \<Rightarrow> lexeme list \<Rightarrow> ((string \<times> json) list \<times> lexeme list) option" where
  "parse_value 0 ls = None"
| "parse_value (Suc n) [] = None"
| "parse_value (Suc n) (l # ls) =
     (case l of
        LNull \<Rightarrow> Some (JNull, ls)
      | LTrue \<Rightarrow> Some (JBool True, ls)
      | LFalse \<Rightarrow> Some (JBool False, ls)
      | LNumber t \<Rightarrow> Some (JNumber t, ls)
      | LString raw \<Rightarrow> Some (JString raw, ls)
      | LBrack \<Rightarrow>
          if next_is RBrack ls then Some (JArray [], tl ls)
          else (case parse_elements n ls of
                  Some (vs, ls') \<Rightarrow> if next_is RBrack ls' then Some (JArray vs, tl ls') else None
                | None \<Rightarrow> None)
      | LBrace \<Rightarrow>
          if next_is RBrace ls then Some (JObject [], tl ls)
          else (case parse_members n ls of
                  Some (ms, ls') \<Rightarrow> if next_is RBrace ls' then Some (JObject ms, tl ls') else None
                | None \<Rightarrow> None)
      | _ \<Rightarrow> None)"
| "parse_elements 0 ls = None"
| "parse_elements (Suc n) ls =
     (case parse_value n ls of
        None \<Rightarrow> None
      | Some (v, ls') \<Rightarrow>
          if next_is Comma ls'
          then map_option (apfst (Cons v)) (parse_elements n (tl ls'))
          else Some ([v], ls'))"
| "parse_members 0 ls = None"
| "parse_members (Suc n) ls =
     (case ls of
        LString k # Colon # ls1 \<Rightarrow>
          (case parse_value n ls1 of
             None \<Rightarrow> None
           | Some (v, ls') \<Rightarrow>
               if next_is Comma ls'
               then map_option (apfst (Cons (k, v))) (parse_members n (tl ls'))
               else Some ([(k, v)], ls'))
      | _ \<Rightarrow> None)"

text \<open>
  The name of a field matches a key exactly or else up to case folding, by which ASCII letters are
  capitals and U+017F is \<open>S\<close> and U+212A is \<open>K\<close> (no other code point folds to ASCII, and the names of the
  program's fields are ASCII).
\<close>

definition upper_char :: "char \<Rightarrow> char" where
  "upper_char c = (if 97 \<le> code c \<and> code c \<le> 122 then char_of (code c - 32) else c)"

function foldName :: "string \<Rightarrow> string" where
  "foldName s =
     (if s = [] then []
      else if take 2 s = [CHR 0xC5, CHR 0xBF] then CHR ''S'' # foldName (drop 2 s)
      else if take 3 s = [CHR 0xE2, CHR 0x84, CHR 0xAA] then CHR ''K'' # foldName (drop 3 s)
      else upper_char (hd s) # foldName (tl s))"
  by pat_completeness auto
termination
  by (relation "measure length") auto

declare foldName.simps [simp del]

type_synonym 'a fields = "(string \<times> (json \<Rightarrow> 'a \<Rightarrow> 'a option)) list"

definition find_field :: "'a fields \<Rightarrow> string \<Rightarrow> (json \<Rightarrow> 'a \<Rightarrow> 'a option) option" where
  "find_field fs k =
     (case find (\<lambda>(n, f). n = k) fs of
        Some (n, f) \<Rightarrow> Some f
      | None \<Rightarrow> map_option snd (find (\<lambda>(n, f). foldName n = foldName k) fs))"

text \<open>The members of an object into the fields, in order; \<open>strict\<close>: \<open>DisallowUnknownFields\<close>.\<close>

fun decode_members :: "'a fields \<Rightarrow> (string \<times> json) list \<Rightarrow> 'a \<Rightarrow> 'a option" where
  "decode_members fs [] a = Some a"
| "decode_members fs ((raw, v) # ms) a =
     (case find_field fs (unquote raw) of
        None \<Rightarrow> None
      | Some f \<Rightarrow> (case f v a of None \<Rightarrow> None | Some a' \<Rightarrow> decode_members fs ms a'))"

fun decode_struct :: "'a fields \<Rightarrow> json \<Rightarrow> 'a \<Rightarrow> 'a option" where
  "decode_struct fs JNull a = Some a"
| "decode_struct fs (JObject ms) a = decode_members fs ms a"
| "decode_struct fs _ a = None"

fun decode_string :: "json \<Rightarrow> string \<Rightarrow> string option" where
  "decode_string JNull a = Some a"
| "decode_string (JString raw) a = Some (unquote raw)"
| "decode_string _ a = None"

fun decode_bool :: "json \<Rightarrow> bool \<Rightarrow> bool option" where
  "decode_bool JNull a = Some a"
| "decode_bool (JBool b) a = Some b"
| "decode_bool _ a = None"

definition int64_range :: "int \<Rightarrow> bool" where
  "int64_range i \<longleftrightarrow> - (2 ^ 63) \<le> i \<and> i < 2 ^ 63"

text \<open>\<open>int\<close> and \<open>int64\<close>.\<close>

fun decode_int :: "json \<Rightarrow> int \<Rightarrow> int option" where
  "decode_int JNull a = Some a"
| "decode_int (JNumber n) a =
     (case text_int n of Some i \<Rightarrow> if int64_range i then Some i else None | None \<Rightarrow> None)"
| "decode_int _ a = None"

fun decode_uint64 :: "json \<Rightarrow> uint64 \<Rightarrow> uint64 option" where
  "decode_uint64 JNull a = Some a"
| "decode_uint64 (JNumber n) a =
     (case text_nat n of Some i \<Rightarrow> if i < 2 ^ 64 then Some (of_nat i) else None | None \<Rightarrow> None)"
| "decode_uint64 _ a = None"

fun decode_elements :: "json list \<Rightarrow> string list option" where
  "decode_elements [] = Some []"
| "decode_elements (v # vs) =
     (case decode_string v [] of
        None \<Rightarrow> None
      | Some s \<Rightarrow> map_option (Cons s) (decode_elements vs))"

fun decode_strings :: "json \<Rightarrow> string list \<Rightarrow> string list option" where
  "decode_strings JNull a = Some []"
| "decode_strings (JArray vs) a = decode_elements vs"
| "decode_strings _ a = None"

text \<open>A pointer to a struct: \<open>null\<close> is nil, an object goes into the struct there is or into a new one.\<close>

definition decode_pointer :: "(json \<Rightarrow> 'a \<Rightarrow> 'a option) \<Rightarrow> 'a \<Rightarrow> json \<Rightarrow> 'a option \<Rightarrow> 'a option option" where
  "decode_pointer f new v a =
     (if v = JNull then Some None
      else map_option Some (f v (case a of Some x \<Rightarrow> x | None \<Rightarrow> new)))"

section \<open>Parsing inverts printing\<close>

lemma next_is_toks [simp]: "l \<in> {RBrack, RBrace, Colon, Comma} \<Longrightarrow> \<not> next_is l (toks v @ rest)"
  by (cases v) auto

lemma parse_complete:
  "length (toks v) \<le> n \<Longrightarrow> parse_value n (toks v @ rest) = Some (v, rest)"
  "length (toks_elements vs) < n \<Longrightarrow> vs \<noteq> [] \<Longrightarrow> \<not> next_is Comma rest \<Longrightarrow>
     parse_elements n (toks_elements vs @ rest) = Some (vs, rest)"
  "length (toks_members ms) < n \<Longrightarrow> ms \<noteq> [] \<Longrightarrow> \<not> next_is Comma rest \<Longrightarrow>
     parse_members n (toks_members ms @ rest) = Some (ms, rest)"
proof (induction v and vs and ms arbitrary: n rest and n rest and n rest rule: toks_toks_elements_toks_members.induct)
  case (5 vs)
  then obtain m where "n = Suc m" "length (toks_elements vs) < m"
    by (cases n) auto
  then show ?case
    using 5 by (cases vs) simp_all
next
  case (6 ms)
  then obtain m where "n = Suc m" "length (toks_members ms) < m"
    by (cases n) auto
  then show ?case
    using 6 by (cases ms) auto
next
  case (8 v vs)
  then obtain m where n: "n = Suc m"
    by (cases n) auto
  show ?case
  proof (cases "vs = []")
    case True
    then show ?thesis
      using 8 n by simp
  next
    case False
    then have "parse_value m (toks v @ Comma # toks_elements vs @ rest) = Some (v, Comma # toks_elements vs @ rest)"
      "parse_elements m (toks_elements vs @ rest) = Some (vs, rest)"
      using 8 n by auto
    then show ?thesis
      using False n by simp
  qed
next
  case (10 k v ms)
  then obtain m where n: "n = Suc m"
    by (cases n) auto
  show ?case
  proof (cases "ms = []")
    case True
    then show ?thesis
      using 10 n by simp
  next
    case False
    then have "parse_value m (toks v @ Comma # toks_members ms @ rest) = Some (v, Comma # toks_members ms @ rest)"
      "parse_members m (toks_members ms @ rest) = Some (ms, rest)"
      using 10 n by auto
    then show ?thesis
      using False n by simp
  qed
next
  case 1 then show ?case by (cases n) auto
next
  case 2 then show ?case by (cases n) auto
next
  case 3 then show ?case by (cases n) auto
next
  case 4 then show ?case by (cases n) auto
qed simp_all

lemma parse_sound:
  "parse_value n ls = Some (v, rest) \<Longrightarrow> ls = toks v @ rest"
  "parse_elements n ls = Some (vs, rest) \<Longrightarrow> ls = toks_elements vs @ rest \<and> vs \<noteq> []"
  "parse_members n ls = Some (ms, rest) \<Longrightarrow> ls = toks_members ms @ rest \<and> ms \<noteq> []"
proof (induction n ls and n ls and n ls arbitrary: v rest and vs rest and ms rest
    rule: parse_value_parse_elements_parse_members.induct)
  case (3 n l ls)
  show ?case
  proof (cases l)
    case LBrace
    then show ?thesis
      using 3 by (auto dest!: next_isD split: if_splits option.splits)
  next
    case LBrack
    then show ?thesis
      using 3 by (auto dest!: next_isD split: if_splits option.splits)
  qed (use 3(3) in auto)
next
  case (5 n ls)
  then obtain v ls' where v: "parse_value n ls = Some (v, ls')"
    by (auto split: option.splits)
  show ?case
  proof (cases "next_is Comma ls'")
    case True
    then obtain vs' where "parse_elements n (tl ls') = Some (vs', rest)" "vs = v # vs'"
      using 5(3) v by auto
    then show ?thesis
      using 5(1)[OF v] 5(2)[OF v refl True] next_isD[OF True] by auto
  qed (use 5(1)[OF v] 5(3) v in auto)
next
  case (7 n ls)
  then obtain k ls1 v ls' where ls: "ls = LString k # Colon # ls1" and v: "parse_value n ls1 = Some (v, ls')"
    by (auto split: list.splits lexeme.splits option.splits)
  show ?case
  proof (cases "next_is Comma ls'")
    case True
    then obtain ms' where "parse_members n (tl ls') = Some (ms', rest)" "ms = (k, v) # ms'"
      using 7(3) v ls by auto
    then show ?thesis
      using 7(1)[OF ls refl refl refl v] 7(2)[OF ls refl refl refl v refl True] next_isD[OF True] ls by auto
  qed (use 7(1)[OF ls refl refl refl v] 7(3) v ls in auto)
qed simp_all

definition parse_json :: "lexeme list \<Rightarrow> json option" where
  "parse_json ls = map_option fst (parse_value (length ls) ls)"

lemma parse_json_toks [simp]: "parse_json (toks v) = Some v"
  using parse_complete(1)[of v "length (toks v)" "[]"] by (simp add: parse_json_def)

end
