(* ===== verification/Rfc3339.thy ===== *)
theory Rfc3339
  imports JsonText
begin

text \<open>
  \<open>time.Time\<close> as \<open>MarshalJSON\<close> writes it (RFC 3339 with nanoseconds, in UTC, years 0 to 9999) and as
  \<open>UnmarshalJSON\<close> reads it (any offset).  A \<open>go_time\<close> counts nanoseconds from 1 January of year 1, in the
  proleptic Gregorian calendar.
\<close>

section \<open>The calendar\<close>

definition leap :: "int \<Rightarrow> bool" where
  "leap y \<longleftrightarrow> y mod 4 = 0 \<and> (y mod 100 \<noteq> 0 \<or> y mod 400 = 0)"

definition days_before_year :: "int \<Rightarrow> int" where
  "days_before_year y = (let p = y - 1 in 365 * p + p div 4 - p div 100 + p div 400)"

definition month_start :: "bool \<Rightarrow> nat \<Rightarrow> int" where
  "month_start lp m =
     [0, 31, 59, 90, 120, 151, 181, 212, 243, 273, 304, 334, 365] ! (m - 1) + (if lp \<and> m > 2 then 1 else 0)"

text \<open>The year of a day and the day within the year, both from day 0, 1 January of year 1.\<close>

definition year_day :: "int \<Rightarrow> int \<times> int" where
  "year_day d =
     (let a = d div 146097; r = d mod 146097;
          b = min 3 (r div 36524); r1 = r - b * 36524;
          c = r1 div 1461; r2 = r1 mod 1461;
          e = min 3 (r2 div 365)
      in (400 * a + 100 * b + 4 * c + e + 1, r2 - e * 365))"

definition month_of :: "bool \<Rightarrow> int \<Rightarrow> nat" where
  "month_of lp yd = (case find (\<lambda>m. yd < month_start lp (Suc m)) [1..<13] of Some m \<Rightarrow> m | None \<Rightarrow> 12)"

lemma year_day_parts:
  fixes d :: int
  obtains a b c e yd where "year_day d = (400 * a + 100 * b + 4 * c + e + 1, yd)"
    "0 \<le> b" "b \<le> 3" "0 \<le> c" "c \<le> 24" "0 \<le> e" "e \<le> 3" "0 \<le> yd" "yd < 366"
    "e < 3 \<or> (c = 24 \<and> b < 3) \<Longrightarrow> yd < 365"
    "d = 146097 * a + 36524 * b + 1461 * c + 365 * e + yd"
proof -
  define a r where "a = d div 146097" "r = d mod 146097"
  define b where "b = min 3 (r div 36524)"
  define r1 where "r1 = r - b * 36524"
  define c r2 where "c = r1 div 1461" "r2 = r1 mod 1461"
  define e where "e = min 3 (r2 div 365)"
  define yd where "yd = r2 - e * 365"
  have r: "0 \<le> r" "r < 146097" "d = 146097 * a + r"
    by (simp_all add: a_r_def)
  have b: "0 \<le> b" "b \<le> 3" "0 \<le> r1" "r1 \<le> 36524" "b < 3 \<Longrightarrow> r1 < 36524"
    using r by (auto simp: b_def r1_def min_def split: if_splits)
  have c: "r1 = 1461 * c + r2" "0 \<le> r2" "r2 < 1461"
    by (simp_all add: c_r2_def)
  then have c': "0 \<le> c" "c \<le> 24"
    using b by auto
  have e: "0 \<le> e" "e \<le> 3" "0 \<le> yd" "yd \<le> 365" "e < 3 \<Longrightarrow> yd < 365" "r2 = 365 * e + yd"
    using c by (auto simp: e_def yd_def min_def split: if_splits)
  have "yd < 365" if "e < 3 \<or> (c = 24 \<and> b < 3)"
  proof (cases "e = 3")
    case True
    with that have "c = 24" "b < 3"
      by auto
    then show ?thesis
      using True b(5) c(1) e(6) by simp
  qed (use e in auto)
  moreover have "year_day d = (400 * a + 100 * b + 4 * c + e + 1, yd)"
    unfolding year_day_def Let_def yd_def e_def c_r2_def r1_def b_def a_r_def by (rule refl)
  moreover have "d = 146097 * a + 36524 * b + 1461 * c + 365 * e + yd"
    using r c e by (simp add: r1_def)
  ultimately show ?thesis
    using that b c' e by auto
qed

lemma year_day_days:
  assumes "year_day d = (y, yd)"
  shows "d = days_before_year y + yd" "0 \<le> yd" "yd < (if leap y then 366 else 365)"
proof -
  obtain a b c e where y: "y = 400 * a + 100 * b + 4 * c + e + 1"
    and bounds: "0 \<le> b" "b \<le> 3" "0 \<le> c" "c \<le> 24" "0 \<le> e" "e \<le> 3" and yd: "0 \<le> yd" "yd < 366"
    "e < 3 \<or> (c = 24 \<and> b < 3) \<Longrightarrow> yd < 365"
    and d: "d = 146097 * a + 36524 * b + 1461 * c + 365 * e + yd"
    using assms by (rule_tac d = d in year_day_parts) auto
  define p where "p = y - 1"
  have p: "p div 4 = 100 * a + 25 * b + c" "p div 100 = 4 * a + b" "p div 400 = a"
    using bounds int_div_pos_eq[of p 4 "100 * a + 25 * b + c" e] int_div_pos_eq[of p 100 "4 * a + b" "4 * c + e"]
      int_div_pos_eq[of p 400 a "100 * b + 4 * c + e"] by (auto simp: p_def y)
  show "d = days_before_year y + yd"
    unfolding days_before_year_def Let_def p_def[symmetric] p by (simp add: d p_def y)
  show "0 \<le> yd" by (fact yd)
  have "leap y" if "\<not> (e < 3 \<or> (c = 24 \<and> b < 3))"
  proof -
    have e: "e = 3" and cb: "c < 24 \<or> (c = 24 \<and> b = 3)"
      using that bounds by auto
    have "y = 4 * (100 * a + 25 * b + c + 1)"
      using e by (simp add: y)
    then have "y mod 4 = 0"
      by simp
    moreover have "y mod 100 \<noteq> 0 \<or> y mod 400 = 0"
      using cb
    proof
      assume "c < 24"
      then have "y mod 100 = 4 * c + 4"
        using bounds e by (intro int_mod_pos_eq[of _ _ "4 * a + b"]) (auto simp: y)
      then show ?thesis
        using bounds by simp
    next
      assume "c = 24 \<and> b = 3"
      then have "y = 400 * (a + 1)"
        using e by (simp add: y)
      then show ?thesis by simp
    qed
    ultimately show ?thesis
      by (simp add: leap_def)
  qed
  then show "yd < (if leap y then 366 else 365)"
    using yd by auto
qed

lemma month_of_start:
  assumes "0 \<le> yd" "yd < (if lp then 366 else 365)"
  shows "1 \<le> month_of lp yd" "month_of lp yd \<le> 12" "month_start lp (month_of lp yd) \<le> yd"
    "yd < month_start lp (month_of lp yd + 1)"
proof -
  have ends: "month_start lp 1 = 0" "month_start lp 13 = (if lp then 366 else 365)"
    by (simp_all add: month_start_def)
  have "\<exists>m \<in> set [1..<13]. yd < month_start lp (Suc m)"
    using assms ends by (intro bexI[of _ 12]) auto
  then obtain m where m: "find (\<lambda>m. yd < month_start lp (Suc m)) [1..<13] = Some m"
    by (metis (no_types, lifting) find_None_iff not_None_eq)
  then obtain i where i: "i < 12" "m = Suc i" "yd < month_start lp (Suc m)"
    and before: "\<And>j. j < i \<Longrightarrow> \<not> yd < month_start lp (Suc (Suc j))"
    by (auto simp: find_Some_iff)
  have "month_start lp m \<le> yd"
    using before[of "i - 1"] ends assms i(2) by (cases i) auto
  then show "1 \<le> month_of lp yd" "month_of lp yd \<le> 12" "month_start lp (month_of lp yd) \<le> yd"
    "yd < month_start lp (month_of lp yd + 1)"
    using m i by (simp_all add: month_of_def)
qed

section \<open>Texts\<close>

text \<open>A number with \<open>k\<close> digits.\<close>

fun digits :: "nat \<Rightarrow> nat \<Rightarrow> string" where
  "digits 0 n = []"
| "digits (Suc k) n = digits k (n div 10) @ [char_of (48 + n mod 10)]"

definition rstrip_zeros :: "string \<Rightarrow> string" where
  "rstrip_zeros s = rev (dropWhile (\<lambda>c. c = CHR ''0'') (rev s))"

definition time_range :: "go_time \<Rightarrow> bool" where
  "time_range t \<longleftrightarrow> 0 \<le> fst (year_day (t div (86400 * Second))) \<and> fst (year_day (t div (86400 * Second))) \<le> 9999"

definition clock_text :: "nat \<Rightarrow> string" where
  "clock_text s = digits 2 (s div 3600) @ '':'' @ digits 2 (s div 60 mod 60) @ '':'' @ digits 2 (s mod 60)"

definition fraction_text :: "nat \<Rightarrow> string" where
  "fraction_text ns = (if ns = 0 then [] else ''.'' @ rstrip_zeros (digits 9 ns))"

definition date_text :: "int \<Rightarrow> string" where
  "date_text d =
     (case year_day d of (y, yd) \<Rightarrow>
        let m = month_of (leap y) yd
        in digits 4 (nat y) @ ''-'' @ digits 2 m @ ''-'' @ digits 2 (nat (yd - month_start (leap y) m + 1)))"

text \<open>\<open>Format(RFC3339Nano)\<close> of an instant in UTC, and \<open>MarshalJSON\<close> (without the quotes).\<close>

definition time_text :: "go_time \<Rightarrow> string" where
  "time_text t =
     (let d = t div (86400 * Second); r = nat (t mod (86400 * Second))
      in date_text d @ ''T'' @ clock_text (r div 1000000000) @ fraction_text (r mod 1000000000) @ ''Z'')"

definition parse_uint :: "string \<Rightarrow> nat \<Rightarrow> nat \<Rightarrow> nat option" where
  "parse_uint s lo hi =
     (if list_all is_digit s \<and> lo \<le> nat_of_text s \<and> nat_of_text s \<le> hi then Some (nat_of_text s) else None)"

definition days_in :: "bool \<Rightarrow> nat \<Rightarrow> nat" where
  "days_in lp m = nat (month_start lp (m + 1) - month_start lp m)"

definition parse_date :: "string \<Rightarrow> int option" where
  "parse_date s =
     (if length s = 10 \<and> s ! 4 = CHR ''-'' \<and> s ! 7 = CHR ''-'' then
        (case parse_uint (take 4 s) 0 9999 of None \<Rightarrow> None | Some y \<Rightarrow>
         case parse_uint (take 2 (drop 5 s)) 1 12 of None \<Rightarrow> None | Some m \<Rightarrow>
         case parse_uint (drop 8 s) 1 (days_in (leap (int y)) m) of None \<Rightarrow> None | Some day \<Rightarrow>
           Some (days_before_year (int y) + month_start (leap (int y)) m + int day - 1))
      else None)"

definition parse_clock :: "string \<Rightarrow> nat option" where
  "parse_clock s =
     (if length s = 8 \<and> s ! 2 = CHR '':'' \<and> s ! 5 = CHR '':'' then
        (case parse_uint (take 2 s) 0 23 of None \<Rightarrow> None | Some h \<Rightarrow>
         case parse_uint (take 2 (drop 3 s)) 0 59 of None \<Rightarrow> None | Some mi \<Rightarrow>
         case parse_uint (drop 6 s) 0 59 of None \<Rightarrow> None | Some sec \<Rightarrow> Some (3600 * h + 60 * mi + sec))
      else None)"

text \<open>The nanoseconds at the head of a text and what follows them.\<close>

definition parse_fraction :: "string \<Rightarrow> nat \<times> string" where
  "parse_fraction s =
     (if take 1 s = ''.'' \<and> takeWhile is_digit (tl s) \<noteq> []
      then (nat_of_text (take 9 (takeWhile is_digit (tl s) @ replicate 9 (CHR ''0''))), dropWhile is_digit (tl s))
      else (0, s))"

text \<open>The seconds an offset lies east of UTC.\<close>

definition parse_zone :: "string \<Rightarrow> int option" where
  "parse_zone s =
     (if s = ''Z'' then Some 0
      else if length s = 6 \<and> (s ! 0 = CHR ''+'' \<or> s ! 0 = CHR ''-'') \<and> s ! 3 = CHR '':'' then
        (case parse_uint (take 2 (drop 1 s)) 0 23 of None \<Rightarrow> None | Some h \<Rightarrow>
         case parse_uint (drop 4 s) 0 59 of None \<Rightarrow> None | Some mi \<Rightarrow>
           Some ((if s ! 0 = CHR ''-'' then -1 else 1) * int (3600 * h + 60 * mi)))
      else None)"

text \<open>\<open>UnmarshalJSON\<close> of a raw string (\<open>parseStrictRFC3339\<close>).\<close>

definition parse_time :: "string \<Rightarrow> go_time option" where
  "parse_time s =
     (case parse_date (take 10 s) of None \<Rightarrow> None | Some d \<Rightarrow>
      if take 1 (drop 10 s) \<noteq> ''T'' then None else
      case parse_clock (take 8 (drop 11 s)) of None \<Rightarrow> None | Some sec \<Rightarrow>
      case parse_fraction (drop 19 s) of (ns, s') \<Rightarrow>
      case parse_zone s' of None \<Rightarrow> None | Some z \<Rightarrow>
        Some ((d * 86400 + int sec - z) * Second + int ns))"

section \<open>What is written is read back\<close>

lemma length_digits [simp]: "length (digits k n) = k"
  by (induction k arbitrary: n) auto

lemma digits_digits [simp]: "list_all is_digit (digits k n)"
  by (induction k arbitrary: n) (auto simp: is_digit_def)

lemma nat_of_text_digits [simp]: "nat_of_text (digits k n) = n mod 10 ^ k"
proof (induction k arbitrary: n)
  case (Suc k)
  have "n mod 10 ^ Suc k = 10 * (n div 10 mod 10 ^ k) + n mod 10"
    by (simp add: mod_mult2_eq)
  then show ?case
    using Suc by simp
qed (simp add: nat_of_text_def)

lemma parse_uint_digits: "lo \<le> n \<Longrightarrow> n \<le> hi \<Longrightarrow> n < 10 ^ k \<Longrightarrow> parse_uint (digits k n) lo hi = Some n"
  by (simp add: parse_uint_def)

lemma month_length:
  assumes "1 \<le> m" "m \<le> (12 :: nat)"
  shows "month_start lp m \<le> month_start lp (m + 1)" "month_start lp (m + 1) \<le> month_start lp m + 31"
proof -
  have "m = 1 \<or> m = 2 \<or> m = 3 \<or> m = 4 \<or> m = 5 \<or> m = 6 \<or> m = 7 \<or> m = 8 \<or> m = 9 \<or> m = 10 \<or> m = 11 \<or> m = 12"
    using assms by presburger
  then show "month_start lp m \<le> month_start lp (m + 1)" "month_start lp (m + 1) \<le> month_start lp m + 31"
    by (auto simp: month_start_def)
qed

lemma parse_date_text:
  assumes "0 \<le> fst (year_day d)" "fst (year_day d) \<le> 9999"
  shows "parse_date (date_text d) = Some d" "length (date_text d) = 10"
proof -
  obtain y yd where y: "year_day d = (y, yd)"
    by fastforce
  define m where "m = month_of (leap y) yd"
  define day where "day = nat (yd - month_start (leap y) m + 1)"
  have yd: "d = days_before_year y + yd" "0 \<le> yd" "yd < (if leap y then 366 else 365)"
    using year_day_days[OF y] by auto
  have m: "1 \<le> m" "m \<le> 12" "month_start (leap y) m \<le> yd" "yd < month_start (leap y) (m + 1)"
    using month_of_start[OF yd(2,3)] by (simp_all add: m_def)
  have day: "1 \<le> day" "day \<le> days_in (leap y) m" "day \<le> 31" "int day = yd - month_start (leap y) m + 1"
    using m month_length[OF m(1,2), of "leap y"] by (auto simp: day_def days_in_def)
  have form: "date_text d = digits 4 (nat y) @ ''-'' @ digits 2 m @ ''-'' @ digits 2 day"
    by (simp add: date_text_def y Let_def m_def day_def)
  show "length (date_text d) = 10"
    by (simp add: form)
  have ynat: "int (nat y) = y" "nat y \<le> 9999"
    using assms by (simp_all add: y)
  have parts: "parse_uint (digits 4 (nat y)) 0 9999 = Some (nat y)" "parse_uint (digits 2 m) 1 12 = Some m"
    "parse_uint (digits 2 day) 1 (days_in (leap y) m) = Some day"
    using ynat m day by (intro parse_uint_digits; simp)+
  have "parse_date (digits 4 (nat y) @ ''-'' @ digits 2 m @ ''-'' @ digits 2 day)
      = Some (days_before_year y + month_start (leap y) m + int day - 1)"
    unfolding parse_date_def using ynat(1) by (simp add: nth_append parts del: One_nat_def digits.simps int_nat_eq)
  then show "parse_date (date_text d) = Some d"
    unfolding form using day(4) yd(1) by simp
qed

lemma parse_clock_text:
  assumes "s < 86400"
  shows "parse_clock (clock_text s) = Some s" "length (clock_text s) = 8"
proof -
  have h: "s div 3600 \<le> 23"
    using assms by (simp add: div_le_mono less_Suc_eq_le flip: div_less_iff_less_mult)
  have "s = 3600 * (s div 3600) + 60 * (s div 60 mod 60) + s mod 60"
    using div_mult2_eq[of s 60 60, simplified] mult_div_mod_eq[of 60 s] mult_div_mod_eq[of 60 "s div 60"] by linarith
  moreover have parts: "parse_uint (digits 2 (s div 3600)) 0 23 = Some (s div 3600)"
    "parse_uint (digits 2 (s div 60 mod 60)) 0 59 = Some (s div 60 mod 60)"
    "parse_uint (digits 2 (s mod 60)) 0 59 = Some (s mod 60)"
    using h by (intro parse_uint_digits; simp)+
  moreover have "parse_clock (clock_text s) = Some (3600 * (s div 3600) + 60 * (s div 60 mod 60) + s mod 60)"
    unfolding parse_clock_def clock_text_def by (simp add: nth_append parts del: digits.simps)
  ultimately show "parse_clock (clock_text s) = Some s"
    by simp
  show "length (clock_text s) = 8"
    by (simp add: clock_text_def)
qed

lemma dropWhile_all: "\<exists>n. xs = replicate n a @ dropWhile (\<lambda>c. c = a) xs"
proof (induction xs)
  case (Cons x xs)
  then obtain n where n: "xs = replicate n a @ dropWhile (\<lambda>c. c = a) xs"
    by blast
  show ?case
  proof (cases "x = a")
    case True
    then have "x # xs = replicate (Suc n) a @ dropWhile (\<lambda>c. c = a) (x # xs)"
      using n by simp
    then show ?thesis by blast
  qed (auto intro: exI[of _ 0])
qed simp

lemma rstrip_zeros:
  obtains n where "s = rstrip_zeros s @ replicate n (CHR ''0'')"
proof -
  obtain n where "rev s = replicate n (CHR ''0'') @ dropWhile (\<lambda>c. c = CHR ''0'') (rev s)"
    by (rule exE[OF dropWhile_all])
  then have "rev (rev s) = rev (replicate n (CHR ''0'') @ dropWhile (\<lambda>c. c = CHR ''0'') (rev s))"
    by (rule arg_cong)
  then show ?thesis
    unfolding rev_rev_ident rev_append rev_replicate rstrip_zeros_def[symmetric] by (rule that)
qed

lemma not_digits [simp]: "\<not> is_digit (CHR ''Z'')" "\<not> is_digit (CHR ''.'')" "is_digit (CHR ''0'')"
  by (simp_all add: is_digit_def code_def)

lemma parse_fraction_text:
  assumes "ns < 10 ^ 9"
  shows "parse_fraction (fraction_text ns @ ''Z'') = (ns, ''Z'')"
proof (cases "ns = 0")
  case True
  then show ?thesis
    by (simp add: fraction_text_def parse_fraction_def)
next
  case False
  define x where "x = rstrip_zeros (digits 9 ns)"
  obtain n where n: "digits 9 ns = x @ replicate n (CHR ''0'')"
    unfolding x_def by (rule rstrip_zeros)
  have zeros: "nat_of_text (replicate m (CHR ''0'')) = 0" for m
    by (induction m) (simp_all add: replicate_append_same[symmetric] nat_of_text_def code_def)
  have "list_all is_digit (x @ replicate n (CHR ''0''))"
    unfolding n[symmetric] by simp
  then have digit: "list_all is_digit x"
    by simp
  have ns: "nat_of_text (x @ replicate n (CHR ''0'')) = ns"
    unfolding n[symmetric] using assms by simp
  then have "x \<noteq> []"
    using zeros[of n] False by auto
  have len: "length x + n = 9"
    using arg_cong[OF n, of length] by simp
  then have "take 9 (x @ replicate 9 (CHR ''0'')) = x @ replicate n (CHR ''0'')"
    by simp
  then have "nat_of_text (take 9 (x @ replicate 9 (CHR ''0''))) = ns"
    using ns by simp
  moreover have "takeWhile is_digit (x @ ''Z'') = x" "dropWhile is_digit (x @ ''Z'') = ''Z''"
    using digit by (induction x) auto
  ultimately show ?thesis
    unfolding fraction_text_def parse_fraction_def x_def[symmetric] using False \<open>x \<noteq> []\<close> by simp
qed

lemma parse_time_text:
  assumes "time_range t"
  shows "parse_time (time_text t) = Some t"
proof -
  define d where "d = t div (86400 * Second)"
  define r where "r = nat (t mod (86400 * Second))"
  have r: "int r = t mod (86400 * Second)" "r < 86400 * 1000000000"
    by (simp_all add: r_def Second_def nat_less_iff)
  have sec: "r div 1000000000 < 86400"
    using r(2) by (simp add: less_mult_imp_div_less)
  have date: "parse_date (date_text d) = Some d" "length (date_text d) = 10"
    using assms parse_date_text by (simp_all add: time_range_def d_def)
  have form: "time_text t = date_text d @ ''T'' @ clock_text (r div 1000000000)
      @ fraction_text (r mod 1000000000) @ ''Z''"
    by (simp add: time_text_def Let_def d_def r_def)
  have t: "t = (d * 86400 + int (r div 1000000000)) * Second + int (r mod 1000000000)"
    using r(1) by (simp add: d_def Second_def algebra_simps zdiv_int zmod_int)
  have "parse_time (time_text t) = Some ((d * 86400 + int (r div 1000000000)) * Second + int (r mod 1000000000))"
    unfolding form parse_time_def using date parse_clock_text[OF sec] parse_fraction_text[of "r mod 1000000000"]
    by (simp add: parse_zone_def)
  then show ?thesis
    unfolding t[symmetric] .
qed

text \<open>The text needs no escapes.\<close>

definition plain_char :: "char \<Rightarrow> bool" where
  "plain_char c \<longleftrightarrow> is_digit c \<or> c \<in> {CHR ''-'', CHR '':'', CHR ''T'', CHR ''Z'', CHR ''.''}"

lemma escape_byte_plain: "plain_char c \<Longrightarrow> escape_byte c = [c] \<and> code c < 128"
proof -
  assume "plain_char c"
  then have "45 \<le> code c" "code c \<le> 90" "code c \<notin> {60, 62}"
    by (auto simp: plain_char_def is_digit_def code_def)
  moreover from this have "c \<notin> {quotes, backslash, CHR ''<'', CHR ''>'', CHR ''&''}"
    by (auto simp: code_def)
  ultimately show ?thesis
    by (simp add: escape_byte_def)
qed

lemma plain_digits [simp]: "list_all plain_char (digits k n)"
  using digits_digits[of k n] by (auto simp: plain_char_def list_all_iff)

lemma plain_time_text: "list_all plain_char (time_text t)"
proof -
  have "list_all plain_char (rstrip_zeros (digits 9 n))" for n
  proof -
    obtain k where "digits 9 n = rstrip_zeros (digits 9 n) @ replicate k (CHR ''0'')"
      by (rule rstrip_zeros)
    then show ?thesis
      using plain_digits[of 9 n] by (metis list_all_append)
  qed
  moreover have "plain_char (CHR ''-'')" "plain_char (CHR '':'')" "plain_char (CHR ''T'')" "plain_char (CHR ''Z'')"
    "plain_char (CHR ''.'')"
    by (simp_all add: plain_char_def)
  ultimately show ?thesis
    by (simp add: time_text_def Let_def date_text_def clock_text_def fraction_text_def del: digits.simps split: prod.splits)
qed

lemma escape_plain: "list_all plain_char s \<Longrightarrow> escape s = s \<and> utf8_Valid s"
proof (induction s)
  case (Cons c s)
  then show ?case
    using escape_append[OF is_rune_ascii, of c s] utf8_Valid_append[OF is_rune_ascii, of c s] escape_byte_plain[of c]
    by (simp add: escape_rune_def)
qed simp

end
