(* ===== verification/Wire.thy ===== *)
theory Wire
  imports Contract Json Rfc3339
begin

text \<open>
  Package \<open>internal/transport/process\<close>, \<open>wire.go\<close>: frames between the controller and a worker process, a
  big-endian length followed by a JSON text, and the check that no object of the text repeats a key.
\<close>

section \<open>Frames (wire.go)\<close>

definition WireVersion :: string where "WireVersion = ''1''"
definition MaxFrame :: nat where "MaxFrame = 1024 * 1024"
definition MaxStderr :: nat where "MaxStderr = 4096"
definition MaxIdentifier :: nat where "MaxIdentifier = 256"

record binding =
  bd_Task :: TaskID
  bd_Operation :: OperationID
  bd_Attempt :: AttemptID
  bd_Lease :: LeaseID
  bd_Generation :: uint64
  bd_Correlation :: CorrelationID
  bd_Offer :: MessageID
  bd_Worker :: ActorID
  bd_Provider :: string
  bd_Model :: string

definition bind :: "Job \<Rightarrow> binding" where
  "bind j = \<lparr>bd_Task = od_TaskID (job_Descriptor j), bd_Operation = rq_OperationID (job_Request j),
     bd_Attempt = rq_AttemptID (job_Request j), bd_Lease = rq_LeaseID (job_Request j),
     bd_Generation = job_Generation j, bd_Correlation = rq_CorrelationID (job_Request j),
     bd_Offer = rq_MessageID (job_Request j), bd_Worker = job_Worker j,
     bd_Provider = rq_Provider (job_Request j), bd_Model = rq_Model (job_Request j)\<rparr>"

record frame =
  fr_Version :: string
  fr_Kind :: string
  fr_Binding :: binding
  fr_Job :: "Job option"
  fr_Claim :: "Claim option"
  fr_Reason :: string
  fr_PID :: int

section \<open>Frames as JSON (the struct tags of wire.go, types.go and contract.go)\<close>

definition jstr :: "string \<Rightarrow> json" where "jstr s = JString (escape s)"
definition jint :: "int \<Rightarrow> json" where "jint i = JNumber (int_text i)"
definition juint :: "uint64 \<Rightarrow> json" where "juint w = JNumber (int_text (uint w))"
definition jtime :: "go_time \<Rightarrow> json" where "jtime t = JString (time_text t)"

fun effect_text :: "EffectClass \<Rightarrow> string" where
  "effect_text EffectReadOnly = ''read_only''"
| "effect_text EffectMutation = ''mutation''"
| "effect_text (EffectClassOther s) = s"

definition effect_of :: "string \<Rightarrow> EffectClass" where
  "effect_of s = (if s = ''read_only'' then EffectReadOnly else if s = ''mutation'' then EffectMutation
     else EffectClassOther s)"

fun idempotency_text :: "IdempotencyMode \<Rightarrow> string" where
  "idempotency_text IdempotencyUnknown = ''unknown''"
| "idempotency_text IdempotencyIdempotent = ''idempotent''"
| "idempotency_text IdempotencyConditional = ''conditional''"
| "idempotency_text (IdempotencyModeOther s) = s"

definition idempotency_of :: "string \<Rightarrow> IdempotencyMode" where
  "idempotency_of s = (if s = ''unknown'' then IdempotencyUnknown
     else if s = ''idempotent'' then IdempotencyIdempotent
     else if s = ''conditional'' then IdempotencyConditional else IdempotencyModeOther s)"

definition binding_json :: "binding \<Rightarrow> json" where
  "binding_json b = JObject
     [(''task'', jstr (bd_Task b)), (''operation'', jstr (bd_Operation b)), (''attempt'', jstr (bd_Attempt b)),
      (''lease'', jstr (bd_Lease b)), (''generation'', juint (bd_Generation b)),
      (''correlation'', jstr (bd_Correlation b)), (''offer'', jstr (bd_Offer b)), (''worker'', jstr (bd_Worker b)),
      (''provider'', jstr (bd_Provider b)), (''model'', jstr (bd_Model b))]"

definition limits_json :: "Limits \<Rightarrow> json" where
  "limits_json l = JObject
     [(''Duration'', jint (lim_Duration l)), (''InputBytes'', jint (lim_InputBytes l)),
      (''OutputBytes'', jint (lim_OutputBytes l)), (''Units'', jint (lim_Units l))]"

definition request_json :: "Request \<Rightarrow> json" where
  "request_json r = JObject
     [(''Version'', jstr (rq_Version r)), (''MessageID'', jstr (rq_MessageID r)),
      (''OperationID'', jstr (rq_OperationID r)), (''AttemptID'', jstr (rq_AttemptID r)),
      (''LeaseID'', jstr (rq_LeaseID r)), (''RetryOf'', jstr (rq_RetryOf r)),
      (''CorrelationID'', jstr (rq_CorrelationID r)), (''Revision'', juint (rq_Revision r)),
      (''IssuedAt'', jtime (rq_IssuedAt r)), (''Deadline'', jtime (rq_Deadline r)),
      (''Provider'', jstr (rq_Provider r)), (''Model'', jstr (rq_Model r)),
      (''DataClass'', jstr (rq_DataClass r)), (''Input'', jstr (rq_Input r)), (''Limits'', limits_json (rq_Limits r))]"

definition descriptor_json :: "OperationDescriptor \<Rightarrow> json" where
  "descriptor_json d = JObject
     ([(''operation_id'', jstr (od_ID d)), (''task_id'', jstr (od_TaskID d)), (''operation_name'', jstr (od_Name d)),
       (''target_ref'', jstr (od_TargetRef d)), (''effect_class'', jstr (effect_text (od_EffectClass d)))]
      @ (if od_ConflictScope d = [] then [] else [(''conflict_scope'', JArray (map jstr (od_ConflictScope d)))])
      @ [(''idempotency_mode'', jstr (idempotency_text (od_IdempotencyMode d))),
         (''verification_policy_ref'', jstr (od_VerificationPolicyRef d)),
         (''authorization_policy_ref'', jstr (od_AuthorizationPolicyRef d))])"

definition job_json :: "Job \<Rightarrow> json" where
  "job_json j = JObject
     [(''Request'', request_json (job_Request j)), (''Descriptor'', descriptor_json (job_Descriptor j)),
      (''Worker'', jstr (job_Worker j)), (''Generation'', juint (job_Generation j))]"

definition claim_json :: "Claim \<Rightarrow> json" where
  "claim_json c = JObject [(''Output'', jstr (cl_Output c)), (''Units'', jint (cl_Units c))]"

definition frame_json :: "frame \<Rightarrow> json" where
  "frame_json f = JObject
     ([(''version'', jstr (fr_Version f)), (''kind'', jstr (fr_Kind f)), (''binding'', binding_json (fr_Binding f))]
      @ (case fr_Job f of None \<Rightarrow> [] | Some j \<Rightarrow> [(''job'', job_json j)])
      @ (case fr_Claim f of None \<Rightarrow> [] | Some c \<Rightarrow> [(''claim'', claim_json c)])
      @ (if fr_Reason f = [] then [] else [(''reason'', jstr (fr_Reason f))])
      @ (if fr_PID f = 0 then [] else [(''pid'', jint (fr_PID f))]))"

text \<open>\<open>json.Marshal(f)\<close>: a \<open>time.Time\<close> outside the years 0 to 9999 is an error.\<close>

definition job_times_ok :: "Job \<Rightarrow> bool" where
  "job_times_ok j \<longleftrightarrow> time_range (rq_IssuedAt (job_Request j)) \<and> time_range (rq_Deadline (job_Request j))"

definition marshal_frame :: "frame \<Rightarrow> string option" where
  "marshal_frame f =
     (if (case fr_Job f of None \<Rightarrow> True | Some j \<Rightarrow> job_times_ok j) then Some (json_text (frame_json f)) else None)"

text \<open>\<open>Decode(&f)\<close> with \<open>DisallowUnknownFields\<close>.\<close>

definition field :: "string \<Rightarrow> (json \<Rightarrow> 'b \<Rightarrow> 'b option) \<Rightarrow> ('a \<Rightarrow> 'b) \<Rightarrow> (('b \<Rightarrow> 'b) \<Rightarrow> 'a \<Rightarrow> 'a)
    \<Rightarrow> string \<times> (json \<Rightarrow> 'a \<Rightarrow> 'a option)" where
  "field n dec get upd = (n, \<lambda>v a. map_option (\<lambda>x. upd (\<lambda>_. x) a) (dec v (get a)))"

fun decode_time :: "json \<Rightarrow> go_time \<Rightarrow> go_time option" where
  "decode_time JNull t = Some t"
| "decode_time (JString raw) t = parse_time raw"
| "decode_time _ t = None"

definition decode_effect :: "json \<Rightarrow> EffectClass \<Rightarrow> EffectClass option" where
  "decode_effect v e = map_option effect_of (decode_string v (effect_text e))"

definition decode_idempotency :: "json \<Rightarrow> IdempotencyMode \<Rightarrow> IdempotencyMode option" where
  "decode_idempotency v e = map_option idempotency_of (decode_string v (idempotency_text e))"

definition binding_fields :: "binding fields" where
  "binding_fields =
     [field ''task'' decode_string bd_Task bd_Task_update,
      field ''operation'' decode_string bd_Operation bd_Operation_update,
      field ''attempt'' decode_string bd_Attempt bd_Attempt_update,
      field ''lease'' decode_string bd_Lease bd_Lease_update,
      field ''generation'' decode_uint64 bd_Generation bd_Generation_update,
      field ''correlation'' decode_string bd_Correlation bd_Correlation_update,
      field ''offer'' decode_string bd_Offer bd_Offer_update,
      field ''worker'' decode_string bd_Worker bd_Worker_update,
      field ''provider'' decode_string bd_Provider bd_Provider_update,
      field ''model'' decode_string bd_Model bd_Model_update]"

definition limits_fields :: "Limits fields" where
  "limits_fields =
     [field ''Duration'' decode_int lim_Duration lim_Duration_update,
      field ''InputBytes'' decode_int lim_InputBytes lim_InputBytes_update,
      field ''OutputBytes'' decode_int lim_OutputBytes lim_OutputBytes_update,
      field ''Units'' decode_int lim_Units lim_Units_update]"

definition request_fields :: "Request fields" where
  "request_fields =
     [field ''Version'' decode_string rq_Version rq_Version_update,
      field ''MessageID'' decode_string rq_MessageID rq_MessageID_update,
      field ''OperationID'' decode_string rq_OperationID rq_OperationID_update,
      field ''AttemptID'' decode_string rq_AttemptID rq_AttemptID_update,
      field ''LeaseID'' decode_string rq_LeaseID rq_LeaseID_update,
      field ''RetryOf'' decode_string rq_RetryOf rq_RetryOf_update,
      field ''CorrelationID'' decode_string rq_CorrelationID rq_CorrelationID_update,
      field ''Revision'' decode_uint64 rq_Revision rq_Revision_update,
      field ''IssuedAt'' decode_time rq_IssuedAt rq_IssuedAt_update,
      field ''Deadline'' decode_time rq_Deadline rq_Deadline_update,
      field ''Provider'' decode_string rq_Provider rq_Provider_update,
      field ''Model'' decode_string rq_Model rq_Model_update,
      field ''DataClass'' decode_string rq_DataClass rq_DataClass_update,
      field ''Input'' decode_string rq_Input rq_Input_update,
      field ''Limits'' (decode_struct limits_fields) rq_Limits rq_Limits_update]"

definition descriptor_fields :: "OperationDescriptor fields" where
  "descriptor_fields =
     [field ''operation_id'' decode_string od_ID od_ID_update,
      field ''task_id'' decode_string od_TaskID od_TaskID_update,
      field ''operation_name'' decode_string od_Name od_Name_update,
      field ''target_ref'' decode_string od_TargetRef od_TargetRef_update,
      field ''effect_class'' decode_effect od_EffectClass od_EffectClass_update,
      field ''conflict_scope'' decode_strings od_ConflictScope od_ConflictScope_update,
      field ''idempotency_mode'' decode_idempotency od_IdempotencyMode od_IdempotencyMode_update,
      field ''verification_policy_ref'' decode_string od_VerificationPolicyRef od_VerificationPolicyRef_update,
      field ''authorization_policy_ref'' decode_string od_AuthorizationPolicyRef od_AuthorizationPolicyRef_update]"

definition job_fields :: "Job fields" where
  "job_fields =
     [field ''Request'' (decode_struct request_fields) job_Request job_Request_update,
      field ''Descriptor'' (decode_struct descriptor_fields) job_Descriptor job_Descriptor_update,
      field ''Worker'' decode_string job_Worker job_Worker_update,
      field ''Generation'' decode_uint64 job_Generation job_Generation_update]"

definition claim_fields :: "Claim fields" where
  "claim_fields =
     [field ''Output'' decode_string cl_Output cl_Output_update,
      field ''Units'' decode_int cl_Units cl_Units_update]"

definition zero_binding :: binding where
  "zero_binding = \<lparr>bd_Task = [], bd_Operation = [], bd_Attempt = [], bd_Lease = [], bd_Generation = 0,
     bd_Correlation = [], bd_Offer = [], bd_Worker = [], bd_Provider = [], bd_Model = []\<rparr>"

definition zero_limits :: Limits where
  "zero_limits = \<lparr>lim_Duration = 0, lim_InputBytes = 0, lim_OutputBytes = 0, lim_Units = 0\<rparr>"

definition zero_request :: Request where
  "zero_request = \<lparr>rq_Version = [], rq_MessageID = [], rq_OperationID = [], rq_AttemptID = [], rq_LeaseID = [],
     rq_RetryOf = [], rq_CorrelationID = [], rq_Revision = 0, rq_IssuedAt = zero_time, rq_Deadline = zero_time,
     rq_Provider = [], rq_Model = [], rq_DataClass = [], rq_Input = [], rq_Limits = zero_limits\<rparr>"

definition zero_descriptor :: OperationDescriptor where
  "zero_descriptor = \<lparr>od_ID = [], od_TaskID = [], od_Name = [], od_TargetRef = [], od_EffectClass = EffectClassOther [],
     od_ConflictScope = [], od_IdempotencyMode = IdempotencyModeOther [], od_VerificationPolicyRef = [],
     od_AuthorizationPolicyRef = []\<rparr>"

definition zero_job :: Job where
  "zero_job = \<lparr>job_Request = zero_request, job_Descriptor = zero_descriptor, job_Worker = [], job_Generation = 0\<rparr>"

definition zero_claim :: Claim where "zero_claim = \<lparr>cl_Output = [], cl_Units = 0\<rparr>"

definition zero_frame :: frame where
  "zero_frame = \<lparr>fr_Version = [], fr_Kind = [], fr_Binding = zero_binding, fr_Job = None, fr_Claim = None,
     fr_Reason = [], fr_PID = 0\<rparr>"

definition frame_fields :: "frame fields" where
  "frame_fields =
     [field ''version'' decode_string fr_Version fr_Version_update,
      field ''kind'' decode_string fr_Kind fr_Kind_update,
      field ''binding'' (decode_struct binding_fields) fr_Binding fr_Binding_update,
      field ''job'' (decode_pointer (decode_struct job_fields) zero_job) fr_Job fr_Job_update,
      field ''claim'' (decode_pointer (decode_struct claim_fields) zero_claim) fr_Claim fr_Claim_update,
      field ''reason'' decode_string fr_Reason fr_Reason_update,
      field ''pid'' decode_int fr_PID fr_PID_update]"

section \<open>Unique keys (wire.go: uniqueJSON)\<close>

text \<open>
  The loops over the members of an object and over the elements of an array are the functions of that
  name.  Each call of \<open>Token\<close> consumes input, which is why the recursion ends.
\<close>

function uniqueJSON :: "decoder \<Rightarrow> nat \<Rightarrow> decoder result"
and unique_members :: "decoder \<Rightarrow> nat \<Rightarrow> string list \<Rightarrow> decoder result"
and unique_elements :: "decoder \<Rightarrow> nat \<Rightarrow> decoder result" where
  "uniqueJSON d depth =
     (if depth > 32 then Inl ErrWire
      else case Token d of
        Inl _ \<Rightarrow> Inl ErrWire
      | Inr (Delim LBrace, d1) \<Rightarrow> unique_members d1 depth []
      | Inr (Delim LBrack, d1) \<Rightarrow> unique_elements d1 depth
      | Inr (Delim _, d1) \<Rightarrow> Inl ErrWire
      | Inr (_, d1) \<Rightarrow> Inr d1)"
| "unique_members d depth seen =
     (if More d then
        (case Token d of
           Inr (Text key, d1) \<Rightarrow>
             let k = ToLower key in
             if k \<in> set seen then Inl ErrWire
             else (case uniqueJSON d1 (depth + 1) of
                     Inl e \<Rightarrow> Inl e
                   | Inr d2 \<Rightarrow> unique_members d2 depth (k # seen))
         | _ \<Rightarrow> Inl ErrWire)
      else (case Token d of Inr (Delim RBrace, d1) \<Rightarrow> Inr d1 | _ \<Rightarrow> Inl ErrWire))"
| "unique_elements d depth =
     (if More d then
        (case uniqueJSON d (depth + 1) of
           Inl e \<Rightarrow> Inl e
         | Inr d1 \<Rightarrow> unique_elements d1 depth)
      else (case Token d of Inr (Delim RBrack, d1) \<Rightarrow> Inr d1 | _ \<Rightarrow> Inl ErrWire))"
  by pat_completeness auto

lemma unique_shorter:
  "uniqueJSON_unique_members_unique_elements_dom (Inl (d, depth)) \<Longrightarrow> uniqueJSON d depth = Inr d' \<Longrightarrow>
     length (dec_Rest d') < length (dec_Rest d)"
  "uniqueJSON_unique_members_unique_elements_dom (Inr (Inl (m, depthm, seen))) \<Longrightarrow> unique_members m depthm seen = Inr d' \<Longrightarrow>
     length (dec_Rest d') < length (dec_Rest m)"
  "uniqueJSON_unique_members_unique_elements_dom (Inr (Inr (e, depthe))) \<Longrightarrow> unique_elements e depthe = Inr d' \<Longrightarrow>
     length (dec_Rest d') < length (dec_Rest e)"
proof (induction d depth and m depthm seen and e depthe arbitrary: d' and d' and d'
    rule: uniqueJSON_unique_members_unique_elements.pinduct)
  case (1 d depth)
  then show ?case
    by (fastforce simp: uniqueJSON.psimps dest!: Token_shorter split: if_splits sum.splits prod.splits token.splits lexeme.splits)
next
  case (2 d depth seen)
  then show ?case
    by (fastforce simp: unique_members.psimps Let_def dest!: Token_shorter
        split: if_splits sum.splits prod.splits token.splits lexeme.splits)
next
  case (3 d depth)
  then show ?case
    by (fastforce simp: unique_elements.psimps dest!: Token_shorter
        split: if_splits sum.splits prod.splits token.splits lexeme.splits)
qed

termination uniqueJSON
proof (relation "measure (\<lambda>x. case x of Inl (d, _) \<Rightarrow> 2 * length (dec_Rest d)
    | Inr (Inl (d, _, _)) \<Rightarrow> 2 * length (dec_Rest d) + 1 | Inr (Inr (d, _)) \<Rightarrow> 2 * length (dec_Rest d) + 1)")
qed (auto dest!: Token_shorter unique_shorter)

declare uniqueJSON.simps [simp del] unique_members.simps [simp del] unique_elements.simps [simp del]

text \<open>What the check is for: no object repeats a key up to \<open>ToLower\<close>, and values nest at most 32 deep.\<close>

definition member_key :: "string \<times> json \<Rightarrow> string" where
  "member_key m = ToLower (unquote (fst m))"

fun unique_keys :: "json \<Rightarrow> bool" where
  "unique_keys (JArray vs) = list_all unique_keys vs"
| "unique_keys (JObject ms) =
     (distinct (map member_key ms) \<and> list_all (\<lambda>(k, v). unique_keys v) ms)"
| "unique_keys _ = True"

fun within_depth :: "nat \<Rightarrow> json \<Rightarrow> bool" where
  "within_depth n (JArray vs) = list_all (\<lambda>v. 0 < n \<and> within_depth (n - 1) v) vs"
| "within_depth n (JObject ms) = list_all (\<lambda>(k, v). 0 < n \<and> within_depth (n - 1) v) ms"
| "within_depth n _ = True"

definition orderly :: "nat \<Rightarrow> json \<Rightarrow> bool" where
  "orderly depth v \<longleftrightarrow> depth \<le> 32 \<and> unique_keys v \<and> within_depth (32 - depth) v"

lemma uniqueJSON_Token: "Token d = Token d' \<Longrightarrow> uniqueJSON d depth = uniqueJSON d' depth"
  by (simp add: uniqueJSON.simps)

abbreviation at :: "token_state \<Rightarrow> token_state list \<Rightarrow> lexeme list \<Rightarrow> decoder" where
  "at s k ls \<equiv> \<lparr>dec_State = s, dec_Stack = k, dec_Rest = ls\<rparr>"

lemma More_simps [simp]: "More (at s k []) = False" "More (at s k (l # ls)) = (l \<noteq> RBrack \<and> l \<noteq> RBrace)"
  "More (at s k (toks v @ ls))"
  by (auto simp: More_def) (cases v; simp)

lemma value_allowed_simps [simp]:
  "value_allowed TopValue" "value_allowed ArrayStart" "value_allowed ArrayValue" "value_allowed ObjectValue"
  by (simp_all add: value_allowed_def)

lemma unique_elements_comma:
  assumes "\<And>v s k rest. v \<in> set vs \<Longrightarrow> value_allowed s \<Longrightarrow>
      uniqueJSON (at s k (toks v @ rest)) (Suc depth)
        = (if orderly (Suc depth) v then Inr (at (value_end s) k rest) else Inl ErrWire)"
  shows "unique_elements (at ArrayComma (s # k) ((if vs = [] then [] else Comma # toks_elements vs) @ RBrack # rest)) depth
    = (if list_all (orderly (Suc depth)) vs then Inr (at (value_end s) k rest) else Inl ErrWire)"
  using assms
proof (induction vs)
  case Nil
  then show ?case
    by (subst unique_elements.simps) (simp add: Token_def)
next
  case (Cons v vs)
  let ?more = "(if vs = [] then [] else Comma # toks_elements vs) @ RBrack # rest"
  have "uniqueJSON (at ArrayComma (s # k) (Comma # toks v @ ?more)) (Suc depth)
      = uniqueJSON (at ArrayValue (s # k) (toks v @ ?more)) (Suc depth)"
    by (rule uniqueJSON_Token) (simp add: Token_def)
  then have "uniqueJSON (at ArrayComma (s # k) (Comma # toks v @ ?more)) (Suc depth)
      = (if orderly (Suc depth) v then Inr (at ArrayComma (s # k) ?more) else Inl ErrWire)"
    using Cons.prems[of v ArrayValue "s # k" ?more] by (simp add: value_end_def)
  then show ?case
    using Cons.IH Cons.prems by (subst unique_elements.simps) simp
qed

lemma unique_members_comma:
  assumes "\<And>key v s k rest. (key, v) \<in> set ms \<Longrightarrow> value_allowed s \<Longrightarrow>
      uniqueJSON (at s k (toks v @ rest)) (Suc depth)
        = (if orderly (Suc depth) v then Inr (at (value_end s) k rest) else Inl ErrWire)"
  shows "unique_members (at ObjectComma (s # k) ((if ms = [] then [] else Comma # toks_members ms) @ RBrace # rest)) depth seen
    = (if distinct (map member_key ms) \<and> member_key ` set ms \<inter> set seen = {}
          \<and> list_all (\<lambda>(k, v). orderly (Suc depth) v) ms
       then Inr (at (value_end s) k rest) else Inl ErrWire)"
  using assms
proof (induction ms arbitrary: seen)
  case Nil
  then show ?case
    by (subst unique_members.simps) (simp add: Token_def)
next
  case (Cons m ms)
  obtain key v where m: "m = (key, v)"
    by fastforce
  let ?more = "(if ms = [] then [] else Comma # toks_members ms) @ RBrace # rest"
  have "uniqueJSON (at ObjectColon (s # k) (Colon # toks v @ ?more)) (Suc depth)
      = uniqueJSON (at ObjectValue (s # k) (toks v @ ?more)) (Suc depth)"
    by (rule uniqueJSON_Token) (simp add: Token_def)
  then have val: "uniqueJSON (at ObjectColon (s # k) (Colon # toks v @ ?more)) (Suc depth)
      = (if orderly (Suc depth) v then Inr (at ObjectComma (s # k) ?more) else Inl ErrWire)"
    using Cons.prems[of key v ObjectValue "s # k" ?more] by (simp add: value_end_def m)
  have tok: "Token (at ObjectComma (s # k) (Comma # LString key # Colon # toks v @ ?more))
      = Inr (Text (unquote key), at ObjectColon (s # k) (Colon # toks v @ ?more))"
    by (simp add: Token_def)
  have mk: "member_key (key, v) = ToLower (unquote key)"
    by (simp add: member_key_def)
  show ?case
  proof (cases "ToLower (unquote key) \<in> set seen")
    case True
    then show ?thesis
      using tok by (subst unique_members.simps) (simp add: m member_key_def)
  next
    case False
    have IH: "unique_members (at ObjectComma (s # k) ?more) depth (ToLower (unquote key) # seen)
      = (if distinct (map member_key ms)
            \<and> member_key ` set ms \<inter> set (ToLower (unquote key) # seen) = {}
            \<and> list_all (\<lambda>(k, v). orderly (Suc depth) v) ms
         then Inr (at (value_end s) k rest) else Inl ErrWire)"
    proof (rule Cons.IH)
      fix key v s k rest
      assume "(key, v) \<in> set ms" "value_allowed s"
      then show "uniqueJSON (at s k (toks v @ rest)) (Suc depth)
          = (if orderly (Suc depth) v then Inr (at (value_end s) k rest) else Inl ErrWire)"
        using Cons.prems[of key v s k rest] by simp
    qed
    show ?thesis
      using False tok val IH by (subst unique_members.simps) (auto simp: m mk)
  qed
qed

lemma orderly_nested:
  "orderly depth (JArray vs) \<longleftrightarrow> depth \<le> 32 \<and> list_all (orderly (Suc depth)) vs"
  "orderly depth (JObject ms) \<longleftrightarrow> depth \<le> 32 \<and> distinct (map member_key ms)
     \<and> list_all (\<lambda>(k, v). orderly (Suc depth) v) ms"
  by (auto simp: orderly_def list_all_iff)

lemma uniqueJSON_toks:
  "value_allowed s \<Longrightarrow> uniqueJSON (at s k (toks v @ rest)) depth
     = (if orderly depth v then Inr (at (value_end s) k rest) else Inl ErrWire)"
proof (induction v arbitrary: s k rest depth)
  case (JArray vs)
  show ?case
  proof (cases "depth \<le> 32")
    case True
    have comma: "unique_elements (at ArrayComma (s # k) ((if ws = [] then [] else Comma # toks_elements ws) @ RBrack # rest)) depth
      = (if list_all (orderly (Suc depth)) ws then Inr (at (value_end s) k rest) else Inl ErrWire)"
      if "set ws \<subseteq> set vs" for ws
      using that JArray.IH by (intro unique_elements_comma) auto
    have "unique_elements (at ArrayStart (s # k) (toks_elements vs @ RBrack # rest)) depth
      = (if list_all (orderly (Suc depth)) vs then Inr (at (value_end s) k rest) else Inl ErrWire)"
    proof (cases vs)
      case Nil
      then show ?thesis
        by (subst unique_elements.simps) (simp add: Token_def)
    next
      case (Cons v ws)
      then show ?thesis
        using JArray.IH[of v ArrayStart] comma[of ws] subset_insertI[of "set ws" v]
        by (subst unique_elements.simps) (simp add: value_end_def[of ArrayStart])
    qed
    then show ?thesis
      using True JArray.prems by (subst uniqueJSON.simps) (simp add: Token_def orderly_nested)
  qed (subst uniqueJSON.simps, simp add: orderly_def)
next
  case (JObject ms)
  show ?case
  proof (cases "depth \<le> 32")
    case True
    have IH: "uniqueJSON (at s' k' (toks v @ rest')) (Suc depth)
        = (if orderly (Suc depth) v then Inr (at (value_end s') k' rest') else Inl ErrWire)"
      if "(key, v) \<in> set ms" "value_allowed s'" for key v s' k' rest'
      using JObject.IH[of "(key, v)" v s'] that by simp
    have "unique_members (at ObjectStart (s # k) (toks_members ms @ RBrace # rest)) depth []
      = (if distinct (map member_key ms) \<and> list_all (\<lambda>(k, v). orderly (Suc depth) v) ms
         then Inr (at (value_end s) k rest) else Inl ErrWire)"
    proof (cases ms)
      case Nil
      then show ?thesis
        by (subst unique_members.simps) (simp add: Token_def)
    next
      case (Cons m ns)
      have "unique_members (at ObjectStart (s # k) (toks_members ms @ RBrace # rest)) depth []
          = unique_members (at ObjectComma (s # k) (Comma # toks_members ms @ RBrace # rest)) depth []"
        using Cons by (cases m) (subst (1 2) unique_members.simps, simp add: Token_def)
      then show ?thesis
        using unique_members_comma[of ms depth s k rest "[]"] IH Cons by simp
    qed
    then show ?thesis
      using True JObject.prems by (subst uniqueJSON.simps) (simp add: Token_def orderly_nested)
  qed (subst uniqueJSON.simps, simp add: orderly_def)
qed (subst uniqueJSON.simps, auto simp: Token_def orderly_def value_allowed_def)+

lemma uniqueJSON_value:
  "uniqueJSON (NewDecoder (toks v @ rest)) 0 = (if orderly 0 v then Inr (NewDecoder rest) else Inl ErrWire)"
  using uniqueJSON_toks[of TopValue "[]" v rest 0] by (simp add: NewDecoder_def value_end_def)

section \<open>Writing and reading frames (wire.go)\<close>

text \<open>
  An \<open>io.Writer\<close> answers its \<open>n\<close>-th \<open>Write\<close> with a count and an error; as many bytes as it counts have
  been written.  An \<open>io.Reader\<close> is the bytes it will deliver, in whatever portions, and how it ends.
\<close>

type_synonym write_answer = "nat \<Rightarrow> string \<Rightarrow> int \<times> error option"

record writer =
  wr_Sent :: string
  wr_Calls :: nat

record reader =
  rd_Bytes :: string
  rd_End :: error

definition Write :: "write_answer \<Rightarrow> string \<Rightarrow> writer \<Rightarrow> (int \<times> error option) \<times> writer" where
  "Write answer b w =
     (case answer (wr_Calls w) b of
        (n, err) \<Rightarrow> ((n, err), \<lparr>wr_Sent = wr_Sent w @ take (nat n) b, wr_Calls = Suc (wr_Calls w)\<rparr>))"

function writeAll :: "write_answer \<Rightarrow> string \<Rightarrow> writer \<Rightarrow> unit result \<times> writer" where
  "writeAll answer b w =
     (if b = [] then (Inr (), w)
      else case Write answer b w of
        ((n, Some e), w') \<Rightarrow> (Inl e, w')
      | ((n, None), w') \<Rightarrow>
          if n \<le> 0 \<or> n > int (length b) then (Inl ErrShortWrite, w')
          else writeAll answer (drop (nat n) b) w')"
  by pat_completeness auto
termination writeAll
  by (relation "measure (\<lambda>(_, b, _). length b)") auto

declare writeAll.simps [simp del]

definition BigEndian_PutUint32 :: "32 word \<Rightarrow> string" where
  "BigEndian_PutUint32 w =
     [char_of (unat w div 16777216), char_of (unat w div 65536 mod 256), char_of (unat w div 256 mod 256),
      char_of (unat w mod 256)]"

definition BigEndian_Uint32 :: "string \<Rightarrow> 32 word" where
  "BigEndian_Uint32 b =
     of_nat (16777216 * code (b ! 0) + 65536 * code (b ! 1) + 256 * code (b ! 2) + code (b ! 3))"

definition writeFrame :: "write_answer \<Rightarrow> frame \<Rightarrow> writer \<Rightarrow> unit result \<times> writer" where
  "writeFrame answer f w =
     (case marshal_frame f of
        None \<Rightarrow> (Inl ErrWire, w)
      | Some b \<Rightarrow>
          if length b = 0 \<or> length b > MaxFrame then (Inl ErrWire, w)
          else
            (case writeAll answer (BigEndian_PutUint32 (of_nat (length b))) w of
               (Inl _, w1) \<Rightarrow> (Inl ErrWire, w1)
             | (Inr _, w1) \<Rightarrow>
                 (case writeAll answer b w1 of
                    (Inl _, w2) \<Rightarrow> (Inl ErrWire, w2)
                  | (Inr _, w2) \<Rightarrow> (Inr (), w2))))"

definition ErrUnexpectedEOF :: error where "ErrUnexpectedEOF = ErrText ''unexpected EOF''"

definition ReadFull :: "nat \<Rightarrow> reader \<Rightarrow> (string \<times> error option) \<times> reader" where
  "ReadFull n r =
     (if n \<le> length (rd_Bytes r) then ((take n (rd_Bytes r), None), r\<lparr>rd_Bytes := drop n (rd_Bytes r)\<rparr>)
      else ((rd_Bytes r, Some (if rd_Bytes r \<noteq> [] \<and> rd_End r = ErrEOF then ErrUnexpectedEOF else rd_End r)),
            r\<lparr>rd_Bytes := []\<rparr>))"

text \<open>The part of \<open>readFrame\<close> after the bytes of the frame are read.\<close>

definition decode_frame :: "string \<Rightarrow> frame result" where
  "decode_frame b =
     (if \<not> utf8_Valid b then Inl ErrWire else
      case lex b of None \<Rightarrow> Inl ErrWire | Some ls \<Rightarrow>
      case uniqueJSON (NewDecoder ls) 0 of Inl _ \<Rightarrow> Inl ErrWire | Inr keys \<Rightarrow>
      if Token keys \<noteq> Inl ErrEOF then Inl ErrWire else
      case parse_json ls of None \<Rightarrow> Inl ErrWire | Some v \<Rightarrow>
      case decode_struct frame_fields v zero_frame of None \<Rightarrow> Inl ErrWire | Some f \<Rightarrow>
      if fr_Version f \<noteq> WireVersion then Inl ErrWire else Inr f)"

definition readFrame :: "reader \<Rightarrow> frame result \<times> reader" where
  "readFrame r =
     (case ReadFull 4 r of
        ((header, Some e), r1) \<Rightarrow> (Inl (if header = [] \<and> e = ErrEOF then ErrEOF else ErrWire), r1)
      | ((header, None), r1) \<Rightarrow>
          let size = unat (BigEndian_Uint32 header) in
          if size = 0 \<or> size > MaxFrame then (Inl ErrWire, r1)
          else
            (case ReadFull size r1 of
               ((_, Some _), r2) \<Rightarrow> (Inl ErrWire, r2)
             | ((b, None), r2) \<Rightarrow> (decode_frame b, r2)))"

section \<open>What is written is read back\<close>

lemma writeAll_Inr: "writeAll answer b w = (Inr u, w') \<Longrightarrow> wr_Sent w' = wr_Sent w @ b"
proof (induction answer b w rule: writeAll.induct)
  case (1 answer b w)
  show ?case
  proof (cases "b = []")
    case True
    then show ?thesis
      using 1(2) by (subst (asm) writeAll.simps) simp
  next
    case False
    then obtain n where n: "Write answer b w = ((n, None), \<lparr>wr_Sent = wr_Sent w @ take (nat n) b, wr_Calls = Suc (wr_Calls w)\<rparr>)"
      "\<not> (n \<le> 0 \<or> n > int (length b))"
      using 1(2) by (subst (asm) writeAll.simps) (auto simp: Write_def split: prod.splits option.splits if_splits)
    moreover have "writeAll answer (drop (nat n) b) \<lparr>wr_Sent = wr_Sent w @ take (nat n) b, wr_Calls = Suc (wr_Calls w)\<rparr> = (Inr u, w')"
      using 1(2) n False by (subst (asm) writeAll.simps) simp
    ultimately show ?thesis
      using 1(1)[OF False n(1)[symmetric] refl refl n(2)] by simp
  qed
qed

lemma length_PutUint32 [simp]: "length (BigEndian_PutUint32 w) = 4"
  by (simp add: BigEndian_PutUint32_def)

lemma BigEndian_roundtrip: "BigEndian_Uint32 (BigEndian_PutUint32 w @ b) = w"
proof -
  have w: "unat w < 4294967296"
    using unsigned_less[of w] by simp
  have "16777216 * (n div 16777216) + 65536 * (n div 65536 mod 256) + 256 * (n div 256 mod 256) + n mod 256 = n" for n :: nat
    using div_mult2_eq[of n 256 256, simplified] div_mult2_eq[of n 65536 256, simplified] mult_div_mod_eq[of 256 n]
      mult_div_mod_eq[of 256 "n div 256"] mult_div_mod_eq[of 256 "n div 65536"] by linarith
  moreover have "unat w div 16777216 < 256"
    using w by (simp add: less_mult_imp_div_less)
  moreover have "code (char_of n) = n mod 256" for n :: nat
    by (simp add: code_def)
  ultimately have "16777216 * code ((BigEndian_PutUint32 w @ b) ! 0) + 65536 * code ((BigEndian_PutUint32 w @ b) ! 1)
      + 256 * code ((BigEndian_PutUint32 w @ b) ! 2) + code ((BigEndian_PutUint32 w @ b) ! 3) = unat w"
    unfolding BigEndian_PutUint32_def by simp
  then show ?thesis
    unfolding BigEndian_Uint32_def by simp
qed

lemma pred_option_code [code]: "pred_option P None = True" "pred_option P (Some x) = P x"
  by simp_all

text \<open>The frames that are written without loss.\<close>

definition good_binding :: "binding \<Rightarrow> bool" where
  "good_binding b \<longleftrightarrow> list_all utf8_Valid [bd_Task b, bd_Operation b, bd_Attempt b, bd_Lease b, bd_Correlation b,
     bd_Offer b, bd_Worker b, bd_Provider b, bd_Model b]"

definition good_limits :: "Limits \<Rightarrow> bool" where
  "good_limits l \<longleftrightarrow> list_all int64_range [lim_Duration l, lim_InputBytes l, lim_OutputBytes l, lim_Units l]"

definition good_request :: "Request \<Rightarrow> bool" where
  "good_request r \<longleftrightarrow> list_all utf8_Valid [rq_Version r, rq_MessageID r, rq_OperationID r, rq_AttemptID r, rq_LeaseID r,
     rq_RetryOf r, rq_CorrelationID r, rq_Provider r, rq_Model r, rq_DataClass r, rq_Input r] \<and> good_limits (rq_Limits r)"

definition good_descriptor :: "OperationDescriptor \<Rightarrow> bool" where
  "good_descriptor d \<longleftrightarrow> list_all utf8_Valid ([od_ID d, od_TaskID d, od_Name d, od_TargetRef d,
       effect_text (od_EffectClass d), idempotency_text (od_IdempotencyMode d), od_VerificationPolicyRef d,
       od_AuthorizationPolicyRef d] @ od_ConflictScope d)
     \<and> effect_of (effect_text (od_EffectClass d)) = od_EffectClass d
     \<and> idempotency_of (idempotency_text (od_IdempotencyMode d)) = od_IdempotencyMode d"

definition good_job :: "Job \<Rightarrow> bool" where
  "good_job j \<longleftrightarrow> good_request (job_Request j) \<and> good_descriptor (job_Descriptor j) \<and> utf8_Valid (job_Worker j)"

definition good_claim :: "Claim \<Rightarrow> bool" where
  "good_claim c \<longleftrightarrow> utf8_Valid (cl_Output c) \<and> int64_range (cl_Units c)"

definition good_frame :: "frame \<Rightarrow> bool" where
  "good_frame f \<longleftrightarrow> utf8_Valid (fr_Version f) \<and> utf8_Valid (fr_Kind f) \<and> good_binding (fr_Binding f)
     \<and> pred_option good_job (fr_Job f) \<and> pred_option good_claim (fr_Claim f) \<and> utf8_Valid (fr_Reason f)
     \<and> int64_range (fr_PID f)"

definition key_char :: "char \<Rightarrow> bool" where
  "key_char c \<longleftrightarrow> 48 \<le> code c \<and> code c \<le> 57 \<or> 65 \<le> code c \<and> code c \<le> 90 \<or> 97 \<le> code c \<and> code c \<le> 122 \<or> c = CHR ''_''"

lemma escape_key: "list_all key_char k \<Longrightarrow> escape k = k \<and> utf8_Valid k"
proof (induction k)
  case (Cons c k)
  then have "48 \<le> code c" "code c \<le> 122" "code c \<notin> {60, 62, 92}"
    by (auto simp: key_char_def code_def)
  moreover from this have "c \<notin> {quotes, backslash, CHR ''<'', CHR ''>'', CHR ''&''}"
    by (auto simp: code_def)
  ultimately show ?case
    using Cons escape_append[OF is_rune_ascii, of c k] utf8_Valid_append[OF is_rune_ascii, of c k]
    by (simp add: escape_rune_def escape_byte_def)
qed simp

lemma unquote_key: "list_all key_char k \<Longrightarrow> unquote k = k"
  using unquote_escape[of k] escape_key[of k] by simp

lemma decode_jstr [simp]: "utf8_Valid s \<Longrightarrow> decode_string (jstr s) a = Some s"
  by (simp add: jstr_def unquote_escape)

lemma decode_jint [simp]: "int64_range i \<Longrightarrow> decode_int (jint i) a = Some i"
  by (simp add: jint_def)

lemma int_text_nat: "int_text (int n) = decimal n"
  by (simp add: int_text_def)

lemma decode_juint [simp]: "decode_uint64 (juint w) a = Some w"
proof -
  have "uint w = int (unat w)"
    by simp
  then have "text_nat (int_text (uint w)) = Some (unat w)"
    by (simp only: int_text_nat text_nat_decimal)
  then show ?thesis
    using unsigned_less[of w] by (simp add: juint_def)
qed

lemma decode_jtime [simp]: "time_range t \<Longrightarrow> decode_time (jtime t) a = Some t"
  by (simp add: jtime_def parse_time_text)

lemma decode_jstrs: "list_all utf8_Valid ss \<Longrightarrow> decode_elements (map jstr ss) = Some ss"
  by (induction ss) auto

lemma key_chars [simp]: "key_char (CHR ''_'')" "65 \<le> code c \<Longrightarrow> code c \<le> 90 \<Longrightarrow> key_char c"
  "97 \<le> code c \<Longrightarrow> code c \<le> 122 \<Longrightarrow> key_char c"
  by (simp_all add: key_char_def)

lemma decode_binding: "good_binding b \<Longrightarrow> decode_struct binding_fields (binding_json b) a = Some b"
  by (simp add: good_binding_def binding_json_def find_field_def unquote_key key_char_def code_def binding_fields_def field_def)

lemma decode_limits: "good_limits l \<Longrightarrow> decode_struct limits_fields (limits_json l) a = Some l"
  by (simp add: good_limits_def limits_json_def find_field_def unquote_key key_char_def code_def limits_fields_def field_def)

lemma decode_claim: "good_claim c \<Longrightarrow> decode_struct claim_fields (claim_json c) a = Some c"
  by (simp add: good_claim_def claim_json_def find_field_def unquote_key key_char_def code_def claim_fields_def field_def)

lemma decode_request:
  "good_request r \<Longrightarrow> time_range (rq_IssuedAt r) \<Longrightarrow> time_range (rq_Deadline r) \<Longrightarrow>
     decode_struct request_fields (request_json r) a = Some r"
  by (simp add: good_request_def request_json_def find_field_def unquote_key key_char_def code_def request_fields_def field_def
      decode_limits)

lemma decode_effect: "utf8_Valid (effect_text e) \<Longrightarrow> effect_of (effect_text e) = e \<Longrightarrow> decode_effect (jstr (effect_text e)) a = Some e"
  by (simp add: decode_effect_def)

lemma decode_idempotency:
  "utf8_Valid (idempotency_text e) \<Longrightarrow> idempotency_of (idempotency_text e) = e \<Longrightarrow>
     decode_idempotency (jstr (idempotency_text e)) a = Some e"
  by (simp add: decode_idempotency_def)

lemma decode_descriptor:
  assumes "good_descriptor d"
  shows "decode_struct descriptor_fields (descriptor_json d) zero_descriptor = Some d"
proof (cases "od_ConflictScope d = []")
  case True
  then show ?thesis
    using assms by (simp add: good_descriptor_def descriptor_json_def find_field_def unquote_key key_char_def code_def
        descriptor_fields_def field_def decode_effect decode_idempotency zero_descriptor_def)
next
  case False
  then show ?thesis
    using assms by (simp add: good_descriptor_def descriptor_json_def find_field_def unquote_key key_char_def code_def
        descriptor_fields_def field_def decode_effect decode_idempotency decode_jstrs)
qed

lemma decode_job:
  assumes "good_job j" "job_times_ok j"
  shows "decode_struct job_fields (job_json j) zero_job = Some j"
  using assms decode_descriptor
  by (simp add: good_job_def job_times_ok_def job_json_def find_field_def unquote_key key_char_def code_def
      job_fields_def field_def decode_request zero_job_def)

lemma decode_frame_json:
  assumes "good_frame f" "pred_option job_times_ok (fr_Job f)"
  shows "decode_struct frame_fields (frame_json f) zero_frame = Some f"
proof -
  have job: "decode_pointer (decode_struct job_fields) zero_job (job_json j) None = Some (Some j)"
    if "fr_Job f = Some j" for j
    using that assms decode_job by (simp add: good_frame_def decode_pointer_def job_json_def)
  have claim: "decode_pointer (decode_struct claim_fields) zero_claim (claim_json c) None = Some (Some c)"
    if "fr_Claim f = Some c" for c
    using that assms decode_claim by (simp add: good_frame_def decode_pointer_def claim_json_def)
  show ?thesis
    using assms(1) job claim decode_binding
    by (cases "fr_Job f"; cases "fr_Claim f"; cases "fr_Reason f = []"; cases "fr_PID f = 0")
      (simp_all add: good_frame_def frame_json_def find_field_def unquote_key key_char_def code_def
        frame_fields_def field_def zero_frame_def)
qed

text \<open>The JSON of a frame can be lexed and is orderly.\<close>

lemma lexable_jstr [simp]: "utf8_Valid s \<Longrightarrow> lexable_json (jstr s)"
  by (auto simp: jstr_def)

lemma lexable_numbers [simp]: "lexable_json (jint i)" "lexable_json (juint w)"
  by (auto simp: jint_def juint_def)

lemma lexable_jtime [simp]: "lexable_json (jtime t)"
  using escape_plain[OF plain_time_text, of t] by (auto simp: jtime_def intro: exI[of _ "time_text t"])

lemma lexable_key: "list_all key_char k \<Longrightarrow> \<exists>s. utf8_Valid s \<and> k = escape s"
  using escape_key by metis

lemma lexable_frame:
  assumes "good_frame f"
  shows "lexable_json (frame_json f)"
proof -
  have "lexable_json (binding_json b)" if "good_binding b" for b
    using that by (simp add: good_binding_def binding_json_def lexable_key key_char_def code_def)
  moreover have "lexable_json (limits_json l)" for l
    by (simp add: limits_json_def lexable_key key_char_def code_def)
  moreover from this have "lexable_json (request_json r)" if "good_request r" for r
    using that by (simp add: good_request_def request_json_def lexable_key key_char_def code_def)
  moreover have "lexable_json (descriptor_json d)" if "good_descriptor d" for d
    using that by (simp add: good_descriptor_def descriptor_json_def lexable_key key_char_def code_def list_all_iff)
  moreover from calculation have "lexable_json (job_json j)" if "good_job j" for j
    using that by (simp add: good_job_def job_json_def lexable_key key_char_def code_def)
  moreover have "lexable_json (claim_json c)" if "good_claim c" for c
    using that by (simp add: good_claim_def claim_json_def lexable_key key_char_def code_def)
  ultimately show ?thesis
    using assms by (cases "fr_Job f"; cases "fr_Claim f")
      (simp_all add: good_frame_def frame_json_def lexable_key key_char_def code_def)
qed

lemma ToLower_key: "list_all key_char k \<Longrightarrow> ToLower k = map lower_char k"
proof (induction k)
  case (Cons c k)
  then have "code c \<le> 122"
    by (auto simp: key_char_def code_def)
  then have "c \<noteq> CHR 0xE2" "c \<noteq> CHR 0xC4"
    by (auto simp: code_def)
  then show ?case
    using Cons by (subst ToLower.simps) simp
qed (simp add: ToLower.simps)

lemma orderly_frame: "orderly 0 (frame_json f)"
proof -
  note keys = member_key_def unquote_key ToLower_key key_char_def code_def lower_char_def
  have leaf: "unique_keys (jstr s)" "unique_keys (jint i)" "unique_keys (juint w)" "unique_keys (jtime t)"
    "within_depth n (jstr s)" "within_depth n (jint i)" "within_depth n (juint w)" "within_depth n (jtime t)"
    for s i w t n
    by (simp_all add: jstr_def jint_def juint_def jtime_def)
  have binding: "unique_keys (binding_json b) \<and> within_depth 31 (binding_json b)" for b
    by (simp add: binding_json_def keys leaf)
  have limits: "unique_keys (limits_json l) \<and> within_depth 29 (limits_json l)" for l
    by (simp add: limits_json_def keys leaf)
  then have request: "unique_keys (request_json r) \<and> within_depth 30 (request_json r)" for r
    by (simp add: request_json_def keys leaf)
  have descriptor: "unique_keys (descriptor_json d) \<and> within_depth 30 (descriptor_json d)" for d
    by (simp add: descriptor_json_def keys leaf list_all_iff)
  have job: "unique_keys (job_json j) \<and> within_depth 31 (job_json j)" for j
    using request descriptor by (simp add: job_json_def keys leaf)
  have claim: "unique_keys (claim_json c) \<and> within_depth 31 (claim_json c)" for c
    by (simp add: claim_json_def keys leaf)
  show ?thesis
    using binding job claim
    by (cases "fr_Job f"; cases "fr_Claim f") (simp_all add: orderly_def frame_json_def keys leaf)
qed

lemma code_hexdig: "n < 16 \<Longrightarrow> code (hexdig n) < 128"
  by (simp add: hexdig_def)

lemma utf8_escape_rune:
  assumes "is_rune r"
  shows "utf8_Valid (escape_rune r)"
  using assms
proof (cases r rule: is_rune_cases)
  case (1 c)
  then have "list_all (\<lambda>c. code c < 128) (escape_byte c)"
    by (simp add: escape_byte_def code_hexdig) (simp add: code_def)
  then show ?thesis
    using 1 by (auto simp: escape_rune_def list_all_iff intro!: utf8_Valid_ascii)
next
  case 2
  have "utf8_Valid r"
    using utf8_Valid_append[OF assms, of "[]"] by simp
  moreover have "utf8_Valid (backslash # ''u2028'')" "utf8_Valid (backslash # ''u2029'')"
    by (rule utf8_Valid_ascii, auto simp: code_def)+
  ultimately show ?thesis
    using 2 by (simp add: escape_rune_def)
qed

lemma utf8_escape: "utf8_Valid s \<Longrightarrow> utf8_Valid (escape s)"
  by (induction s rule: utf8_induct) (simp_all add: escape_append utf8_Valid_append_iff utf8_escape_rune)

lemma utf8_int_text: "utf8_Valid (int_text i)"
proof -
  have "code c < 128" if "c \<in> set (int_text i)" for c
    using that decimal_digits[of "nat i"] decimal_digits[of "nat (- i)"]
    by (auto simp: int_text_def list_all_iff is_digit_def code_def split: if_splits)
  then show ?thesis
    by (rule utf8_Valid_ascii)
qed

lemma utf8_ascii_Cons [simp]: "code c < 128 \<Longrightarrow> utf8_Valid (c # s) = utf8_Valid s"
  using utf8_Valid_append[OF is_rune_ascii, of c s] by simp

lemma utf8_lexeme: "lexable l \<Longrightarrow> utf8_Valid (lexeme_text l)"
proof (cases l)
  case (LString raw)
  assume "lexable l"
  then obtain s where "utf8_Valid s" "raw = escape s"
    using LString by auto
  then show ?thesis
    using LString by (simp add: utf8_Valid_append_iff utf8_escape)
qed (auto simp: utf8_int_text code_def)

lemma lexable_toks:
  "lexable_json v \<Longrightarrow> list_all lexable (toks v)"
  "list_all lexable_json vs \<Longrightarrow> list_all lexable (toks_elements vs)"
  "list_all (\<lambda>(k, v). lexable (LString k) \<and> lexable_json v) ms \<Longrightarrow> list_all lexable (toks_members ms)"
  by (induction v and vs and ms rule: toks_toks_elements_toks_members.induct) auto

lemma utf8_lexemes: "list_all lexable ls \<Longrightarrow> utf8_Valid (lexemes_text ls)"
  by (induction ls) (simp_all add: utf8_Valid_append_iff utf8_lexeme)

lemma decode_frame_text:
  assumes "good_frame f" "pred_option job_times_ok (fr_Job f)" "fr_Version f = WireVersion"
  shows "decode_frame (json_text (frame_json f)) = Inr f"
proof -
  have lexable: "lexable_json (frame_json f)"
    using assms(1) by (rule lexable_frame)
  have "utf8_Valid (json_text (frame_json f))"
    using utf8_lexemes[OF lexable_toks(1)[OF lexable]] by (simp add: json_text_def)
  moreover have "uniqueJSON (NewDecoder (toks (frame_json f))) 0 = Inr (NewDecoder [])"
    using uniqueJSON_value[of "frame_json f" "[]"] orderly_frame by simp
  moreover have "Token (NewDecoder []) = Inl ErrEOF"
    by (simp add: Token_def NewDecoder_def)
  ultimately show ?thesis
    using lex_json_text[OF lexable] decode_frame_json[OF assms(1,2)] assms(3) by (simp add: decode_frame_def)
qed

lemma readFrame_written:
  assumes "decode_frame b = Inr f" "b \<noteq> []" "length b \<le> MaxFrame"
  shows "readFrame \<lparr>rd_Bytes = BigEndian_PutUint32 (of_nat (length b)) @ b @ rest, rd_End = e\<rparr>
    = (Inr f, \<lparr>rd_Bytes = rest, rd_End = e\<rparr>)"
proof -
  define header where "header = BigEndian_PutUint32 (of_nat (length b))"
  have len: "length header = 4"
    by (simp add: header_def)
  have "unat (of_nat (length b) :: 32 word) = length b"
    using assms(3) by (simp add: unat_of_nat MaxFrame_def)
  then have "unat (BigEndian_Uint32 header) = length b"
    using BigEndian_roundtrip[of "of_nat (length b)" "[]"] by (simp add: header_def)
  then show ?thesis
    using assms len by (simp add: readFrame_def ReadFull_def flip: header_def)
qed

lemma writeFrame_Inr:
  assumes "writeFrame answer f w = (Inr u, w')"
  shows "pred_option job_times_ok (fr_Job f)" "json_text (frame_json f) \<noteq> []" "length (json_text (frame_json f)) \<le> MaxFrame"
    "wr_Sent w' = wr_Sent w @ BigEndian_PutUint32 (of_nat (length (json_text (frame_json f)))) @ json_text (frame_json f)"
proof -
  have "marshal_frame f = Some (json_text (frame_json f)) \<and> pred_option job_times_ok (fr_Job f)"
    using assms by (auto simp: writeFrame_def marshal_frame_def split: option.splits if_splits)
  then show "pred_option job_times_ok (fr_Job f)" "json_text (frame_json f) \<noteq> []"
    "length (json_text (frame_json f)) \<le> MaxFrame"
    "wr_Sent w' = wr_Sent w @ BigEndian_PutUint32 (of_nat (length (json_text (frame_json f)))) @ json_text (frame_json f)"
    using assms by (auto simp: writeFrame_def split: if_splits prod.splits sum.splits dest!: writeAll_Inr)
qed

lemma decode_frame_Inr:
  assumes "decode_frame b = Inr f"
  obtains ls v where "utf8_Valid b" "lex b = Some ls" "ls = toks v" "orderly 0 v"
    "decode_struct frame_fields v zero_frame = Some f" "fr_Version f = WireVersion"
proof -
  obtain ls keys v where ls: "lex b = Some ls" "uniqueJSON (NewDecoder ls) 0 = Inr keys" "Token keys = Inl ErrEOF"
    "parse_json ls = Some v" "decode_struct frame_fields v zero_frame = Some f" "fr_Version f = WireVersion" "utf8_Valid b"
    using assms by (auto simp: decode_frame_def split: if_splits option.splits sum.splits)
  obtain rest where rest: "ls = toks v @ rest"
    using ls(4) that by (auto simp: parse_json_def dest: parse_sound(1))
  then have v: "orderly 0 v" "keys = NewDecoder rest"
    using ls(2) uniqueJSON_value by (auto split: if_splits)
  have "rest = []"
  proof (cases rest)
    case (Cons l rest')
    then show ?thesis
      using ls(3) v(2) by (cases l) (auto simp: Token_def NewDecoder_def ErrSyntax_def)
  qed
  then show ?thesis
    using that ls v rest by simp
qed

lemma ReadFull_split: "ReadFull n r = ((b, None), r') \<Longrightarrow> rd_Bytes r = b @ rd_Bytes r' \<and> length b = n \<and> rd_End r' = rd_End r"
  by (auto simp: ReadFull_def split: if_splits)

lemma readFrame_Inr:
  assumes "readFrame r = (Inr f, r')"
  obtains header b where "rd_Bytes r = header @ b @ rd_Bytes r'" "length header = 4"
    "unat (BigEndian_Uint32 header) = length b" "0 < length b" "length b \<le> MaxFrame" "decode_frame b = Inr f"
proof -
  obtain header r1 where h: "ReadFull 4 r = ((header, None), r1)"
    using assms by (auto simp: readFrame_def split: prod.splits option.splits)
  obtain b where b: "ReadFull (unat (BigEndian_Uint32 header)) r1 = ((b, None), r')" "decode_frame b = Inr f"
    "0 < unat (BigEndian_Uint32 header)" "unat (BigEndian_Uint32 header) \<le> MaxFrame"
    using assms h by (auto simp: readFrame_def Let_def split: prod.splits option.splits if_splits)
  show ?thesis
    using that[of header b] ReadFull_split[OF h] ReadFull_split[OF b(1)] b by simp
qed

lemma decode_frame_error: "decode_frame b = Inl e \<Longrightarrow> e = ErrWire"
  by (auto simp: decode_frame_def split: if_splits option.splits sum.splits)

lemma readFrame_error:
  assumes "readFrame r = (Inl e, r')"
  shows "e = ErrWire \<or> e = ErrEOF \<and> rd_Bytes r = [] \<and> rd_End r = ErrEOF"
proof (cases "ReadFull 4 r")
  case (Pair p r1)
  then show ?thesis
    using assms by (cases "snd p") (auto simp: readFrame_def ReadFull_def Let_def ErrUnexpectedEOF_def dest: decode_frame_error
        split: prod.splits option.splits if_splits)
qed

lemma readFrame_consumes: "length (rd_Bytes r) - length (rd_Bytes (snd (readFrame r))) \<le> 4 + MaxFrame"
  by (auto simp: readFrame_def ReadFull_def Let_def MaxFrame_def split: prod.splits option.splits if_splits)

end
