(* ===== verification/Serve.thy ===== *)
theory Serve
  imports Wire
begin

text \<open>
  Package \<open>internal/transport/process\<close>, \<open>serve.go\<close>: the worker process.  It reads one job, runs it with one
  of the two reference providers, asks the controller to record each heartbeat and writes its result.
\<close>

section \<open>What is served (serve.go)\<close>

definition provider :: "string \<Rightarrow> Provider result" where
  "provider ident =
     (if ident = ''test.echo'' then Inr EchoProvider
      else if ident = ''test.digest'' then Inr DigestProvider
      else Inl ErrUnsupported)"

definition identities :: "Job \<Rightarrow> string list" where
  "identities j =
     (let d = job_Descriptor j; r = job_Request j in
      [job_Worker j, od_ID d, od_TaskID d, od_Name d, od_TargetRef d, od_VerificationPolicyRef d,
       od_AuthorizationPolicyRef d, rq_MessageID r, rq_OperationID r, rq_AttemptID r, rq_LeaseID r, rq_RetryOf r,
       rq_CorrelationID r, rq_Provider r, rq_Model r, rq_DataClass r] @ od_ConflictScope d)"

definition boundedIdentity :: "Job \<Rightarrow> bool" where
  "boundedIdentity j \<longleftrightarrow> length (od_ConflictScope (job_Descriptor j)) \<le> 32
     \<and> list_all (\<lambda>i. length i \<le> MaxIdentifier \<and> utf8_Valid i) (identities j)"

definition validJob :: "Job \<Rightarrow> Local \<Rightarrow> go_time \<Rightarrow> unit result" where
  "validJob j l now =
     (let r = job_Request j in
      if \<not> boundedIdentity j then Inl ErrLimit
      else if rq_Version r \<noteq> Version \<or> rq_MessageID r = '''' \<or> rq_AttemptID r = '''' \<or> rq_LeaseID r = ''''
         \<or> rq_CorrelationID r = '''' \<or> rq_Revision r = 0 \<or> job_Generation j = 0
         \<or> rq_OperationID r \<noteq> od_ID (job_Descriptor j) \<or> time_IsZero (rq_IssuedAt r) \<or> rq_IssuedAt r > now
         \<or> \<not> rq_Deadline r > now \<or> time_Sub (rq_Deadline r) (rq_IssuedAt r) > lim_Duration (rq_Limits r)
         \<or> int (length (rq_Input r)) > lim_InputBytes (rq_Limits r) \<or> \<not> utf8_Valid (rq_Input r)
         \<or> rq_DataClass r \<noteq> ''synthetic''
        then Inl ErrInvalid
      else case validate_descriptor (job_Descriptor j) of
        Inl _ \<Rightarrow> Inl ErrInvalid
      | Inr _ \<Rightarrow> Local_Accept l j)"

text \<open>
  The process: its input, its output, the heartbeats it has sent and how often it has asked its context.
  The world answers the clock, the context and the writes.  The streams are closed when the context ends:
  the input then ends with an error, and a write is answered with one.
\<close>

record serve_world =
  sw_Now :: go_time
  sw_Ctx :: "nat \<Rightarrow> error option"
  sw_PID :: int
  sw_Answer :: write_answer

record serving =
  sv_In :: reader
  sv_Out :: writer
  sv_Beats :: nat
  sv_Tick :: nat

definition plain_frame :: "string \<Rightarrow> Job \<Rightarrow> frame" where
  "plain_frame kind j = \<lparr>fr_Version = WireVersion, fr_Kind = kind, fr_Binding = bind j, fr_Job = None,
     fr_Claim = None, fr_Reason = [], fr_PID = 0\<rparr>"

definition serve_ctx :: "serve_world \<Rightarrow> serving \<Rightarrow> error option \<times> serving" where
  "serve_ctx w s = (sw_Ctx w (sv_Tick s), s\<lparr>sv_Tick := Suc (sv_Tick s)\<rparr>)"

definition serve_write :: "serve_world \<Rightarrow> frame \<Rightarrow> serving \<Rightarrow> unit result \<times> serving" where
  "serve_write w f s = (case writeFrame (sw_Answer w) f (sv_Out s) of (x, out) \<Rightarrow> (x, s\<lparr>sv_Out := out\<rparr>))"

text \<open>An answer to a heartbeat: exactly a \<open>continue\<close> for this job.\<close>

definition is_continue :: "frame \<Rightarrow> Job \<Rightarrow> bool" where
  "is_continue f j \<longleftrightarrow> fr_Kind f = ''continue'' \<and> fr_Binding f = bind j \<and> fr_Job f = None \<and> fr_Claim f = None
     \<and> fr_PID f = 0 \<and> fr_Reason f = []"

definition serve_heartbeat :: "serve_world \<Rightarrow> Job \<Rightarrow> serving \<Rightarrow> unit result \<times> serving" where
  "serve_heartbeat w j s =
     (case serve_ctx w s of
        (Some e, s1) \<Rightarrow> (Inl e, s1)
      | (None, s1) \<Rightarrow>
          if sv_Beats s1 \<ge> MaxHeartbeats then (Inl ErrLimit, s1)
          else
            (case serve_write w (plain_frame ''heartbeat'' j\<lparr>fr_PID := sw_PID w\<rparr>) (s1\<lparr>sv_Beats := Suc (sv_Beats s1)\<rparr>) of
               (Inl e, s2) \<Rightarrow> (Inl e, s2)
             | (Inr _, s2) \<Rightarrow>
                 (case readFrame (sv_In s2) of
                    (Inl _, input) \<Rightarrow> (Inl ErrWire, s2\<lparr>sv_In := input\<rparr>)
                  | (Inr ack, input) \<Rightarrow>
                      if \<not> is_continue ack j then (Inl ErrWire, s2\<lparr>sv_In := input\<rparr>)
                      else (case serve_ctx w (s2\<lparr>sv_In := input\<rparr>) of
                              (Some e, s3) \<Rightarrow> (Inl e, s3)
                            | (None, s3) \<Rightarrow> (Inr (), s3)))))"

text \<open>The run of the provider; \<open>None\<close>: it panics or never returns, as no reference provider does.\<close>

primrec serve_run :: "serve_world \<Rightarrow> Job \<Rightarrow> script \<Rightarrow> serving \<Rightarrow> Claim result option \<times> serving" where
  "serve_run w j (Returns x) = (\<lambda>s. (Some x, s))"
| "serve_run w j Panics = (\<lambda>s. (None, s))"
| "serve_run w j (Hangs e) = (\<lambda>s. (None, s))"
| "serve_run w j (Heartbeat f) = (\<lambda>s. case serve_heartbeat w j s of (x, s1) \<Rightarrow> serve_run w j (f x) s1)"
| "serve_run w j (AskCtx f) = (\<lambda>s. case serve_ctx w s of (x, s1) \<Rightarrow> serve_run w j (f x) s1)"

definition serve_reason :: "error \<Rightarrow> string" where
  "serve_reason e =
     (if errors_is e ErrLimit then ''budget_exceeded''
      else if errors_is e ErrUnsupported then ''unsupported''
      else if errors_is e DeadlineExceeded then ''timeout''
      else if errors_is e Canceled then ''cancelled''
      else ''provider_failed'')"

definition serve_answer :: "serve_world \<Rightarrow> Job \<Rightarrow> Claim result \<Rightarrow> frame" where
  "serve_answer w j x =
     (case x of
        Inl e \<Rightarrow> plain_frame ''error'' j\<lparr>fr_Reason := serve_reason e, fr_PID := sw_PID w\<rparr>
      | Inr claim \<Rightarrow> plain_frame ''result'' j\<lparr>fr_Claim := Some claim, fr_PID := sw_PID w\<rparr>)"

definition is_job :: "frame \<Rightarrow> bool" where
  "is_job f \<longleftrightarrow> fr_Kind f = ''job'' \<and> fr_Job f \<noteq> None \<and> fr_Claim f = None \<and> fr_Reason f = [] \<and> fr_PID f = 0"

definition serve_job :: "serve_world \<Rightarrow> Local \<Rightarrow> Job \<Rightarrow> serving \<Rightarrow> unit result option \<times> serving" where
  "serve_job w l j s =
     (case validJob j l (sw_Now w) of
        Inl e \<Rightarrow> (Some (Inl e), s)
      | Inr _ \<Rightarrow>
          (case serve_run w j (Local_Run l j) s of
             (None, s1) \<Rightarrow> (None, s1)
           | (Some x, s1) \<Rightarrow> (case serve_write w (serve_answer w j x) s1 of (y, s2) \<Rightarrow> (Some y, s2))))"

definition Serve :: "serve_world \<Rightarrow> ActorID \<Rightarrow> string \<Rightarrow> reader \<Rightarrow> writer \<Rightarrow> unit result option \<times> serving" where
  "Serve w actor providerID input output =
     (let s = \<lparr>sv_In = input, sv_Out = output, sv_Beats = 0, sv_Tick = 0\<rparr> in
      case provider providerID of Inl e \<Rightarrow> (Some (Inl e), s) | Inr p \<Rightarrow>
      case NewLocal actor (Some p) of Inl e \<Rightarrow> (Some (Inl e), s) | Inr l \<Rightarrow>
      case readFrame input of
        (Inl _, input1) \<Rightarrow> (Some (Inl ErrWire), s\<lparr>sv_In := input1\<rparr>)
      | (Inr f, input1) \<Rightarrow>
          if \<not> is_job f \<or> bind (the (fr_Job f)) \<noteq> fr_Binding f then (Some (Inl ErrWire), s\<lparr>sv_In := input1\<rparr>)
          else serve_job w l (the (fr_Job f)) (s\<lparr>sv_In := input1\<rparr>))"

section \<open>The process always answers\<close>

lemma serve_write_fields [simp]:
  "sv_Beats (snd (serve_write w f s)) = sv_Beats s" "sv_Tick (snd (serve_write w f s)) = sv_Tick s"
  by (simp_all add: serve_write_def split: prod.splits)

lemma serve_ctx_fields [simp]: "sv_Beats (snd (serve_ctx w s)) = sv_Beats s"
  by (simp add: serve_ctx_def)

lemma provider_cases:
  assumes "provider ident = Inr p"
  obtains "p = EchoProvider" "ident = ''test.echo''" | "p = DigestProvider" "ident = ''test.digest''"
  using assms that by (auto simp: provider_def split: if_splits)

lemma reference_provider_returns:
  assumes "provider ident = Inr p"
  shows "\<exists>g. prov_Generate p r = AskCtx (\<lambda>e. Returns (g e))"
  using assms by (rule provider_cases)
    (auto simp: EchoProvider_def EchoProvider_Generate_def DigestProvider_def DigestProvider_Generate_def)

lemma serve_run_returns:
  assumes "provider ident = Inr p"
  shows "fst (serve_run w j (Local_Run \<lparr>loc_actor = actor, loc_provider = p\<rparr> j) s) \<noteq> None"
proof -
  let ?r = "\<lparr>pr_Model = rq_Model (job_Request j), pr_Input = rq_Input (job_Request j), pr_Limits = rq_Limits (job_Request j)\<rparr>"
  obtain g where g: "prov_Generate p ?r = AskCtx (\<lambda>e. Returns (g e))"
    using reference_provider_returns[OF assms, of ?r] by blast
  show ?thesis
    by (auto simp: Local_Run_def g split: sum.splits prod.splits)
qed

lemma Serve_returns: "fst (Serve w actor ident input output) \<noteq> None"
proof (cases "provider ident")
  case (Inr p)
  have "serve_run w j (Local_Run \<lparr>loc_actor = actor, loc_provider = p\<rparr> j) s \<noteq> (None, s')" for j s s'
    using serve_run_returns[OF Inr, of w j actor s] by auto
  then show ?thesis
    by (auto simp: Serve_def Inr NewLocal_def serve_job_def Let_def split: sum.splits prod.splits option.splits)
qed (simp add: Serve_def)

lemma serve_heartbeat_beats: "sv_Beats (snd (serve_heartbeat w j s)) \<le> Suc (sv_Beats s)"
proof -
  have "sv_Beats s' = sv_Beats s" if "serve_ctx w s = (x, s')" for x s s'
    using that by (auto simp: serve_ctx_def)
  moreover have "sv_Beats s' = sv_Beats s" if "serve_write w f s = (x, s')" for x s s' f
    using that by (auto simp: serve_write_def split: prod.splits)
  ultimately show ?thesis
    by (fastforce simp: serve_heartbeat_def split: prod.splits option.splits sum.splits)
qed

lemma Serve_beats: "sv_Beats (snd (Serve w actor ident input output)) \<le> 1"
proof (cases "provider ident")
  case (Inr p)
  have run: "sv_Beats (snd (serve_run w j (Local_Run \<lparr>loc_actor = actor, loc_provider = p\<rparr> j) s)) \<le> Suc (sv_Beats s)" for j s
  proof -
    let ?r = "\<lparr>pr_Model = rq_Model (job_Request j), pr_Input = rq_Input (job_Request j), pr_Limits = rq_Limits (job_Request j)\<rparr>"
    obtain g where g: "prov_Generate p ?r = AskCtx (\<lambda>e. Returns (g e))"
      using reference_provider_returns[OF Inr, of ?r] by blast
    show ?thesis
      using serve_heartbeat_beats[of w j s] by (auto simp: Local_Run_def g serve_ctx_def split: sum.splits prod.splits)
  qed
  have job: "sv_Beats (snd (serve_job w \<lparr>loc_actor = actor, loc_provider = p\<rparr> j s)) \<le> Suc (sv_Beats s)" for j s
  proof -
    have "sv_Beats s' = sv_Beats s1" if "serve_write w f s1 = (x, s')" for x s1 s' f
      using that by (auto simp: serve_write_def split: prod.splits)
    then show ?thesis
      using run[of j s] by (fastforce simp: serve_job_def split: sum.splits prod.splits option.splits)
  qed
  show ?thesis
    using job[of _ "\<lparr>sv_In = _, sv_Out = output, sv_Beats = 0, sv_Tick = 0\<rparr>"]
    by (auto simp: Serve_def Inr NewLocal_def Let_def split: sum.splits prod.splits)
qed (simp add: Serve_def)

section \<open>What an accepted job satisfies\<close>

lemma validJob_Inr:
  assumes "validJob j l now = Inr u"
  shows "boundedIdentity j" "validate_descriptor (job_Descriptor j) = Inr ()" "Local_Accept l j = Inr ()"
    "rq_Version (job_Request j) = Version" "rq_Revision (job_Request j) \<noteq> 0" "job_Generation j \<noteq> 0"
    "rq_OperationID (job_Request j) = od_ID (job_Descriptor j)" "rq_IssuedAt (job_Request j) \<le> now"
    "now < rq_Deadline (job_Request j)" "utf8_Valid (rq_Input (job_Request j))"
    "rq_DataClass (job_Request j) = ''synthetic''"
    "int (length (rq_Input (job_Request j))) \<le> lim_InputBytes (rq_Limits (job_Request j))"
  using assms by (auto simp: validJob_def Let_def split: if_splits sum.splits)

text \<open>
  The text of a bounded job is short: a control character takes six bytes, so no text exceeds six times its
  string.  Hence a frame with a bounded job never exceeds the limit for frames.
\<close>

lemma length_escape_byte: "length (escape_byte c) \<le> 6"
  by (simp add: escape_byte_def)

lemma length_escape: "utf8_Valid s \<Longrightarrow> length (escape s) \<le> 6 * length s"
proof (induction s rule: utf8_induct)
  case (rune r s)
  have "length (escape_rune r) \<le> 6 * length r"
    using rune(1) length_escape_byte[of "hd r"] by (auto simp: escape_rune_def is_rune_def)
  then show ?case
    using rune by (simp add: escape_append)
qed simp

end
