(* ===== verification/Transport.thy ===== *)
theory Transport
  imports Serve
begin

text \<open>
  Package \<open>internal/transport/process\<close>, \<open>worker.go\<close>: the controller's side.  A \<open>Worker\<close> of this package runs
  each job in a process of its own and talks to it in frames.
\<close>

unbundle bit_operations_syntax

section \<open>The worker (worker.go)\<close>

record Config =
  cf_Executable :: string
  cf_FixedArgs :: "string list"
  cf_MaxParallel :: int

record ProcessWorker =
  pw_config :: Config
  pw_local :: Local

text \<open>
  What \<open>os.Lstat\<close> says of the executable: \<open>None\<close> is an error, else whether it is a regular file and its
  permission bits (\<open>0111\<close> is 73).  \<open>windows\<close>: \<open>runtime.GOOS\<close>; \<open>is_abs\<close> and \<open>ext\<close> are \<open>filepath.IsAbs\<close> and \<open>filepath.Ext\<close>.
\<close>

record file_stat =
  fs_Regular :: bool
  fs_Perm :: nat

record platform =
  pf_windows :: bool
  pf_IsAbs :: "string \<Rightarrow> bool"
  pf_Ext :: "string \<Rightarrow> string"
  pf_Lstat :: "string \<Rightarrow> file_stat option"

text \<open>\<open>EqualFold\<close> with an ASCII text.\<close>

definition EqualFold :: "string \<Rightarrow> string \<Rightarrow> bool" where
  "EqualFold s t \<longleftrightarrow> foldName s = foldName t"

definition executableOK :: "platform \<Rightarrow> string \<Rightarrow> bool" where
  "executableOK pf path =
     (if \<not> pf_IsAbs pf path then False
      else case pf_Lstat pf path of
        None \<Rightarrow> False
      | Some s \<Rightarrow>
          if \<not> fs_Regular s then False
          else if pf_windows pf then EqualFold (pf_Ext pf path) ''.exe''
          else fs_Perm s AND 73 \<noteq> 0)"

definition NewProcess :: "platform \<Rightarrow> Config \<Rightarrow> ActorID \<Rightarrow> string \<Rightarrow> ProcessWorker result" where
  "NewProcess pf c actor providerID =
     (if length actor > MaxIdentifier \<or> \<not> utf8_Valid actor \<or> length (cf_FixedArgs c) > 16 then Inl ErrLimit
      else if list_ex (\<lambda>arg. length arg > 4096 \<or> \<not> utf8_Valid arg) (cf_FixedArgs c) then Inl ErrLimit
      else case provider providerID of Inl e \<Rightarrow> Inl e | Inr p \<Rightarrow>
      case NewLocal actor (Some p) of Inl e \<Rightarrow> Inl ErrInvalid | Inr l \<Rightarrow>
      if \<not> executableOK pf (cf_Executable c) then Inl ErrInvalid
      else
        (let n = (if cf_MaxParallel c = 0 then 4 else cf_MaxParallel c) in
         if n < 1 \<or> n > 32 then Inl ErrLimit
         else Inr \<lparr>pw_config = c\<lparr>cf_MaxParallel := n\<rparr>, pw_local = l\<rparr>))"

definition process_Capabilities :: "ProcessWorker \<Rightarrow> Capabilities" where
  "process_Capabilities w = (Local_Capabilities (pw_local w))\<lparr>cap_DataClasses := [''synthetic'']\<rparr>"

definition process_Accept :: "ProcessWorker \<Rightarrow> Job \<Rightarrow> unit result" where
  "process_Accept w j =
     (if \<not> utf8_Valid (rq_Input (job_Request j)) then Inl ErrInvalid
      else if \<not> boundedIdentity j then Inl ErrLimit
      else if rq_Version (job_Request j) \<noteq> Version \<or> rq_DataClass (job_Request j) \<noteq> ''synthetic'' then Inl ErrUnsupported
      else case validate_descriptor (job_Descriptor j) of
        Inl _ \<Rightarrow> Inl ErrInvalid
      | Inr _ \<Rightarrow> Local_Accept (pw_local w) j)"

definition childEnv :: "(string \<Rightarrow> string option) \<Rightarrow> string list" where
  "childEnv LookupEnv =
     concat (map (\<lambda>key. case LookupEnv key of None \<Rightarrow> [] | Some value \<Rightarrow> [key @ ''='' @ value])
       [''SYSTEMROOT'', ''WINDIR'', ''TEMP'', ''TMP''])"

section \<open>Standard error (worker.go: stderrSink)\<close>

record stderrSink =
  sk_n :: int
  sk_over :: bool
  sk_cancelled :: bool

definition sink_Write :: "string \<Rightarrow> stderrSink \<Rightarrow> nat \<times> stderrSink" where
  "sink_Write b s =
     (length b,
      if sk_over s then s
      else if int (length b) > int MaxStderr - sk_n s then s\<lparr>sk_over := True, sk_cancelled := True\<rparr>
      else s\<lparr>sk_n := sk_n s + int (length b)\<rparr>)"

section \<open>The exchange of frames (worker.go: exchange)\<close>

text \<open>
  The controller's ends of the two pipes and the count of heartbeats.  The exchange is a conversation: it
  ends with a result, or asks the runner to record a heartbeat and goes on with the answer.
\<close>

record conn =
  cn_In :: writer
  cn_Out :: reader
  cn_Heartbeats :: nat

datatype talk = Ends "Claim result" conn | Beats "unit result \<Rightarrow> talk"

definition frame_error :: "string \<Rightarrow> error" where
  "frame_error why =
     (if why = ''provider_failed'' then ErrProvider
      else if why = ''budget_exceeded'' then ErrLimit
      else if why = ''unsupported'' then ErrUnsupported
      else if why = ''timeout'' then DeadlineExceeded
      else if why = ''cancelled'' then Canceled
      else ErrWire)"

definition exchange_result :: "Job \<Rightarrow> frame \<Rightarrow> conn \<Rightarrow> talk" where
  "exchange_result j f c =
     (case fr_Claim f of
        None \<Rightarrow> Ends (Inl ErrWire) c
      | Some claim \<Rightarrow>
          if fr_Reason f \<noteq> [] then Ends (Inl ErrWire) c
          else if int (length (cl_Output claim)) > lim_OutputBytes (rq_Limits (job_Request j)) \<or> cl_Units claim < 0
             \<or> cl_Units claim > lim_Units (rq_Limits (job_Request j)) then Ends (Inl ErrLimit) c
          else (case readFrame (cn_Out c) of
                  (Inl ErrEOF, r) \<Rightarrow> Ends (Inr claim) (c\<lparr>cn_Out := r\<rparr>)
                | (_, r) \<Rightarrow> Ends (Inl ErrWire) (c\<lparr>cn_Out := r\<rparr>)))"

lemma readFrame_shorter: "(Inr f, r') = readFrame r \<Longrightarrow> length (rd_Bytes r') < length (rd_Bytes r)"
  by (drule sym, erule readFrame_Inr) simp

function exchange_loop :: "write_answer \<Rightarrow> int \<Rightarrow> Job \<Rightarrow> nat \<Rightarrow> conn \<Rightarrow> talk" where
  "exchange_loop answer pid j beats c =
     (case readFrame (cn_Out c) of
        (Inl _, r) \<Rightarrow> Ends (Inl ErrWire) (c\<lparr>cn_Out := r\<rparr>)
      | (Inr f, r) \<Rightarrow>
          let c1 = c\<lparr>cn_Out := r\<rparr> in
          if fr_Binding f \<noteq> bind j \<or> fr_PID f \<noteq> pid \<or> fr_Job f \<noteq> None then Ends (Inl ErrWire) c1
          else if fr_Kind f = ''heartbeat'' then
            if fr_Claim f \<noteq> None \<or> fr_Reason f \<noteq> [] \<or> beats \<ge> MaxHeartbeats then Ends (Inl ErrWire) c1
            else Beats (\<lambda>res. case res of
                Inl e \<Rightarrow> Ends (Inl e) c1
              | Inr _ \<Rightarrow>
                  (case writeFrame answer (plain_frame ''continue'' j) (cn_In c1) of
                     (Inl e, w) \<Rightarrow> Ends (Inl e) (c1\<lparr>cn_In := w\<rparr>)
                   | (Inr _, w) \<Rightarrow>
                       exchange_loop answer pid j (beats + 1)
                         (c1\<lparr>cn_In := w, cn_Heartbeats := Suc (cn_Heartbeats c1)\<rparr>)))
          else if fr_Kind f = ''result'' then exchange_result j f c1
          else if fr_Kind f = ''error'' then
            Ends (Inl (if fr_Claim f \<noteq> None then ErrWire else frame_error (fr_Reason f))) c1
          else Ends (Inl ErrWire) c1)"
  by pat_completeness auto
termination
  by (relation "measure (\<lambda>(_, _, _, _, c). length (rd_Bytes (cn_Out c)))") (auto dest!: readFrame_shorter)

declare exchange_loop.simps [simp del]

definition exchange :: "write_answer \<Rightarrow> int \<Rightarrow> Job \<Rightarrow> conn \<Rightarrow> talk" where
  "exchange answer pid j c =
     (case writeFrame answer ((plain_frame ''job'' j)\<lparr>fr_Job := Some j\<rparr>) (cn_In c) of
        (Inl e, w) \<Rightarrow> Ends (Inl e) (c\<lparr>cn_In := w\<rparr>)
      | (Inr _, w) \<Rightarrow> exchange_loop answer pid j 0 (c\<lparr>cn_In := w\<rparr>))"

section \<open>One run (worker.go: Run)\<close>

text \<open>
  What the run meets: the clock, the executable, whether a slot was free and the pipes could be made, the
  process (\<open>None\<close> if it could not be started) with what it writes and how writes to it are answered, and
  how it ends.  \<open>la_Done k\<close> is an error when the context ends, with that error, before the exchange gets
  further than its \<open>k\<close>-th heartbeat.  The exchange is the second goroutine of the code; a heartbeat it asks
  for after the run has returned is refused by the runner, which has closed the run by then.  A panic of the
  heartbeat function is not modelled: the runner's does not panic.
\<close>

datatype waited = Exited | ExitError | ContextEnded error

record launch =
  la_Now :: go_time
  la_Slot :: bool
  la_Platform :: platform
  la_Pipes :: bool
  la_PID :: "int option"
  la_Output :: reader
  la_Answer :: write_answer
  la_Done :: "nat \<Rightarrow> error option"
  la_Wait :: waited
  la_Overflow :: bool
  la_CtxErr :: "error option"
  la_Cleaned :: bool

definition run_error :: "launch \<Rightarrow> Claim result \<Rightarrow> error option" where
  "run_error la x =
     (let e1 = (case x of
            Inl e \<Rightarrow> Some e
          | Inr _ \<Rightarrow> (case la_Wait la of Exited \<Rightarrow> None | ExitError \<Rightarrow> Some ErrProvider | ContextEnded e \<Rightarrow> Some e));
          e2 = (if la_Overflow la then Some ErrLimit else case la_CtxErr la of Some e \<Rightarrow> Some e | None \<Rightarrow> e1)
      in if la_Cleaned la then e2
         else (case e2 of None \<Rightarrow> Some ErrCleanup | Some e \<Rightarrow> Some (ErrJoin e ErrCleanup)))"

definition run_finish :: "launch \<Rightarrow> Claim result \<Rightarrow> script" where
  "run_finish la x = Returns (case run_error la x of Some e \<Rightarrow> Inl e | None \<Rightarrow> x)"

primrec run_talk :: "launch \<Rightarrow> talk \<Rightarrow> nat \<Rightarrow> script" where
  "run_talk la (Ends x c) = (\<lambda>k. case la_Done la k of Some e \<Rightarrow> run_finish la (Inl e) | None \<Rightarrow> run_finish la x)"
| "run_talk la (Beats f) = (\<lambda>k. case la_Done la k of
       Some e \<Rightarrow> run_finish la (Inl e)
     | None \<Rightarrow> Heartbeat (\<lambda>res. run_talk la (f res) (Suc k)))"

definition new_conn :: "reader \<Rightarrow> conn" where
  "new_conn output = \<lparr>cn_In = \<lparr>wr_Sent = [], wr_Calls = 0\<rparr>, cn_Out = output, cn_Heartbeats = 0\<rparr>"

definition process_Run :: "ProcessWorker \<Rightarrow> launch \<Rightarrow> Job \<Rightarrow> script" where
  "process_Run w la j = AskCtx (\<lambda>done_err.
     case done_err of Some e \<Rightarrow> Returns (Inl e) | None \<Rightarrow>
     case validJob j (pw_local w) (la_Now la) of Inl e \<Rightarrow> Returns (Inl e) | Inr _ \<Rightarrow>
     if \<not> la_Slot la then Returns (Inl ErrUnavailable)
     else if \<not> executableOK (la_Platform la) (cf_Executable (pw_config w)) then Returns (Inl ErrUnavailable)
     else if \<not> la_Pipes la then Returns (Inl ErrUnavailable)
     else case la_PID la of None \<Rightarrow> Returns (Inl ErrUnavailable) | Some pid \<Rightarrow>
       run_talk la (exchange (la_Answer la) pid j (new_conn (la_Output la))) 0)"

definition Process_Worker :: "ProcessWorker \<Rightarrow> (Job \<Rightarrow> launch) \<Rightarrow> Worker" where
  "Process_Worker w la = \<lparr>wk_Capabilities = process_Capabilities w, wk_Accept = process_Accept w,
     wk_Run = (\<lambda>j. process_Run w (la j) j)\<rparr>"

section \<open>Slots (worker.go: acquire, release, WaitIdle)\<close>

text \<open>
  The channel of slots, the count of active runs and the channel \<open>idle\<close>, which is open or closed.  Taking a
  slot and counting are two steps, and so are uncounting and giving the slot back.  Closing a closed channel
  panics: \<open>None\<close>.
\<close>

record pool =
  pl_Slots :: nat
  pl_Active :: int
  pl_IdleOpen :: bool

definition NewPool :: pool where
  "NewPool = \<lparr>pl_Slots = 0, pl_Active = 0, pl_IdleOpen = False\<rparr>"

definition acquire_slot :: "nat \<Rightarrow> pool \<Rightarrow> pool option" where
  "acquire_slot cap p = (if pl_Slots p < cap then Some (p\<lparr>pl_Slots := pl_Slots p + 1\<rparr>) else None)"

definition acquire_count :: "pool \<Rightarrow> pool" where
  "acquire_count p = p\<lparr>pl_IdleOpen := (if pl_Active p = 0 then True else pl_IdleOpen p), pl_Active := pl_Active p + 1\<rparr>"

definition release_count :: "pool \<Rightarrow> pool option" where
  "release_count p =
     (let a = pl_Active p - 1 in
      if a = 0 then (if pl_IdleOpen p then Some (p\<lparr>pl_Active := a, pl_IdleOpen := False\<rparr>) else None)
      else Some (p\<lparr>pl_Active := a\<rparr>))"

definition release_slot :: "pool \<Rightarrow> pool option" where
  "release_slot p = (if pl_Slots p > 0 then Some (p\<lparr>pl_Slots := pl_Slots p - 1\<rparr>) else None)"

text \<open>\<open>WaitIdle\<close>: whether it returns at once when the channel it read is the present one.\<close>

definition WaitIdle_ready :: "pool \<Rightarrow> bool" where
  "WaitIdle_ready p = (\<not> pl_IdleOpen p)"

text \<open>
  The runs by where they are: with a slot and not yet counted, counted, and uncounted with the slot still
  held.  Any of them may take its next step.
\<close>

record runs =
  ru_entering :: nat
  ru_running :: nat
  ru_leaving :: nat

inductive pool_step :: "nat \<Rightarrow> pool \<times> runs \<Rightarrow> pool \<times> runs \<Rightarrow> bool" for cap where
  enter: "acquire_slot cap p = Some p' \<Longrightarrow>
    pool_step cap (p, u) (p', u\<lparr>ru_entering := ru_entering u + 1\<rparr>)"
| count: "0 < ru_entering u \<Longrightarrow>
    pool_step cap (p, u) (acquire_count p, u\<lparr>ru_entering := ru_entering u - 1, ru_running := ru_running u + 1\<rparr>)"
| uncount: "0 < ru_running u \<Longrightarrow> release_count p = Some p' \<Longrightarrow>
    pool_step cap (p, u) (p', u\<lparr>ru_running := ru_running u - 1, ru_leaving := ru_leaving u + 1\<rparr>)"
| leave: "0 < ru_leaving u \<Longrightarrow> release_slot p = Some p' \<Longrightarrow>
    pool_step cap (p, u) (p', u\<lparr>ru_leaving := ru_leaving u - 1\<rparr>)"

inductive pool_reachable :: "nat \<Rightarrow> pool \<Rightarrow> runs \<Rightarrow> bool" for cap where
  start: "pool_reachable cap NewPool \<lparr>ru_entering = 0, ru_running = 0, ru_leaving = 0\<rparr>"
| step: "pool_reachable cap p u \<Longrightarrow> pool_step cap (p, u) (p', u') \<Longrightarrow> pool_reachable cap p' u'"

inductive_cases pool_stepE: "pool_step cap (p, u) (p', u')"

definition pool_ok :: "nat \<Rightarrow> pool \<Rightarrow> runs \<Rightarrow> bool" where
  "pool_ok cap p u \<longleftrightarrow> pl_Slots p = ru_entering u + ru_running u + ru_leaving u \<and> pl_Slots p \<le> cap
     \<and> pl_Active p = int (ru_running u) \<and> (pl_IdleOpen p \<longleftrightarrow> 0 < ru_running u)"

lemma pool_reachable_ok: "pool_reachable cap p u \<Longrightarrow> pool_ok cap p u"
proof (induction rule: pool_reachable.induct)
  case (step p u p' u')
  from step(2) step(3) show ?case
    by (elim pool_stepE) (auto simp: pool_ok_def acquire_slot_def acquire_count_def release_count_def release_slot_def
        Let_def split: if_splits)
qed (simp add: pool_ok_def NewPool_def)

section \<open>What a conversation can come to\<close>

inductive outcome :: "talk \<Rightarrow> Claim result \<Rightarrow> conn \<Rightarrow> bool" where
  ends: "outcome (Ends x c) x c"
| beats: "outcome (f res) x c \<Longrightarrow> outcome (Beats f) x c"

inductive_simps outcome_simps [simp]: "outcome (Ends x c) y d" "outcome (Beats f) y d"

primrec beats_at_most :: "talk \<Rightarrow> nat \<Rightarrow> bool" where
  "beats_at_most (Ends x c) = (\<lambda>n. True)"
| "beats_at_most (Beats f) = (\<lambda>n. 0 < n \<and> (\<forall>res. beats_at_most (f res) (n - 1)))"

lemma exchange_result_ends: "\<exists>x c'. exchange_result j f c = Ends x c'"
  by (auto simp: exchange_result_def split: option.splits prod.splits sum.splits error.splits)

lemma exchange_loop_beats: "beats \<le> MaxHeartbeats \<Longrightarrow> beats_at_most (exchange_loop answer pid j beats c) (MaxHeartbeats - beats)"
proof (induction answer pid j beats c rule: exchange_loop.induct)
  case (1 answer pid j beats c)
  show ?case
  proof (cases "readFrame (cn_Out c)")
    case (Pair x r)
    show ?thesis
    proof (cases x)
      case (Inl e)
      then show ?thesis
        using Pair by (subst exchange_loop.simps) simp
    next
      case (Inr f)
      obtain y d where y: "exchange_result j f (c\<lparr>cn_Out := r\<rparr>) = Ends y d"
        using exchange_result_ends by blast
      show ?thesis
      proof (cases "fr_Binding f \<noteq> bind j \<or> fr_PID f \<noteq> pid \<or> fr_Job f \<noteq> None \<or> fr_Kind f \<noteq> ''heartbeat''
          \<or> fr_Claim f \<noteq> None \<or> fr_Reason f \<noteq> [] \<or> beats \<ge> MaxHeartbeats")
        case True
        then show ?thesis
          using Pair Inr y by (subst exchange_loop.simps) (auto simp: Let_def)
      next
        case False
        then have "beats_at_most (exchange_loop answer pid j (beats + 1)
            (c\<lparr>cn_Out := r\<rparr>\<lparr>cn_In := w, cn_Heartbeats := Suc (cn_Heartbeats (c\<lparr>cn_Out := r\<rparr>))\<rparr>)) (MaxHeartbeats - (beats + 1))"
          if "writeFrame answer (plain_frame ''continue'' j) (cn_In (c\<lparr>cn_Out := r\<rparr>)) = (Inr u, w)" for u w
          using 1(1)[OF Pair[symmetric] Inr refl] that by simp
        then show ?thesis
          using Pair Inr False by (subst exchange_loop.simps) (auto simp: Let_def split: sum.splits prod.splits)
      qed
    qed
  qed
qed

lemma exchange_beats: "beats_at_most (exchange answer pid j c) MaxHeartbeats"
  using exchange_loop_beats[of 0 answer pid j] by (auto simp: exchange_def split: sum.splits prod.splits)

text \<open>A claim comes from the last frame of a process that then ended its output cleanly.\<close>

definition result_frame :: "Job \<Rightarrow> int \<Rightarrow> Claim \<Rightarrow> frame \<Rightarrow> bool" where
  "result_frame j pid claim f \<longleftrightarrow> fr_Kind f = ''result'' \<and> fr_Binding f = bind j \<and> fr_PID f = pid
     \<and> fr_Job f = None \<and> fr_Claim f = Some claim \<and> fr_Reason f = []"

definition claimed :: "Job \<Rightarrow> int \<Rightarrow> reader \<Rightarrow> Claim \<Rightarrow> bool" where
  "claimed j pid r claim \<longleftrightarrow> within (rq_Limits (job_Request j)) claim \<and> rd_End r = ErrEOF
     \<and> (\<exists>pre header b f. rd_Bytes r = pre @ header @ b \<and> length header = 4
          \<and> unat (BigEndian_Uint32 header) = length b \<and> decode_frame b = Inr f \<and> result_frame j pid claim f)"

lemma claimedI:
  assumes "within (rq_Limits (job_Request j)) claim" "rd_End r = ErrEOF" "rd_Bytes r = pre @ header @ b"
    "length header = 4" "unat (BigEndian_Uint32 header) = length b" "decode_frame b = Inr f" "result_frame j pid claim f"
  shows "claimed j pid r claim"
  using assms unfolding claimed_def by blast

lemma exchange_result_claim:
  assumes "outcome (exchange_result j f c) (Inr claim) c'"
  shows "fr_Claim f = Some claim" "fr_Reason f = []" "within (rq_Limits (job_Request j)) claim"
    "rd_Bytes (cn_Out c) = []" "rd_End (cn_Out c) = ErrEOF"
proof -
  have eof: "readFrame (cn_Out c) = (Inl ErrEOF, cn_Out c')" and
    "fr_Claim f = Some claim \<and> fr_Reason f = [] \<and> within (rq_Limits (job_Request j)) claim"
    using assms by (auto simp: exchange_result_def within_def split: option.splits if_splits prod.splits sum.splits error.splits)
  then show "fr_Claim f = Some claim" "fr_Reason f = []" "within (rq_Limits (job_Request j)) claim"
    by auto
  show "rd_Bytes (cn_Out c) = []" "rd_End (cn_Out c) = ErrEOF"
    using readFrame_error[OF eof] by auto
qed

lemma readFrame_End: "readFrame r = (Inr f, r') \<Longrightarrow> rd_End r' = rd_End r"
  by (auto simp: readFrame_def Let_def dest!: ReadFull_split split: prod.splits option.splits if_splits)

lemma claimed_later:
  assumes "readFrame r = (Inr f, r')" "claimed j pid r' claim"
  shows "claimed j pid r claim"
proof -
  obtain h b where h: "rd_Bytes r = h @ b @ rd_Bytes r'"
    using assms(1) by (rule readFrame_Inr)
  obtain pre header b' g where g: "rd_Bytes r' = pre @ header @ b'" "length header = 4"
    "unat (BigEndian_Uint32 header) = length b'" "decode_frame b' = Inr g" "result_frame j pid claim g"
    and w: "within (rq_Limits (job_Request j)) claim" "rd_End r' = ErrEOF"
    using assms(2) unfolding claimed_def by blast
  show ?thesis
    using w readFrame_End[OF assms(1)] h g by (intro claimedI[of j claim r "h @ b @ pre" header b' g]) auto
qed

lemma exchange_loop_frame:
  assumes "readFrame (cn_Out c) = (Inr f, r)" "outcome (exchange_loop answer pid j beats c) (Inr claim) c'"
  defines "c1 \<equiv> c\<lparr>cn_Out := r\<rparr>"
  shows "fr_Binding f = bind j \<and> fr_PID f = pid \<and> fr_Job f = None \<and>
    (fr_Kind f = ''heartbeat'' \<and> fr_Claim f = None \<and> fr_Reason f = [] \<and> beats < MaxHeartbeats
       \<and> (\<exists>u w. writeFrame answer (plain_frame ''continue'' j) (cn_In c1) = (Inr u, w)
            \<and> outcome (exchange_loop answer pid j (beats + 1) (c1\<lparr>cn_In := w, cn_Heartbeats := Suc (cn_Heartbeats c1)\<rparr>)) (Inr claim) c')
     \<or> fr_Kind f = ''result'' \<and> outcome (exchange_result j f c1) (Inr claim) c')"
proof -
  let ?next = "\<lambda>res :: unit result. case res of Inl e \<Rightarrow> Ends (Inl e) c1
    | Inr _ \<Rightarrow> (case writeFrame answer (plain_frame ''continue'' j) (cn_In c1) of
        (Inl e, w) \<Rightarrow> Ends (Inl e) (c1\<lparr>cn_In := w\<rparr>)
      | (Inr _, w) \<Rightarrow> exchange_loop answer pid j (beats + 1) (c1\<lparr>cn_In := w, cn_Heartbeats := Suc (cn_Heartbeats c1)\<rparr>))"
  have eq: "exchange_loop answer pid j beats c =
    (if fr_Binding f \<noteq> bind j \<or> fr_PID f \<noteq> pid \<or> fr_Job f \<noteq> None then Ends (Inl ErrWire) c1
     else if fr_Kind f = ''heartbeat'' then
       if fr_Claim f \<noteq> None \<or> fr_Reason f \<noteq> [] \<or> beats \<ge> MaxHeartbeats then Ends (Inl ErrWire) c1 else Beats ?next
     else if fr_Kind f = ''result'' then exchange_result j f c1
     else if fr_Kind f = ''error'' then
       Ends (Inl (if fr_Claim f \<noteq> None then ErrWire else frame_error (fr_Reason f))) c1
     else Ends (Inl ErrWire) c1)"
    by (subst exchange_loop.simps) (simp only: assms(1) c1_def Let_def prod.case sum.case)
  have beat: "\<exists>u w. writeFrame answer (plain_frame ''continue'' j) (cn_In c1) = (Inr u, w)
      \<and> outcome (exchange_loop answer pid j (beats + 1) (c1\<lparr>cn_In := w, cn_Heartbeats := Suc (cn_Heartbeats c1)\<rparr>)) (Inr claim) c'"
    if beat: "outcome (Beats ?next) (Inr claim) c'"
  proof -
    obtain res where "outcome (?next res) (Inr claim) c'"
      using beat unfolding outcome_simps by blast
    then show ?thesis
      by (cases res; cases "writeFrame answer (plain_frame ''continue'' j) (cn_In c1)"; cases "fst (writeFrame answer (plain_frame ''continue'' j) (cn_In c1))")
        auto
  qed
  have "outcome (if P then Ends (Inl e) d else t) (Inr claim) c' \<longleftrightarrow> \<not> P \<and> outcome t (Inr claim) c'" for P e d t
    by simp
  then show ?thesis
    using assms(2) beat unfolding eq by (simp split: if_splits)
qed

lemma exchange_loop_claim:
  "outcome (exchange_loop answer pid j beats c) (Inr claim) c' \<Longrightarrow> claimed j pid (cn_Out c) claim"
proof (induction answer pid j beats c rule: exchange_loop.induct)
  case (1 answer pid j beats c)
  obtain x r where read: "readFrame (cn_Out c) = (x, r)"
    by fastforce
  show ?case
  proof (cases x)
    case (Inl e)
    then show ?thesis
      using 1(2) read by (subst (asm) exchange_loop.simps) simp
  next
    case (Inr f)
    define c1 where "c1 = c\<lparr>cn_Out := r\<rparr>"
    have read: "readFrame (cn_Out c) = (Inr f, r)"
      using read Inr by simp
    note round = exchange_loop_frame[OF read 1(2), folded c1_def]
    show ?thesis
    proof (cases "fr_Kind f = ''result''")
      case False
      then have "claimed j pid r claim"
        using round 1(1)[OF read[symmetric] refl c1_def] by (auto simp: c1_def)
      then show ?thesis
        by (rule claimed_later[OF read])
    next
      case True
      then have res: "outcome (exchange_result j f c1) (Inr claim) c'"
        using round by simp
      note res = exchange_result_claim[OF res]
      obtain header b where b: "rd_Bytes (cn_Out c) = header @ b @ rd_Bytes r" "length header = 4"
        "unat (BigEndian_Uint32 header) = length b" "decode_frame b = Inr f"
        using read by (rule readFrame_Inr)
      show ?thesis
        using b res round True readFrame_End[OF read]
        by (intro claimedI[of j claim "cn_Out c" "[]" header b f]) (auto simp: c1_def result_frame_def)
    qed
  qed
qed

lemma exchange_claim: "outcome (exchange answer pid j c) (Inr claim) c' \<Longrightarrow> claimed j pid (cn_Out c) claim"
  by (auto simp: exchange_def dest: exchange_loop_claim split: sum.splits prod.splits)

text \<open>What a script can return, whatever its heartbeats and its context answer.\<close>

inductive may_return :: "script \<Rightarrow> Claim result \<Rightarrow> bool" where
  "may_return (Returns x) x"
| "may_return (f res) x \<Longrightarrow> may_return (Heartbeat f) x"
| "may_return (f e) x \<Longrightarrow> may_return (AskCtx f) x"
| "may_return (Hangs e) (Inl e)"

inductive_simps may_return_simps [simp]:
  "may_return (Returns x) y" "may_return (Heartbeat f) y" "may_return (AskCtx f) y" "may_return (Hangs e) y"
  "may_return Panics y"

lemma run_finish_claim:
  assumes "may_return (run_finish la x) (Inr claim)"
  shows "x = Inr claim" "la_Wait la = Exited" "\<not> la_Overflow la" "la_CtxErr la = None" "la_Cleaned la"
  using assms by (auto simp: run_finish_def run_error_def Let_def split: option.splits sum.splits if_splits waited.splits)

lemma run_talk_claim:
  "may_return (run_talk la t k) (Inr claim) \<Longrightarrow>
     (\<exists>c. outcome t (Inr claim) c) \<and> la_Wait la = Exited \<and> \<not> la_Overflow la \<and> la_CtxErr la = None \<and> la_Cleaned la"
proof (induction t arbitrary: k)
  case (Ends x c)
  then show ?case
    using run_finish_claim[of la] by (auto split: option.splits)
next
  case (Beats f)
  then show ?case
    using run_finish_claim[of la] by (auto split: option.splits) (metis rangeI)+
qed

lemma process_Run_claim:
  assumes "may_return (process_Run w la j) (Inr claim)"
  obtains pid where "la_PID la = Some pid" "claimed j pid (la_Output la) claim" "la_Wait la = Exited"
    "\<not> la_Overflow la" "la_Cleaned la" "la_Slot la" "validJob j (pw_local w) (la_Now la) = Inr ()"
    "executableOK (la_Platform la) (cf_Executable (pw_config w))"
proof -
  obtain pid where pid: "la_PID la = Some pid" "la_Slot la" "validJob j (pw_local w) (la_Now la) = Inr ()"
    "executableOK (la_Platform la) (cf_Executable (pw_config w))"
    and talk: "may_return (run_talk la (exchange (la_Answer la) pid j (new_conn (la_Output la))) 0) (Inr claim)"
    using assms by (auto simp: process_Run_def split: option.splits sum.splits if_splits)
  then obtain c where "outcome (exchange (la_Answer la) pid j (new_conn (la_Output la))) (Inr claim) c"
    and ends: "la_Wait la = Exited" "\<not> la_Overflow la" "la_Cleaned la"
    using run_talk_claim by blast
  then have "claimed j pid (la_Output la) claim"
    using exchange_claim by (fastforce simp: new_conn_def)
  then show ?thesis
    using that pid ends by blast
qed

section \<open>The two ends together\<close>

text \<open>A writer that takes everything it is given.\<close>

definition takes_all :: "write_answer \<Rightarrow> bool" where
  "takes_all answer \<longleftrightarrow> (\<forall>n b. b \<noteq> [] \<longrightarrow> answer n b = (int (length b), None))"

lemma takes_allD: "takes_all answer \<Longrightarrow> b \<noteq> [] \<Longrightarrow> answer n b = (int (length b), None)"
  by (simp add: takes_all_def)

definition frame_bytes :: "frame \<Rightarrow> string" where
  "frame_bytes f = BigEndian_PutUint32 (of_nat (length (json_text (frame_json f)))) @ json_text (frame_json f)"

text \<open>A frame that fits: its times are in range and its text is no longer than \<open>MaxFrame\<close>.\<close>

definition sendable :: "frame \<Rightarrow> bool" where
  "sendable f \<longleftrightarrow> good_frame f \<and> pred_option job_times_ok (fr_Job f) \<and> fr_Version f = WireVersion
     \<and> length (json_text (frame_json f)) \<le> MaxFrame"

lemma json_text_object: "json_text (JObject ms) \<noteq> []"
  by (simp add: json_text_def)

lemma frame_text_nonempty [simp]: "json_text (frame_json f) \<noteq> []"
  by (simp add: frame_json_def json_text_object)

lemma writeAll_takes: "takes_all answer \<Longrightarrow> b \<noteq> [] \<Longrightarrow>
    writeAll answer b w = (Inr (), \<lparr>wr_Sent = wr_Sent w @ b, wr_Calls = Suc (wr_Calls w)\<rparr>)"
  by (subst writeAll.simps) (simp add: Write_def takes_allD writeAll.simps[of _ "[]"])

lemma writeFrame_takes:
  assumes "takes_all answer" "sendable f"
  shows "writeFrame answer f w = (Inr (), \<lparr>wr_Sent = wr_Sent w @ frame_bytes f, wr_Calls = Suc (Suc (wr_Calls w))\<rparr>)"
proof -
  have "marshal_frame f = Some (json_text (frame_json f))"
    using assms(2) by (auto simp: marshal_frame_def sendable_def split: option.splits)
  moreover have "BigEndian_PutUint32 n \<noteq> []" for n
    by (simp add: BigEndian_PutUint32_def)
  ultimately show ?thesis
    using assms by (simp add: writeFrame_def writeAll_takes sendable_def frame_bytes_def)
qed

lemma readFrame_bytes:
  "sendable f \<Longrightarrow> readFrame \<lparr>rd_Bytes = frame_bytes f @ rest, rd_End = e\<rparr> = (Inr f, \<lparr>rd_Bytes = rest, rd_End = e\<rparr>)"
  using readFrame_written[OF decode_frame_text[of f], of rest e] by (simp add: sendable_def frame_bytes_def)

lemma readFrame_empty: "readFrame \<lparr>rd_Bytes = [], rd_End = ErrEOF\<rparr> = (Inl ErrEOF, \<lparr>rd_Bytes = [], rd_End = ErrEOF\<rparr>)"
  by (simp add: readFrame_def ReadFull_def)

end
