(* ===== verification/Conversation.thy ===== *)
theory Conversation
  imports Transport
begin

text \<open>
  The two ends of the pipes together: the frames of a valid job always fit, and a controller that talks to a
  worker process sees exactly what the local worker would have done in its own process.
\<close>

section \<open>Frames of valid jobs fit\<close>

definition text_len :: "json \<Rightarrow> nat" where
  "text_len v = length (lexemes_text (toks v))"

definition members_len :: "(string \<times> json) list \<Rightarrow> nat" where
  "members_len ms = length (lexemes_text (toks_members ms))"

lemma text_len_JObject: "text_len (JObject ms) = members_len ms + 2"
  by (simp add: text_len_def members_len_def)

lemma members_len_simps:
  "members_len [] = 0"
  "members_len ((k, v) # ms) = length k + 3 + text_len v + (if ms = [] then 0 else members_len ms + 1)"
  by (simp_all add: text_len_def members_len_def)

lemma members_len_append: "members_len (ms @ ns) \<le> members_len ms + members_len ns + 1"
proof (induction ms)
  case (Cons m ms)
  then show ?case
    by (cases m) (simp add: members_len_simps)
qed (simp add: members_len_simps)

lemma text_len_jstr: "utf8_Valid s \<Longrightarrow> length s \<le> n \<Longrightarrow> text_len (jstr s) \<le> 6 * n + 2"
  using length_escape[of s] by (simp add: text_len_def jstr_def)

lemma length_decimal: "n < 10 ^ k \<Longrightarrow> 0 < k \<Longrightarrow> length (decimal n) \<le> k"
proof (induction k arbitrary: n)
  case (Suc k)
  show ?case
  proof (cases "n < 10")
    case True
    then show ?thesis
      by (subst decimal.simps) simp
  next
    case False
    then have "0 < k"
      using Suc.prems by (cases k) auto
    moreover have "n div 10 < 10 ^ k"
      using Suc.prems by (simp add: less_mult_imp_div_less)
    ultimately show ?thesis
      using Suc.IH False by (subst decimal.simps) simp
  qed
qed simp

lemma length_int_text: "\<bar>i\<bar> < 10 ^ 20 \<Longrightarrow> length (int_text i) \<le> 21"
  using length_decimal[of "nat i" 20] length_decimal[of "nat (- i)" 20] by (auto simp: int_text_def nat_less_iff)

lemma text_len_numbers: "int64_range i \<Longrightarrow> text_len (jint i) \<le> 21" "text_len (juint w) \<le> 21"
proof -
  show "text_len (jint i) \<le> 21" if "int64_range i"
    using that length_int_text[of i] by (auto simp: text_len_def jint_def int64_range_def abs_less_iff)
  have "uint w < 2 ^ 64"
    using uint_bounded[of w] by simp
  then show "text_len (juint w) \<le> 21"
    using length_int_text[of "uint w"] by (simp add: text_len_def juint_def)
qed

lemma length_rstrip_zeros: "length (rstrip_zeros s) \<le> length s"
  using length_dropWhile_le[of _ "rev s"] by (simp add: rstrip_zeros_def)

lemma text_len_jtime:
  assumes "time_range t"
  shows "text_len (jtime t) \<le> 32"
proof -
  let ?r = "nat (t mod (86400 * Second))"
  have "?r < 86400 * 1000000000"
    by (simp add: Second_def nat_less_iff)
  then have "?r div 1000000000 < 86400"
    by (simp add: less_mult_imp_div_less)
  then have "length (clock_text (?r div 1000000000)) = 8"
    by (rule parse_clock_text(2))
  moreover have "length (fraction_text (?r mod 1000000000)) \<le> 10"
    using length_rstrip_zeros[of "digits 9 (?r mod 1000000000)"] by (simp add: fraction_text_def del: digits.simps)
  moreover have "length (date_text (t div (86400 * Second))) = 10"
    using assms parse_date_text(2) by (simp add: time_range_def)
  ultimately show ?thesis
    by (simp add: text_len_def jtime_def time_text_def Let_def)
qed

lemma limits_good: "limits_valid l \<Longrightarrow> good_limits l"
  by (simp add: limits_valid_def good_limits_def int64_range_def MaxBytes_def MaxDuration_def Minute_def Second_def)

lemma validJob_good:
  assumes "validJob j l now = Inr u"
  shows "good_job j" "good_binding (bind j)" "limits_valid (rq_Limits (job_Request j))"
    "od_EffectClass (job_Descriptor j) = EffectReadOnly"
proof -
  note v = validJob_Inr[OF assms]
  have ids: "list_all utf8_Valid (identities j)"
    using v(1) by (auto simp: boundedIdentity_def list_all_iff)
  have fits: "limits_valid (rq_Limits (job_Request j))" and eff: "od_EffectClass (job_Descriptor j) = EffectReadOnly"
    using v(3) limits_fits_valid by (auto simp: Local_Accept_def supports_Inr Local_Capabilities_def)
  then show "limits_valid (rq_Limits (job_Request j))" "od_EffectClass (job_Descriptor j) = EffectReadOnly"
    by auto
  show "good_binding (bind j)"
    using ids by (simp add: good_binding_def bind_def identities_def Let_def)
  have ascii: "utf8_Valid ''read_only''" "utf8_Valid ''unknown''" "utf8_Valid ''idempotent''" "utf8_Valid ''conditional''"
    "utf8_Valid ''1.0''" "utf8_Valid ''synthetic''"
    by (simp_all add: code_def)
  have "good_request (job_Request j)"
    using ids v(4,10,11) ascii limits_good[OF fits] by (simp add: good_request_def identities_def Let_def Version_def)
  moreover have "good_descriptor (job_Descriptor j)"
    using ids eff ascii validate_descriptorD(4)[OF v(2)]
    by (auto simp: good_descriptor_def identities_def Let_def effect_of_def idempotency_of_def)
  ultimately show "good_job j"
    using ids by (simp add: good_job_def identities_def Let_def)
qed

definition short_binding :: "binding \<Rightarrow> bool" where
  "short_binding b \<longleftrightarrow> list_all (\<lambda>s. length s \<le> MaxIdentifier) [bd_Task b, bd_Operation b, bd_Attempt b, bd_Lease b,
     bd_Correlation b, bd_Offer b, bd_Worker b, bd_Provider b, bd_Model b]"

lemma ids_text: "utf8_Valid s \<Longrightarrow> length s \<le> MaxIdentifier \<Longrightarrow> text_len (jstr s) \<le> 1538"
  using text_len_jstr[of s 256] by (simp add: MaxIdentifier_def)

lemma binding_len:
  assumes "good_binding b" "short_binding b"
  shows "text_len (binding_json b) \<le> 14100"
proof -
  have "text_len (jstr s) \<le> 1538"
    if "s \<in> {bd_Task b, bd_Operation b, bd_Attempt b, bd_Lease b, bd_Correlation b, bd_Offer b, bd_Worker b,
       bd_Provider b, bd_Model b}" for s
    using that assms by (intro ids_text) (auto simp: good_binding_def short_binding_def)
  from this[of "bd_Task b"] this[of "bd_Operation b"] this[of "bd_Attempt b"] this[of "bd_Lease b"]
    this[of "bd_Correlation b"] this[of "bd_Offer b"] this[of "bd_Worker b"] this[of "bd_Provider b"] this[of "bd_Model b"]
  show ?thesis
    using text_len_numbers(2)[of "bd_Generation b"]
    by (simp add: binding_json_def text_len_JObject members_len_simps)
qed

text \<open>A frame with a claim or a reason, or with neither, and a short binding.\<close>

lemma small_frame_fits:
  assumes "good_frame f" "short_binding (fr_Binding f)" "fr_Job f = None" "length (fr_Version f) \<le> 100"
    "length (fr_Kind f) \<le> 100" "length (fr_Reason f) \<le> 100"
    "pred_option (\<lambda>c. int (length (cl_Output c)) \<le> MaxBytes) (fr_Claim f)"
  shows "length (json_text (frame_json f)) \<le> MaxFrame"
proof -
  have b: "text_len (binding_json (fr_Binding f)) \<le> 14100"
    using assms by (simp add: binding_len good_frame_def)
  have small: "text_len (jstr (fr_Version f)) \<le> 602" "text_len (jstr (fr_Kind f)) \<le> 602" "text_len (jstr (fr_Reason f)) \<le> 602"
    "text_len (jint (fr_PID f)) \<le> 21"
    using assms text_len_jstr[of _ 100] text_len_numbers(1) by (simp_all add: good_frame_def)
  have claim: "text_len (claim_json c) \<le> 400000" if "fr_Claim f = Some c" for c
  proof -
    have "text_len (jstr (cl_Output c)) \<le> 6 * 65536 + 2" "text_len (jint (cl_Units c)) \<le> 21"
      using that assms text_len_jstr[of "cl_Output c" 65536] text_len_numbers(1)
      by (simp_all add: good_frame_def good_claim_def MaxBytes_def)
    then show ?thesis
      by (simp add: claim_json_def text_len_JObject members_len_simps)
  qed
  have "text_len (frame_json f) \<le> 500000"
    using b small claim assms(3)
    by (cases "fr_Claim f"; cases "fr_Reason f = []"; cases "fr_PID f = 0")
      (simp_all add: frame_json_def text_len_JObject members_len_simps)
  then show ?thesis
    by (simp add: text_len_def json_text_def MaxFrame_def)
qed

lemma scopes_len:
  "\<forall>s \<in> set ss. utf8_Valid s \<and> length s \<le> MaxIdentifier \<Longrightarrow> text_len (JArray (map jstr ss)) \<le> 1539 * length ss + 2"
proof -
  assume ss: "\<forall>s \<in> set ss. utf8_Valid s \<and> length s \<le> MaxIdentifier"
  have "length (lexemes_text (toks_elements (map jstr ss))) \<le> 1539 * length ss"
    using ss
  proof (induction ss)
    case (Cons s ss)
    then have "length (lexemes_text (toks (jstr s))) \<le> 1538"
      using ids_text[of s] by (simp add: text_len_def)
    then show ?case
      using Cons by auto
  qed simp
  then show ?thesis
    by (simp add: text_len_def)
qed

lemma job_frame_fits:
  assumes "validJob j l now = Inr u" "job_times_ok j"
  shows "sendable ((plain_frame ''job'' j)\<lparr>fr_Job := Some j\<rparr>)"
proof -
  note v = validJob_Inr[OF assms(1)] and good = validJob_good[OF assms(1)]
  let ?r = "job_Request j" and ?d = "job_Descriptor j"
  have ids: "text_len (jstr s) \<le> 1538" if "s \<in> set (identities j)" for s
    using that v(1) by (intro ids_text) (auto simp: boundedIdentity_def list_all_iff)
  have b: "text_len (binding_json (bind j)) \<le> 14100"
    using v(1) good(2) by (intro binding_len)
      (auto simp: short_binding_def bind_def boundedIdentity_def identities_def Let_def)
  have limits: "text_len (limits_json (rq_Limits ?r)) \<le> 200"
    using limits_good[OF good(3)] text_len_numbers(1)[of "lim_Duration (rq_Limits ?r)"]
      text_len_numbers(1)[of "lim_InputBytes (rq_Limits ?r)"] text_len_numbers(1)[of "lim_OutputBytes (rq_Limits ?r)"]
      text_len_numbers(1)[of "lim_Units (rq_Limits ?r)"]
    by (simp add: limits_json_def text_len_JObject members_len_simps good_limits_def)
  have version: "text_len (jstr (rq_Version ?r)) \<le> 1538"
    using v(4) by (intro ids_text) (simp_all add: Version_def MaxIdentifier_def code_def)
  have input: "text_len (jstr (rq_Input ?r)) \<le> 393218"
    using text_len_jstr[OF v(10), of 65536] v(12) good(3) by (simp add: limits_valid_def MaxBytes_def)
  have times: "text_len (jtime (rq_IssuedAt ?r)) \<le> 32" "text_len (jtime (rq_Deadline ?r)) \<le> 32"
    using assms(2) text_len_jtime by (simp_all add: job_times_ok_def)
  have request: "text_len (request_json ?r) \<le> 412500"
    using limits version input times text_len_numbers(2)[of "rq_Revision ?r"]
      ids[of "rq_MessageID ?r"] ids[of "rq_OperationID ?r"] ids[of "rq_AttemptID ?r"] ids[of "rq_LeaseID ?r"]
      ids[of "rq_RetryOf ?r"] ids[of "rq_CorrelationID ?r"] ids[of "rq_Provider ?r"] ids[of "rq_Model ?r"]
      ids[of "rq_DataClass ?r"]
    by (simp add: request_json_def text_len_JObject members_len_simps identities_def Let_def)
  have effect: "text_len (jstr (effect_text (od_EffectClass ?d))) \<le> 1538"
    using good(4) by (intro ids_text) (simp_all add: MaxIdentifier_def code_def)
  have idem: "text_len (jstr (idempotency_text (od_IdempotencyMode ?d))) \<le> 1538"
    using validate_descriptorD(4)[OF v(2)] by (intro ids_text) (auto simp: MaxIdentifier_def code_def)
  have "text_len (JArray (map jstr (od_ConflictScope ?d))) \<le> 1539 * length (od_ConflictScope ?d) + 2"
    using v(1) by (intro scopes_len) (auto simp: boundedIdentity_def list_all_iff identities_def Let_def)
  then have scopes: "text_len (JArray (map jstr (od_ConflictScope ?d))) \<le> 49250"
    using v(1) by (simp add: boundedIdentity_def)
  have descriptor: "text_len (descriptor_json ?d) \<le> 62000"
    using effect idem scopes ids[of "od_ID ?d"] ids[of "od_TaskID ?d"] ids[of "od_Name ?d"] ids[of "od_TargetRef ?d"]
      ids[of "od_VerificationPolicyRef ?d"] ids[of "od_AuthorizationPolicyRef ?d"]
    by (simp add: descriptor_json_def text_len_JObject members_len_simps identities_def Let_def)
  have job: "text_len (job_json j) \<le> 500000"
    using request descriptor ids[of "job_Worker j"] text_len_numbers(2)[of "job_Generation j"]
    by (simp add: job_json_def text_len_JObject members_len_simps identities_def Let_def)
  have "text_len (jstr WireVersion) \<le> 8" "text_len (jstr ''job'') \<le> 20"
    using text_len_jstr[of WireVersion 1] text_len_jstr[of "''job''" 3] by (simp_all add: WireVersion_def code_def)
  then have "text_len (frame_json ((plain_frame ''job'' j)\<lparr>fr_Job := Some j\<rparr>)) \<le> 600000"
    using b job by (simp add: frame_json_def plain_frame_def text_len_JObject members_len_simps)
  then show ?thesis
    using good assms(2) by (simp add: sendable_def good_frame_def plain_frame_def WireVersion_def code_def MaxFrame_def
        int64_range_def text_len_def json_text_def)
qed

lemma plain_frame_fits:
  assumes "validJob j l now = Inr u" "int64_range pid" "kind \<in> {''heartbeat'', ''continue'', ''result'', ''error''}"
    "pred_option (\<lambda>c. good_claim c \<and> int (length (cl_Output c)) \<le> MaxBytes) claim"
    "why \<in> {'''', ''budget_exceeded'', ''unsupported'', ''timeout'', ''cancelled'', ''provider_failed''}"
  shows "sendable ((plain_frame kind j)\<lparr>fr_Claim := claim, fr_Reason := why, fr_PID := pid\<rparr>)"
proof -
  note v = validJob_Inr(1)[OF assms(1)] and good = validJob_good(2)[OF assms(1)]
  have "utf8_Valid kind" "length kind \<le> 100" "utf8_Valid why" "length why \<le> 100"
    using assms(3,5) by (auto simp: code_def)
  moreover have "short_binding (bind j)"
    using v by (auto simp: short_binding_def bind_def boundedIdentity_def identities_def Let_def)
  moreover have "pred_option good_claim claim" "pred_option (\<lambda>c. int (length (cl_Output c)) \<le> MaxBytes) claim"
    using assms(4) by (auto simp: option.pred_set)
  ultimately have "good_frame ((plain_frame kind j)\<lparr>fr_Claim := claim, fr_Reason := why, fr_PID := pid\<rparr>)"
    "length (json_text (frame_json ((plain_frame kind j)\<lparr>fr_Claim := claim, fr_Reason := why, fr_PID := pid\<rparr>))) \<le> MaxFrame"
    using assms(2) good by (auto intro!: small_frame_fits simp: good_frame_def plain_frame_def WireVersion_def code_def)
  then show ?thesis
    by (simp add: sendable_def plain_frame_def)
qed

section \<open>The conversation\<close>

definition provider_request :: "Job \<Rightarrow> ProviderRequest" where
  "provider_request j = \<lparr>pr_Model = rq_Model (job_Request j), pr_Input = rq_Input (job_Request j),
     pr_Limits = rq_Limits (job_Request j)\<rparr>"

text \<open>What the provider of a name computes when its context has not ended.\<close>

definition provider_claim :: "string \<Rightarrow> Job \<Rightarrow> Claim result" where
  "provider_claim ident j =
     (if ident = ''test.echo'' then echo_claim None (provider_request j) else digest_claim None (provider_request j))"

lemma Generate_claim:
  assumes "provider ident = Inr p"
  shows "\<exists>g. prov_Generate p (provider_request j) = AskCtx (\<lambda>e. Returns (g e)) \<and> g None = provider_claim ident j"
  using assms by (rule provider_cases)
    (auto simp: EchoProvider_def EchoProvider_Generate_def DigestProvider_def DigestProvider_Generate_def provider_claim_def)

definition heartbeat_frame :: "Job \<Rightarrow> int \<Rightarrow> frame" where
  "heartbeat_frame j pid = (plain_frame ''heartbeat'' j)\<lparr>fr_PID := pid\<rparr>"

definition job_frame :: "Job \<Rightarrow> frame" where
  "job_frame j = (plain_frame ''job'' j)\<lparr>fr_Job := Some j\<rparr>"

definition answer_frame :: "Job \<Rightarrow> int \<Rightarrow> Claim result \<Rightarrow> frame" where
  "answer_frame j pid x =
     (case x of
        Inl e \<Rightarrow> plain_frame ''error'' j\<lparr>fr_Reason := serve_reason e, fr_PID := pid\<rparr>
      | Inr claim \<Rightarrow> plain_frame ''result'' j\<lparr>fr_Claim := Some claim, fr_PID := pid\<rparr>)"

lemma claim_errors:
  assumes "provider ident = Inr p" "validJob j \<lparr>loc_actor = actor, loc_provider = p\<rparr> now = Inr u"
  shows "provider_claim ident j = Inl e \<Longrightarrow> e = ErrLimit"
    "provider_claim ident j = Inr claim \<Longrightarrow> good_claim claim \<and> within (rq_Limits (job_Request j)) claim"
proof -
  note v = validJob_Inr[OF assms(2)] and good = validJob_good[OF assms(2)]
  have model: "rq_Model (job_Request j) = (if ident = ''test.echo'' then ''echo-v1'' else ''sha256-v1'')"
    using v(3) assms(1) by (auto simp: Local_Accept_def supports_Inr Local_Capabilities_def EchoProvider_def DigestProvider_def
        elim!: provider_cases)
  show "e = ErrLimit" if "provider_claim ident j = Inl e"
    using that model by (auto simp: provider_claim_def echo_claim_def digest_claim_def bindR_def providerCheck_def
        provider_request_def Let_def split: if_splits)
  assume claim: "provider_claim ident j = Inr claim"
  have hex: "utf8_Valid (sha256_hex s)" for s
  proof (rule utf8_Valid_ascii)
    fix c
    assume "c \<in> set (sha256_hex s)"
    then have "is_hex_char c"
      using sha256_hex_digits by blast
    then show "code c < 128"
      by (auto simp: is_hex_char_def code_def)
  qed
  have w: "within (rq_Limits (job_Request j)) claim" "utf8_Valid (cl_Output claim)"
    using claim v(10) hex echo_claim_Inr[of None "provider_request j" claim] digest_claim_Inr[of None "provider_request j" claim]
    by (auto simp: provider_claim_def provider_request_def split: if_splits)
  then show "good_claim claim \<and> within (rq_Limits (job_Request j)) claim"
    using good(3) by (auto simp: good_claim_def within_def limits_valid_def MaxBytes_def int64_range_def)
qed

lemma answer_sendable:
  assumes "provider ident = Inr p" "validJob j \<lparr>loc_actor = actor, loc_provider = p\<rparr> now = Inr u" "int64_range pid"
  shows "sendable (answer_frame j pid (provider_claim ident j))"
proof (cases "provider_claim ident j")
  case (Inl e)
  then show ?thesis
    using plain_frame_fits[OF assms(2,3), of "''error''" None "''budget_exceeded''"] claim_errors(1)[OF assms(1,2) Inl]
    by (simp add: answer_frame_def serve_reason_def plain_frame_def)
next
  case (Inr claim)
  then have "good_claim claim \<and> int (length (cl_Output claim)) \<le> MaxBytes"
    using claim_errors(2)[OF assms(1,2) Inr] validJob_good(3)[OF assms(2)]
    by (auto simp: within_def limits_valid_def)
  then show ?thesis
    using plain_frame_fits[OF assms(2,3), of "''result''" "Some claim" "''''"] Inr
    by (simp add: answer_frame_def plain_frame_def)
qed

lemma heartbeat_sendable:
  "validJob j l now = Inr u \<Longrightarrow> int64_range pid \<Longrightarrow> sendable (heartbeat_frame j pid)"
  using plain_frame_fits[of j l now u pid "''heartbeat''" None "''''"] by (simp add: heartbeat_frame_def plain_frame_def)

lemma continue_sendable: "validJob j l now = Inr u \<Longrightarrow> sendable (plain_frame ''continue'' j)"
  using plain_frame_fits[of j l now u 0 "''continue''" None "''''"] by (simp add: plain_frame_def int64_range_def)

text \<open>The process, given the job and a \<open>continue\<close>: it sends one heartbeat and the claim of the provider.\<close>

lemma Serve_conversation:
  fixes out :: writer and e :: error
  assumes "provider ident = Inr p" "actor \<noteq> ''''" "validJob j \<lparr>loc_actor = actor, loc_provider = p\<rparr> (sw_Now w) = Inr ()"
    "job_times_ok j" "int64_range (sw_PID w)" "takes_all (sw_Answer w)" "sw_Ctx w = (\<lambda>_. None)"
  defines "s \<equiv> Serve w actor ident
    \<lparr>rd_Bytes = frame_bytes (job_frame j) @ frame_bytes (plain_frame ''continue'' j), rd_End = e\<rparr> out"
  shows "fst s = Some (Inr ())"
    "wr_Sent (sv_Out (snd s)) = wr_Sent out @ frame_bytes (heartbeat_frame j (sw_PID w))
       @ frame_bytes (answer_frame j (sw_PID w) (provider_claim ident j))"
proof -
  let ?l = "\<lparr>loc_actor = actor, loc_provider = p\<rparr>"
  have job: "sendable (job_frame j)"
    using job_frame_fits[OF assms(3,4)] by (simp add: job_frame_def)
  note cont = continue_sendable[OF assms(3)] and beat = heartbeat_sendable[OF assms(3,5)]
    and ans = answer_sendable[OF assms(1,3,5)]
  obtain g where g: "prov_Generate p (provider_request j) = AskCtx (\<lambda>e. Returns (g e))" "g None = provider_claim ident j"
    using Generate_claim[OF assms(1)] by blast
  have "Local_Accept ?l j = Inr ()"
    using validJob_Inr(3)[OF assms(3)] by simp
  then have run: "Local_Run ?l j = Heartbeat (\<lambda>b. case b of Inl e \<Rightarrow> Returns (Inl e) | Inr _ \<Rightarrow> AskCtx (\<lambda>e. Returns (g e)))"
    using g(1) by (simp add: Local_Run_def provider_request_def cong: sum.case_cong)
  have is_job: "is_job (job_frame j)" "fr_Job (job_frame j) = Some j" "fr_Binding (job_frame j) = bind j"
    and ack: "is_continue (plain_frame ''continue'' j) j"
    by (simp_all add: is_job_def job_frame_def plain_frame_def is_continue_def)
  have beat_eq: "plain_frame ''heartbeat'' j\<lparr>fr_PID := sw_PID w\<rparr> = heartbeat_frame j (sw_PID w)"
    by (simp add: heartbeat_frame_def)
  have ans_eq: "serve_answer w j (provider_claim ident j) = answer_frame j (sw_PID w) (provider_claim ident j)"
    by (simp add: serve_answer_def answer_frame_def)
  note read = readFrame_bytes[OF job] readFrame_bytes[OF cont, of "[]", simplified]
  note sent = writeFrame_takes[OF assms(6) beat] writeFrame_takes[OF assms(6) ans]
  have "s = (Some (Inr ()), \<lparr>sv_In = \<lparr>rd_Bytes = [], rd_End = e\<rparr>,
      sv_Out = \<lparr>wr_Sent = (wr_Sent out @ frame_bytes (heartbeat_frame j (sw_PID w)))
          @ frame_bytes (answer_frame j (sw_PID w) (provider_claim ident j)),
        wr_Calls = Suc (Suc (Suc (Suc (wr_Calls out))))\<rparr>, sv_Beats = 1, sv_Tick = 3\<rparr>)"
    unfolding s_def Serve_def serve_job_def
    by (simp add: assms(1,2,3,7) NewLocal_def read is_job run serve_heartbeat_def serve_ctx_def serve_write_def beat_eq
        sent ack MaxHeartbeats_def g(2) ans_eq numeral_3_eq_3)
  then show "fst s = Some (Inr ())"
    "wr_Sent (sv_Out (snd s)) = wr_Sent out @ frame_bytes (heartbeat_frame j (sw_PID w))
       @ frame_bytes (answer_frame j (sw_PID w) (provider_claim ident j))"
    by simp_all
qed

text \<open>The controller, given that heartbeat and that claim: it sends the job and one \<open>continue\<close>.\<close>

lemma exchange_conversation:
  assumes "provider ident = Inr p" "validJob j \<lparr>loc_actor = actor, loc_provider = p\<rparr> now = Inr ()"
    "job_times_ok j" "int64_range pid" "takes_all answer"
  obtains c1 c2 where
    "exchange answer pid j (new_conn \<lparr>rd_Bytes = frame_bytes (heartbeat_frame j pid)
         @ frame_bytes (answer_frame j pid (provider_claim ident j)), rd_End = ErrEOF\<rparr>)
       = Beats (\<lambda>res. case res of Inl e \<Rightarrow> Ends (Inl e) c1 | Inr _ \<Rightarrow> Ends (provider_claim ident j) c2)"
    "wr_Sent (cn_In c2) = frame_bytes (job_frame j) @ frame_bytes (plain_frame ''continue'' j)"
proof -
  have job: "sendable (plain_frame ''job'' j\<lparr>fr_Job := Some j\<rparr>)"
    by (rule job_frame_fits[OF assms(2,3)])
  let ?beat = "heartbeat_frame j pid" and ?x = "provider_claim ident j"
  let ?ans = "answer_frame j pid ?x"
  note cont = continue_sendable[OF assms(2)] and beat = heartbeat_sendable[OF assms(2,4)]
    and ans = answer_sendable[OF assms(1,2,4)]
  note sent = writeFrame_takes[OF assms(5) job] writeFrame_takes[OF assms(5) cont]
  note read = readFrame_bytes[OF beat] readFrame_bytes[OF ans, of "[]", simplified]
  have fields: "fr_Kind ?beat = ''heartbeat''" "fr_Binding ?beat = bind j" "fr_PID ?beat = pid" "fr_Job ?beat = None"
    "fr_Claim ?beat = None" "fr_Reason ?beat = []"
    by (simp_all add: heartbeat_frame_def plain_frame_def)
  have last: "exchange_loop answer pid j 1 \<lparr>cn_In = i, cn_Out = \<lparr>rd_Bytes = frame_bytes ?ans, rd_End = ErrEOF\<rparr>, cn_Heartbeats = n\<rparr>
      = Ends ?x \<lparr>cn_In = i, cn_Out = \<lparr>rd_Bytes = [], rd_End = ErrEOF\<rparr>, cn_Heartbeats = n\<rparr>" for i n
  proof (cases ?x)
    case (Inl e)
    then have "e = ErrLimit"
      by (rule claim_errors(1)[OF assms(1,2)])
    then have "fr_Kind ?ans = ''error''" "fr_Binding ?ans = bind j" "fr_PID ?ans = pid" "fr_Job ?ans = None"
      "fr_Claim ?ans = None" "frame_error (fr_Reason ?ans) = ErrLimit"
      by (simp_all add: Inl answer_frame_def plain_frame_def serve_reason_def frame_error_def)
    then have "exchange_loop answer pid j 1 \<lparr>cn_In = i, cn_Out = \<lparr>rd_Bytes = frame_bytes ?ans, rd_End = ErrEOF\<rparr>, cn_Heartbeats = n\<rparr>
      = Ends (Inl ErrLimit) \<lparr>cn_In = i, cn_Out = \<lparr>rd_Bytes = [], rd_End = ErrEOF\<rparr>, cn_Heartbeats = n\<rparr>"
      by (subst exchange_loop.simps) (simp add: read)
    then show ?thesis
      using Inl \<open>e = ErrLimit\<close> by simp
  next
    case (Inr claim)
    have w: "within (rq_Limits (job_Request j)) claim"
      using claim_errors(2)[OF assms(1,2) Inr] by blast
    have ans_fields: "fr_Kind ?ans = ''result''" "fr_Binding ?ans = bind j" "fr_PID ?ans = pid" "fr_Job ?ans = None"
      "fr_Claim ?ans = Some claim" "fr_Reason ?ans = []"
      by (simp_all add: Inr answer_frame_def plain_frame_def)
    then have "exchange_loop answer pid j 1 \<lparr>cn_In = i, cn_Out = \<lparr>rd_Bytes = frame_bytes ?ans, rd_End = ErrEOF\<rparr>, cn_Heartbeats = n\<rparr>
      = Ends (Inr claim) \<lparr>cn_In = i, cn_Out = \<lparr>rd_Bytes = [], rd_End = ErrEOF\<rparr>, cn_Heartbeats = n\<rparr>"
      using w by (subst exchange_loop.simps) (simp add: read exchange_result_def within_def readFrame_empty)
    then show ?thesis
      using Inr by simp
  qed
  define w1 where "w1 = \<lparr>wr_Sent = frame_bytes (job_frame j), wr_Calls = 2\<rparr>"
  define c1 where "c1 = \<lparr>cn_In = w1, cn_Out = \<lparr>rd_Bytes = frame_bytes ?ans, rd_End = ErrEOF\<rparr>, cn_Heartbeats = 0\<rparr>"
  define c2 where "c2 = \<lparr>cn_In = \<lparr>wr_Sent = frame_bytes (job_frame j) @ frame_bytes (plain_frame ''continue'' j), wr_Calls = 4\<rparr>,
    cn_Out = \<lparr>rd_Bytes = [], rd_End = ErrEOF\<rparr>, cn_Heartbeats = Suc 0\<rparr>"
  have "exchange answer pid j (new_conn \<lparr>rd_Bytes = frame_bytes ?beat @ frame_bytes ?ans, rd_End = ErrEOF\<rparr>)
      = exchange_loop answer pid j 0 \<lparr>cn_In = w1, cn_Out = \<lparr>rd_Bytes = frame_bytes ?beat @ frame_bytes ?ans, rd_End = ErrEOF\<rparr>,
          cn_Heartbeats = 0\<rparr>"
    by (simp add: exchange_def new_conn_def sent w1_def job_frame_def numeral_2_eq_2)
  also have "\<dots> = Beats (\<lambda>res. case res of Inl e \<Rightarrow> Ends (Inl e) c1 | Inr _ \<Rightarrow> Ends ?x c2)"
    by (subst exchange_loop.simps)
      (simp add: read fields MaxHeartbeats_def sent c1_def c2_def w1_def last[unfolded One_nat_def] numeral_eq_Suc cong: sum.case_cong)
  finally show ?thesis
    using that[of c1 c2] by (simp add: c2_def)
qed

end
