(* ===== verification/TransportTheorems.thy ===== *)
theory TransportTheorems
  imports Conversation Demo
begin

text \<open>
  What holds of the process transport as a whole: frames, the conversation over them and the slots, with the
  concrete runs that show the hypotheses can be met.
\<close>

section \<open>Frames\<close>

definition demo_claim_frame :: frame where
  "demo_claim_frame = \<lparr>fr_Version = WireVersion, fr_Kind = ''result'',
     fr_Binding = zero_binding\<lparr>bd_Task := ''t'', bd_Generation := 1\<rparr>, fr_Job = None,
     fr_Claim = Some \<lparr>cl_Output = ''a'' @ [quotes, CHR 0xC3, CHR 0xA4], cl_Units = 4\<rparr>, fr_Reason = [], fr_PID = 7\<rparr>"

definition demo_answer :: write_answer where
  "demo_answer n b = (int (length b), None)"

lemma demo_takes: "takes_all demo_answer"
  by (simp add: takes_all_def demo_answer_def)

lemma demo_claim_frame_good: "good_frame demo_claim_frame" "fr_Version demo_claim_frame = WireVersion"
  by code_simp+

lemma demo_claim_frame_sendable: "sendable demo_claim_frame"
proof -
  have "short_binding (fr_Binding demo_claim_frame)" "fr_Job demo_claim_frame = None"
    "length (fr_Version demo_claim_frame) \<le> 100" "length (fr_Kind demo_claim_frame) \<le> 100"
    "length (fr_Reason demo_claim_frame) \<le> 100"
    "pred_option (\<lambda>c. int (length (cl_Output c)) \<le> MaxBytes) (fr_Claim demo_claim_frame)"
    by code_simp+
  then show ?thesis
    using small_frame_fits demo_claim_frame_good by (simp add: sendable_def)
qed

definition demo_writer :: writer where
  "demo_writer = \<lparr>wr_Sent = ''x'', wr_Calls = 0\<rparr>"

text \<open>
  C29.  A frame that was written, in however many portions, is read back exactly as it was, whatever follows
  it in the stream, provided that its strings are valid UTF-8 and its integers have 64 bits.
\<close>

theorem frame_roundtrip:
  assumes "good_frame f" "fr_Version f = WireVersion" "writeFrame answer f w = (Inr u, w')"
  shows "\<exists>b. wr_Sent w' = wr_Sent w @ b \<and>
    (\<forall>rest e. readFrame \<lparr>rd_Bytes = b @ rest, rd_End = e\<rparr> = (Inr f, \<lparr>rd_Bytes = rest, rd_End = e\<rparr>))"
proof -
  note sent = writeFrame_Inr[OF assms(3)]
  have "decode_frame (json_text (frame_json f)) = Inr f"
    using assms(1,2) sent(1) by (intro decode_frame_text)
  then show ?thesis
    using sent(2,3,4) readFrame_written by fastforce
qed

lemma frame_roundtrip_witness:
  "\<exists>b. wr_Sent (snd (writeFrame demo_answer demo_claim_frame demo_writer)) = ''x'' @ b \<and>
     readFrame \<lparr>rd_Bytes = b @ ''y'', rd_End = ErrEOF\<rparr> = (Inr demo_claim_frame, \<lparr>rd_Bytes = ''y'', rd_End = ErrEOF\<rparr>)"
  using frame_roundtrip[OF demo_claim_frame_good writeFrame_takes[OF demo_takes demo_claim_frame_sendable, of demo_writer]]
    writeFrame_takes[OF demo_takes demo_claim_frame_sendable, of demo_writer]
  by (auto simp: demo_writer_def)

text \<open>
  C30.  Whatever the bytes of a stream are, a frame that is accepted from it has the supported version and was
  a text of at most \<open>MaxFrame\<close> bytes of valid UTF-8, in which no object repeats a key, up to \<open>ToLower\<close>, and no
  value is nested more than 32 deep; nothing behind the frame is consumed.
\<close>

theorem frame_accepted:
  assumes "readFrame r = (Inr f, r')"
  shows "\<exists>header b v. rd_Bytes r = header @ b @ rd_Bytes r' \<and> length header = 4
    \<and> unat (BigEndian_Uint32 header) = length b \<and> 0 < length b \<and> length b \<le> MaxFrame \<and> utf8_Valid b
    \<and> lex b = Some (toks v) \<and> unique_keys v \<and> within_depth 32 v \<and> fr_Version f = WireVersion"
proof -
  obtain header b where b: "rd_Bytes r = header @ b @ rd_Bytes r'" "length header = 4"
    "unat (BigEndian_Uint32 header) = length b" "0 < length b" "length b \<le> MaxFrame" "decode_frame b = Inr f"
    using assms by (rule readFrame_Inr)
  obtain ls v where "utf8_Valid b" "lex b = Some ls" "ls = toks v" "orderly 0 v" "fr_Version f = WireVersion"
    using b(6) by (rule decode_frame_Inr)
  then show ?thesis
    using b by (intro exI[of _ header] exI[of _ b] exI[of _ v]) (simp add: orderly_def)
qed

lemma frame_accepted_witness:
  "\<exists>header b v. frame_bytes demo_claim_frame @ ''y'' = header @ b @ ''y'' \<and> length header = 4
     \<and> lex b = Some (toks v) \<and> unique_keys v"
  using frame_accepted[OF readFrame_bytes[OF demo_claim_frame_sendable, of "''y''" ErrEOF]] by auto



section \<open>The conversation\<close>

definition demo_child_job :: Job where
  "demo_child_job = \<lparr>job_Request = demo_request, job_Descriptor = demo_analysis, job_Worker = ''w'', job_Generation = 1\<rparr>"

definition demo_echo :: Local where
  "demo_echo = \<lparr>loc_actor = ''w'', loc_provider = EchoProvider\<rparr>"

definition demo_serve :: serve_world where
  "demo_serve = \<lparr>sw_Now = demo_time + 1, sw_Ctx = \<lambda>_. None, sw_PID = 7, sw_Answer = demo_answer\<rparr>"

lemma demo_child_valid:
  "validJob demo_child_job \<lparr>loc_actor = ''w'', loc_provider = EchoProvider\<rparr> (demo_time + 1) = Inr ()"
  "job_times_ok demo_child_job" "int64_range 7"
  by code_simp+

lemma demo_echo_provider: "provider ''test.echo'' = Inr EchoProvider"
  by (simp add: provider_def)

definition demo_claim :: Claim where
  "demo_claim = \<lparr>cl_Output = ''R5 synthetic reference'', cl_Units = 22\<rparr>"

lemma demo_provider_claim: "provider_claim ''test.echo'' demo_child_job = Inr demo_claim"
  by code_simp

definition demo_launch :: launch where
  "demo_launch = \<lparr>la_Now = demo_time + 1, la_Slot = True,
     la_Platform = \<lparr>pf_windows = False, pf_IsAbs = \<lambda>_. True, pf_Ext = \<lambda>_. '''', pf_Lstat = \<lambda>_. Some \<lparr>fs_Regular = True, fs_Perm = 493\<rparr>\<rparr>,
     la_Pipes = True, la_PID = Some 7,
     la_Output = \<lparr>rd_Bytes = frame_bytes (heartbeat_frame demo_child_job 7)
        @ frame_bytes (answer_frame demo_child_job 7 (provider_claim ''test.echo'' demo_child_job)), rd_End = ErrEOF\<rparr>,
     la_Answer = demo_answer, la_Done = \<lambda>_. None, la_Wait = Exited, la_Overflow = False, la_CtxErr = None,
     la_Cleaned = True\<rparr>"

definition demo_process :: ProcessWorker where
  "demo_process = \<lparr>pw_config = \<lparr>cf_Executable = ''/bin/w'', cf_FixedArgs = [], cf_MaxParallel = 4\<rparr>,
     pw_local = \<lparr>loc_actor = ''w'', loc_provider = EchoProvider\<rparr>\<rparr>"

lemma demo_executable: "executableOK (la_Platform demo_launch) (cf_Executable (pw_config demo_process))"
  by (simp add: executableOK_def demo_launch_def)

lemma demo_process_returns: "may_return (process_Run demo_process demo_launch demo_child_job) (Inr demo_claim)"
proof -
  obtain c1 c2 where talk: "exchange demo_answer 7 demo_child_job (new_conn (la_Output demo_launch))
      = Beats (\<lambda>res. case res of Inl err \<Rightarrow> Ends (Inl err) c1 | Inr _ \<Rightarrow> Ends (provider_claim ''test.echo'' demo_child_job) c2)"
    unfolding demo_launch_def launch.simps
    by (rule exchange_conversation[OF demo_echo_provider demo_child_valid demo_takes]) blast
  have "may_return (run_talk demo_launch (exchange demo_answer 7 demo_child_job (new_conn (la_Output demo_launch))) 0) (Inr demo_claim)"
    unfolding talk by (auto simp: demo_launch_def run_finish_def run_error_def demo_provider_claim intro!: exI[of _ "Inr ()"])
  then show ?thesis
    using demo_executable demo_child_valid(1)
    by (auto simp: process_Run_def demo_process_def intro!: exI[of _ "None :: error option"])
      (simp_all add: demo_launch_def)
qed

text \<open>
  C31.  Whatever a worker process does, the controller takes a claim from it only if it wrote, as its last
  frame, a result bound to this very job (task, operation, attempt, lease, generation, correlation, offer,
  worker, provider and model) and to its own process number, within the limits of the job, then ended its
  output cleanly, exited with success and kept its standard error within its bound.
\<close>

theorem process_claim:
  assumes "may_return (process_Run w la j) (Inr claim)"
  shows "\<exists>pid. la_PID la = Some pid \<and> claimed j pid (la_Output la) claim \<and> la_Wait la = Exited
    \<and> \<not> la_Overflow la \<and> la_Cleaned la \<and> validJob j (pw_local w) (la_Now la) = Inr ()
    \<and> executableOK (la_Platform la) (cf_Executable (pw_config w))"
  using assms by (rule process_Run_claim) blast

lemma process_claim_witness:
  "claimed demo_child_job 7 (la_Output demo_launch) demo_claim \<and> la_Wait demo_launch = Exited"
  using process_claim[OF demo_process_returns] by (auto simp: demo_launch_def)

text \<open>
  C32.  A worker process is transparent: if both ends run, what the process writes is what the controller
  must read and the other way round, and the controller's side of the conversation is one heartbeat and then
  exactly the claim, or the error, that the provider computes for the job in a process of its own or not.
\<close>

theorem transport_transparent:
  assumes "provider ident = Inr p" "actor \<noteq> ''''" "validJob j \<lparr>loc_actor = actor, loc_provider = p\<rparr> (sw_Now w) = Inr ()"
    "job_times_ok j" "int64_range (sw_PID w)" "takes_all (sw_Answer w)" "sw_Ctx w = (\<lambda>_. None)" "takes_all answer"
  shows "\<exists>to_child from_child s c1 c2.
    Serve w actor ident \<lparr>rd_Bytes = to_child, rd_End = e\<rparr> \<lparr>wr_Sent = [], wr_Calls = 0\<rparr> = (Some (Inr ()), s)
    \<and> wr_Sent (sv_Out s) = from_child
    \<and> exchange answer (sw_PID w) j (new_conn \<lparr>rd_Bytes = from_child, rd_End = ErrEOF\<rparr>)
        = Beats (\<lambda>res. case res of Inl err \<Rightarrow> Ends (Inl err) c1 | Inr _ \<Rightarrow> Ends (provider_claim ident j) c2)
    \<and> wr_Sent (cn_In c2) = to_child"
proof -
  let ?to = "frame_bytes (job_frame j) @ frame_bytes (plain_frame ''continue'' j)"
  let ?from = "frame_bytes (heartbeat_frame j (sw_PID w)) @ frame_bytes (answer_frame j (sw_PID w) (provider_claim ident j))"
  obtain c1 c2 where "exchange answer (sw_PID w) j (new_conn \<lparr>rd_Bytes = ?from, rd_End = ErrEOF\<rparr>)
      = Beats (\<lambda>res. case res of Inl err \<Rightarrow> Ends (Inl err) c1 | Inr _ \<Rightarrow> Ends (provider_claim ident j) c2)"
    "wr_Sent (cn_In c2) = ?to"
    using assms(1,3,4,5,8) by (rule exchange_conversation)
  moreover obtain x s where "Serve w actor ident \<lparr>rd_Bytes = ?to, rd_End = e\<rparr> \<lparr>wr_Sent = [], wr_Calls = 0\<rparr> = (x, s)"
    by fastforce
  moreover from this have "x = Some (Inr ())" "wr_Sent (sv_Out s) = ?from"
    using Serve_conversation[OF assms(1-7), of e "\<lparr>wr_Sent = [], wr_Calls = 0\<rparr>"] by simp_all
  ultimately show ?thesis
    by (intro exI[of _ ?to] exI[of _ ?from] exI[of _ s] exI[of _ c1] exI[of _ c2]) simp
qed

lemma transport_transparent_witness:
  "\<exists>to_child s. Serve demo_serve ''w'' ''test.echo'' \<lparr>rd_Bytes = to_child, rd_End = ErrEOF\<rparr> \<lparr>wr_Sent = [], wr_Calls = 0\<rparr>
      = (Some (Inr ()), s)
    \<and> (\<exists>c1 c2. exchange demo_answer 7 demo_child_job (new_conn \<lparr>rd_Bytes = wr_Sent (sv_Out s), rd_End = ErrEOF\<rparr>)
        = Beats (\<lambda>res. case res of Inl err \<Rightarrow> Ends (Inl err) c1 | Inr _ \<Rightarrow> Ends (Inr demo_claim) c2))"
  using transport_transparent[OF demo_echo_provider, of "''w''" demo_child_job demo_serve demo_answer ErrEOF]
    demo_child_valid demo_takes by (auto simp: demo_serve_def demo_provider_claim)

text \<open>
  C33.  However acquisitions and releases of the runs interleave, never more than \<open>MaxParallel\<close> slots are
  taken, the count of active runs is right, releasing never panics by closing a closed channel and never
  blocks, and \<open>WaitIdle\<close> returns at once exactly when no run is counted.
\<close>

theorem slots_bounded:
  assumes "pool_reachable cap p u"
  shows "pl_Slots p \<le> cap \<and> pl_Active p = int (ru_running u)
    \<and> ru_entering u + ru_running u + ru_leaving u = pl_Slots p
    \<and> (ru_running u = 0 \<or> release_count p \<noteq> None) \<and> (ru_leaving u = 0 \<or> release_slot p \<noteq> None)
    \<and> WaitIdle_ready p = (ru_running u = 0)"
  using pool_reachable_ok[OF assms] by (auto simp: pool_ok_def release_count_def release_slot_def WaitIdle_ready_def Let_def)

lemma slots_bounded_witness:
  "release_count (acquire_count \<lparr>pl_Slots = 1, pl_Active = 0, pl_IdleOpen = False\<rparr>) \<noteq> None"
proof -
  let ?p = "acquire_count \<lparr>pl_Slots = 1, pl_Active = 0, pl_IdleOpen = False\<rparr>"
  have 1: "pool_reachable 1 \<lparr>pl_Slots = 1, pl_Active = 0, pl_IdleOpen = False\<rparr> \<lparr>ru_entering = 1, ru_running = 0, ru_leaving = 0\<rparr>"
    using pool_reachable.step[OF pool_reachable.start pool_step.enter[of 1 NewPool]]
    by (simp add: acquire_slot_def NewPool_def)
  have 2: "pool_reachable 1 ?p \<lparr>ru_entering = 0, ru_running = 1, ru_leaving = 0\<rparr>"
    using pool_reachable.step[OF 1 pool_step.count] by simp
  from slots_bounded[OF 2] show ?thesis by simp
qed


end
