(* ===== verification/Files.thy ===== *)
theory Files
  imports Wire
begin

text \<open>
  What the local check service uses of \<open>os\<close> and \<open>path/filepath\<close>: a tree of files with symbolic links, the
  resolution of paths, \<open>Lstat\<close>, reading, and the creation of files that must not exist yet.  Paths are
  those of Unix: a path is the list of its components from the root.
\<close>

section \<open>The file system\<close>

text \<open>\<open>Special\<close>: a device or a pipe, with what reading it delivers.\<close>

datatype node = File string | Dir | Link string | Special string

type_synonym path = "string list"

text \<open>
  \<open>fs_Denied\<close>: the operating system refuses to search, list or change that directory, or to read that file.
\<close>

record files =
  fs_Nodes :: "(path, node) fmap"
  fs_Denied :: "path \<Rightarrow> bool"

definition node_at :: "files \<Rightarrow> path \<Rightarrow> node option" where
  "node_at fs p = (if p = [] then Some Dir else fmlookup (fs_Nodes fs) p)"

definition put_node :: "path \<Rightarrow> node \<Rightarrow> files \<Rightarrow> files" where
  "put_node p n fs = fs\<lparr>fs_Nodes := fmupd p n (fs_Nodes fs)\<rparr>"

text \<open>The directory a path or the target of a link starts from.\<close>

definition start :: "string \<Rightarrow> path \<Rightarrow> path" where
  "start s cur = (if prefix ''/'' s then [] else cur)"

definition searchable :: "files \<Rightarrow> path \<Rightarrow> bool" where
  "searchable fs d \<longleftrightarrow> node_at fs d = Some Dir \<and> \<not> fs_Denied fs d"

text \<open>\<open>strings.Split(s, "/")\<close>.\<close>

fun Split_slash :: "string \<Rightarrow> string list" where
  "Split_slash [] = [[]]"
| "Split_slash (c # s) =
     (if c = CHR ''/'' then [] # Split_slash s
      else (case Split_slash s of [] \<Rightarrow> [[c]] | p # ps \<Rightarrow> (c # p) # ps))"

text \<open>
  The resolution of a path from the directory \<open>cur\<close>, which is real, following at most \<open>n\<close> links; the
  last component is followed if \<open>follow\<close>.
\<close>

fun walk :: "files \<Rightarrow> nat \<Rightarrow> path \<Rightarrow> string list \<Rightarrow> bool \<Rightarrow> path option" where
  "walk fs n cur [] follow = Some cur"
| "walk fs n cur (c # cs) follow =
     (if \<not> searchable fs cur then None
      else if c = '''' \<or> c = ''.'' then walk fs n cur cs follow
      else if c = ''..'' then walk fs n (butlast cur) cs follow
      else case node_at fs (cur @ [c]) of
        None \<Rightarrow> None
      | Some (Link target) \<Rightarrow>
          if cs = [] \<and> \<not> follow then Some (cur @ [c])
          else (case n of
              0 \<Rightarrow> None
            | Suc m \<Rightarrow> walk fs m (start target cur) (Split_slash target @ cs) follow)
      | Some _ \<Rightarrow> walk fs n (cur @ [c]) cs follow)"

text \<open>The links the kernel follows in one path, and those \<open>EvalSymlinks\<close> follows.\<close>

definition MaxLinks :: nat where "MaxLinks = 40"
definition MaxEvalLinks :: nat where "MaxEvalLinks = 255"

definition Lstat :: "files \<Rightarrow> path \<Rightarrow> node option" where
  "Lstat fs p = (case walk fs MaxLinks [] p False of None \<Rightarrow> None | Some q \<Rightarrow> node_at fs q)"

text \<open>All bytes of the file at a real path.\<close>

definition contents :: "files \<Rightarrow> path \<Rightarrow> string option" where
  "contents fs q =
     (if fs_Denied fs q then None
      else case node_at fs q of Some (File b) \<Rightarrow> Some b | Some (Special b) \<Rightarrow> Some b | _ \<Rightarrow> None)"

definition ReadFile :: "files \<Rightarrow> path \<Rightarrow> string option" where
  "ReadFile fs p = (case walk fs MaxLinks [] p True of None \<Rightarrow> None | Some q \<Rightarrow> contents fs q)"

section \<open>The process\<close>

text \<open>
  \<open>os_Dir\<close> is the directory relative paths start from, \<open>os_Getwd\<close> what \<open>Getwd\<close> says about it; \<open>os_Windows\<close> is
  \<open>GOOS == "windows"\<close>.
\<close>

record os =
  os_Windows :: bool
  os_Dir :: path
  os_Getwd :: "path result"

text \<open>\<open>os.Open(s)\<close> and reading it whole, for a path as the operator wrote it.\<close>

definition ReadPath :: "os \<Rightarrow> files \<Rightarrow> string \<Rightarrow> string option" where
  "ReadPath os fs s =
     (if s = '''' then None
      else case walk fs MaxLinks (start s (os_Dir os)) (Split_slash s) True of
        None \<Rightarrow> None
      | Some q \<Rightarrow> contents fs q)"

text \<open>\<open>filepath.Clean\<close> of an absolute path, from the cleaned components \<open>acc\<close> on.\<close>

fun Clean_onto :: "path \<Rightarrow> string list \<Rightarrow> path" where
  "Clean_onto acc [] = acc"
| "Clean_onto acc (c # cs) =
     (if c = '''' \<or> c = ''.'' then Clean_onto acc cs
      else if c = ''..'' then Clean_onto (butlast acc) cs
      else Clean_onto (acc @ [c]) cs)"

definition Abs_path :: "os \<Rightarrow> string \<Rightarrow> path result" where
  "Abs_path os s =
     (if prefix ''/'' s then Inr (Clean_onto [] (Split_slash s))
      else bindR (os_Getwd os) (\<lambda>d. Inr (Clean_onto d (Split_slash s))))"

definition EvalSymlinks :: "files \<Rightarrow> path \<Rightarrow> path option" where
  "EvalSymlinks fs p = walk fs MaxEvalLinks [] p True"

text \<open>The text of an absolute path.\<close>

definition path_text :: "path \<Rightarrow> string" where
  "path_text p = (if p = [] then ''/'' else concat (map (\<lambda>c. ''/'' @ c) p))"

section \<open>Creating files\<close>

text \<open>
  \<open>OpenFile(..., O_CREATE|O_EXCL)\<close>, \<open>Write\<close>, \<open>Sync\<close>, \<open>Close\<close>: a file is created where nothing is, not even a
  link.  \<open>Torn n\<close>: an error on the way, after \<open>n\<close> bytes; the file stays.
\<close>

datatype disk = Written | Torn nat

definition create_in :: "files \<Rightarrow> path option \<Rightarrow> string \<Rightarrow> path option" where
  "create_in fs dir name =
     (case dir of
        None \<Rightarrow> None
      | Some d \<Rightarrow>
          if searchable fs d \<and> name \<notin> {'''', ''.'', ''..''} \<and> node_at fs (d @ [name]) = None
          then Some (d @ [name]) else None)"

definition write_new :: "files \<Rightarrow> path option \<Rightarrow> string \<Rightarrow> disk \<Rightarrow> error \<Rightarrow> unit result \<times> files" where
  "write_new fs created b ans err =
     (case created of
        None \<Rightarrow> (Inl err, fs)
      | Some q \<Rightarrow>
          (case ans of
             Written \<Rightarrow> (Inr (), put_node q (File b) fs)
           | Torn n \<Rightarrow> (Inl err, put_node q (File (take n b)) fs)))"

definition Create :: "files \<Rightarrow> path \<Rightarrow> path option" where
  "Create fs p = (if p = [] then None else create_in fs (walk fs MaxLinks [] (butlast p) True) (last p))"

definition CreatePath :: "os \<Rightarrow> files \<Rightarrow> string \<Rightarrow> path option" where
  "CreatePath os fs s =
     (let cs = Split_slash s in
      create_in fs (walk fs MaxLinks (start s (os_Dir os)) (butlast cs) True) (last cs))"

section \<open>Facts\<close>

lemma node_at_put [simp]: "p \<noteq> [] \<Longrightarrow> node_at (put_node p n fs) q = (if q = p then Some n else node_at fs q)"
  by (auto simp: node_at_def put_node_def)

lemma denied_put [simp]: "fs_Denied (put_node p n fs) = fs_Denied fs"
  by (simp add: put_node_def)

text \<open>A new node is in the way of no path that was resolved before.\<close>

lemma searchable_put: "p \<noteq> [] \<Longrightarrow> node_at fs p = None \<Longrightarrow> searchable fs d \<Longrightarrow> searchable (put_node p n fs) d"
  by (auto simp: searchable_def)

lemma walk_put:
  "p \<noteq> [] \<Longrightarrow> node_at fs p = None \<Longrightarrow> walk fs n cur cs follow = Some q \<Longrightarrow>
     walk (put_node p nd fs) n cur cs follow = Some q"
proof (induction fs n cur cs follow rule: walk.induct)
  case (2 fs n cur c cs follow)
  note fresh = \<open>p \<noteq> []\<close> \<open>node_at fs p = None\<close> and run = \<open>walk fs n cur (c # cs) follow = Some q\<close>
  from run have s: "searchable fs cur"
    by (auto split: if_splits)
  show ?case
  proof (cases "c = '''' \<or> c = ''.'' \<or> c = ''..''")
    case True
    then show ?thesis
      using 2 s searchable_put[of p fs cur nd] by auto
  next
    case False
    then obtain m where m: "node_at fs (cur @ [c]) = Some m"
      using run s by (auto split: option.splits)
    then have "node_at (put_node p nd fs) (cur @ [c]) = Some m"
      using fresh by auto
    then show ?thesis
      using 2 s searchable_put[of p fs cur nd] m False
      by (cases m) (auto split: if_splits nat.splits)
  qed
qed simp

text \<open>A component of a resolved directory.\<close>

lemma walk_snoc:
  "walk fs n cur cs True = Some d \<Longrightarrow> searchable fs d \<Longrightarrow> name \<notin> {'''', ''.'', ''..''} \<Longrightarrow>
     node_at fs (d @ [name]) = Some m \<Longrightarrow> \<forall>t. m \<noteq> Link t \<Longrightarrow> walk fs n cur (cs @ [name]) follow = Some (d @ [name])"
proof (induction fs n cur cs True rule: walk.induct)
  case (2 fs n cur c cs)
  then show ?case
    by (auto split: if_splits option.splits node.splits nat.splits)
qed (auto split: node.split)

lemma create_in_Some:
  "create_in fs dir name = Some q \<longleftrightarrow>
     (\<exists>d. dir = Some d \<and> searchable fs d \<and> name \<notin> {'''', ''.'', ''..''} \<and> node_at fs (d @ [name]) = None \<and> q = d @ [name])"
  by (auto simp: create_in_def split: option.splits)

lemma write_new_Inr:
  "write_new fs created b ans err = (Inr u, fs') \<longleftrightarrow>
     (\<exists>q. created = Some q \<and> ans = Written \<and> fs' = put_node q (File b) fs)"
  by (auto simp: write_new_def split: option.splits disk.splits)

text \<open>What was created is found, also through \<open>Lstat\<close>, with the bytes written.\<close>

lemma created_walk:
  assumes "walk fs n cur cs True = Some d" "create_in fs (Some d) name = Some q"
  shows "walk (put_node q (File b) fs) n cur (cs @ [name]) follow = Some q"
proof -
  note c = assms(2)[unfolded create_in_Some]
  then have q: "q = d @ [name]" "q \<noteq> []" "node_at fs q = None"
    by auto
  have "walk (put_node q (File b) fs) n cur cs True = Some d"
    using walk_put[OF q(2,3) assms(1)] .
  then show ?thesis
    unfolding q(1) by (rule walk_snoc[where m = "File b"])
      (use c q searchable_put[of q fs d] in auto)
qed

lemma Create_read:
  assumes "Create fs p = Some q"
  shows "Lstat (put_node q (File b) fs) p = Some (File b)"
    "\<not> fs_Denied fs q \<Longrightarrow> ReadFile (put_node q (File b) fs) p = Some b"
    "q \<noteq> []" "node_at fs q = None"
proof -
  from assms obtain d where p: "p \<noteq> []" and d: "walk fs MaxLinks [] (butlast p) True = Some d"
    "create_in fs (Some d) (last p) = Some q"
    by (auto simp: Create_def create_in_Some split: if_splits)
  from created_walk[OF d] p have "walk (put_node q (File b) fs) MaxLinks [] p follow = Some q" for follow
    by simp
  moreover show "q \<noteq> []" "node_at fs q = None"
    using d(2) by (auto simp: create_in_Some)
  ultimately show "Lstat (put_node q (File b) fs) p = Some (File b)"
    "\<not> fs_Denied fs q \<Longrightarrow> ReadFile (put_node q (File b) fs) p = Some b"
    by (simp_all add: Lstat_def ReadFile_def contents_def)
qed

text \<open>Where something is, no file is created.\<close>

lemma walk_last:
  "name \<notin> {'''', ''.'', ''..''} \<Longrightarrow> walk fs n cur (cs @ [name]) False =
     (case walk fs n cur cs True of
        None \<Rightarrow> None
      | Some d \<Rightarrow> if searchable fs d \<and> node_at fs (d @ [name]) \<noteq> None then Some (d @ [name]) else None)"
proof (induction fs n cur cs True rule: walk.induct)
  case (1 fs n cur)
  then show ?case
    by (auto split: option.split node.split)
next
  case (2 fs n cur c cs)
  then show ?case
    by (auto split: option.split node.split nat.split)
qed

lemma Lstat_snoc:
  "name \<notin> {'''', ''.'', ''..''} \<Longrightarrow> Lstat fs (p @ [name]) =
     (case walk fs MaxLinks [] p True of
        None \<Rightarrow> None
      | Some d \<Rightarrow> if searchable fs d then node_at fs (d @ [name]) else None)"
  by (simp add: Lstat_def walk_last split: option.split)

lemma Create_taken:
  assumes "Lstat fs p = Some m" "p \<noteq> []" "last p \<notin> {'''', ''.'', ''..''}"
  shows "Create fs p = None"
proof -
  have "Lstat fs p = (case walk fs MaxLinks [] (butlast p) True of
      None \<Rightarrow> None | Some d \<Rightarrow> if searchable fs d then node_at fs (d @ [last p]) else None)"
    using Lstat_snoc[OF assms(3), of fs "butlast p"] assms(2) by simp
  then show ?thesis
    using assms by (auto simp: Create_def create_in_def split: option.splits if_splits)
qed

text \<open>
  The contract of exclusive creation, which the receipts rest on: what was put is there, it is never
  replaced, and other names keep what they have.
\<close>

locale write_once =
  fixes name :: "'k \<Rightarrow> bool" and put :: "'s \<Rightarrow> 'k \<Rightarrow> 'v \<Rightarrow> 's option" and get :: "'s \<Rightarrow> 'k \<Rightarrow> 'w option" and as :: "'v \<Rightarrow> 'w"
  assumes put_get: "put s k v = Some s' \<Longrightarrow> get s' k = Some (as v)"
    and put_taken: "name k \<Longrightarrow> get s k = Some x \<Longrightarrow> put s k v = None"
    and put_other: "put s k v = Some s' \<Longrightarrow> get s k' = Some x \<Longrightarrow> get s' k' = Some x"
begin

text \<open>Any number of attempts to create, of which those that fail change nothing.\<close>

primrec attempts :: "('k \<times> 'v) list \<Rightarrow> 's \<Rightarrow> 's" where
  "attempts [] s = s"
| "attempts (p # ps) s = attempts ps (case put s (fst p) (snd p) of None \<Rightarrow> s | Some s' \<Rightarrow> s')"

lemma first_write_stays:
  assumes "put s k v = Some s'"
  shows "get (attempts ps s') k = Some (as v)"
proof -
  have "get t k = Some x \<Longrightarrow> get (attempts ps t) k = Some x" for t x
    by (induction ps arbitrary: t) (auto intro: put_other split: option.split)
  then show ?thesis
    using put_get[OF assms] by blast
qed

lemma second_write_fails:
  assumes "put s k v = Some s'" "name k"
  shows "put (attempts ps s') k v' = None"
  using put_taken[OF assms(2) first_write_stays[OF assms(1)]] .

end

definition file_name :: "path \<Rightarrow> bool" where
  "file_name p \<longleftrightarrow> p \<noteq> [] \<and> last p \<notin> {'''', ''.'', ''..''}"

definition put_file :: "files \<Rightarrow> path \<Rightarrow> string \<Rightarrow> files option" where
  "put_file fs p b = map_option (\<lambda>q. put_node q (File b) fs) (Create fs p)"

lemma Lstat_put: "p \<noteq> [] \<Longrightarrow> node_at fs p = None \<Longrightarrow> Lstat fs q = Some m \<Longrightarrow> Lstat (put_node p n fs) q = Some m"
  by (auto simp: Lstat_def walk_put split: option.splits)

interpretation disk: write_once file_name put_file Lstat File
proof unfold_locales
  show "Lstat fs' p = Some (File b)" if "put_file fs p b = Some fs'" for fs p b fs'
    using that Create_read(1) by (auto simp: put_file_def)
  show "put_file fs p b = None" if "file_name p" "Lstat fs p = Some n" for p fs n b
    using that Create_taken[OF that(2)] by (simp add: put_file_def file_name_def)
  show "Lstat fs' p' = Some n" if "put_file fs p b = Some fs'" "Lstat fs p' = Some n" for fs p b fs' p' n
    using that Lstat_put Create_read(3,4) by (auto simp: put_file_def)
qed

text \<open>A file below a real directory, reached through real directories only.\<close>

fun plain_file :: "files \<Rightarrow> path \<Rightarrow> string list \<Rightarrow> string \<Rightarrow> bool" where
  "plain_file fs d [] b = False"
| "plain_file fs d (x # xs) b =
     (searchable fs d \<and> x \<notin> {'''', ''.'', ''..''}
      \<and> (if xs = [] then node_at fs (d @ [x]) = Some (File b) else plain_file fs (d @ [x]) xs b))"

lemma plain_file_node: "plain_file fs d xs b \<Longrightarrow> node_at fs (d @ xs) = Some (File b)"
  by (induction fs d xs b rule: plain_file.induct) (auto split: if_splits)

lemma plain_file_walk:
  "plain_file fs d xs b \<Longrightarrow> walk fs n cur p True = Some d \<Longrightarrow> walk fs n cur (p @ xs) True = Some (d @ xs)"
proof (induction fs d xs b arbitrary: p rule: plain_file.induct)
  case (2 fs d x xs b)
  show ?case
  proof (cases "xs = []")
    case True
    then show ?thesis
      using 2 walk_snoc[of fs n cur p d x "File b"] by simp
  next
    case False
    then have "searchable fs (d @ [x])"
      using 2(2) by (cases xs) auto
    then have "walk fs n cur (p @ [x]) True = Some (d @ [x])"
      using 2 walk_snoc[of fs n cur p d x Dir] by (simp add: searchable_def)
    then show ?thesis
      using 2 False by fastforce
  qed
qed simp

end
