(* ===== verification/LocalSpec.thy ===== *)
theory LocalSpec
  imports Files Runner "HOL-Library.Multiset"
begin

text \<open>
  Package \<open>internal/localcheck\<close>, \<open>spec.go\<close>: the operator's profile of one local check, the pinning of the
  selected inputs and of the executable (\<open>Load\<close>, \<open>CheckInputs\<close>) and the preparation of a new profile
  (\<open>Prepare\<close>).  One call reads one state of the files.
\<close>

section \<open>Profiles (spec.go)\<close>

text \<open>\<open>sp_Arguments\<close> is None for a nil slice, which \<open>Marshal\<close> writes as \<open>null\<close>.\<close>

record Spec =
  sp_Version :: int
  sp_Label :: string
  sp_Arguments :: "string list option"
  sp_TimeoutSeconds :: int
  sp_MaxOutputBytes :: int
  sp_Inputs :: "(string, string) fmap"

record SpecConfig =
  sc_Spec :: Spec
  sc_Program :: path
  sc_Workspace :: path
  sc_Digest :: string
  sc_programSum :: string

definition KiB :: nat where "KiB = 1024"
definition MiB :: nat where "MiB = 1024 * 1024"

definition lower_hex :: "char \<Rightarrow> bool" where
  "lower_hex c \<longleftrightarrow> is_digit c \<or> 97 \<le> code c \<and> code c \<le> 102"

definition alphanumeric :: "char \<Rightarrow> bool" where
  "alphanumeric c \<longleftrightarrow> is_digit c \<or> 65 \<le> code c \<and> code c \<le> 90 \<or> 97 \<le> code c \<and> code c \<le> 122"

definition idPattern :: "string \<Rightarrow> bool" where
  "idPattern s \<longleftrightarrow> s \<noteq> [] \<and> alphanumeric (hd s) \<and> length (tl s) \<le> 63
     \<and> list_all (\<lambda>c. alphanumeric c \<or> c = CHR ''_'' \<or> c = CHR ''-'') (tl s)"

definition hashPattern :: "string \<Rightarrow> bool" where
  "hashPattern s \<longleftrightarrow> length s = 64 \<and> list_all lower_hex s"

text \<open>\<open>sum\<close>: the SHA-256 of the bytes in hexadecimal.\<close>

definition sum256 :: "string \<Rightarrow> string" where
  "sum256 b = sha256_hex b"

section \<open>Profiles as JSON\<close>

fun decode_slice :: "json \<Rightarrow> string list option \<Rightarrow> string list option option" where
  "decode_slice JNull a = Some None"
| "decode_slice (JArray vs) a = map_option Some (decode_elements vs)"
| "decode_slice _ a = None"

text \<open>A map takes the members of an object; \<open>null\<close> makes it nil, which holds no entry either.\<close>

fun decode_entries :: "(string \<times> json) list \<Rightarrow> (string, string) fmap \<Rightarrow> (string, string) fmap option" where
  "decode_entries [] m = Some m"
| "decode_entries ((raw, v) # ms) m =
     (case decode_string v [] of None \<Rightarrow> None | Some x \<Rightarrow> decode_entries ms (fmupd (unquote raw) x m))"

fun decode_map :: "json \<Rightarrow> (string, string) fmap \<Rightarrow> (string, string) fmap option" where
  "decode_map JNull m = Some fmempty"
| "decode_map (JObject ms) m = decode_entries ms m"
| "decode_map _ m = None"

definition spec_fields :: "Spec fields" where
  "spec_fields =
     [field ''version'' decode_int sp_Version sp_Version_update,
      field ''label'' decode_string sp_Label sp_Label_update,
      field ''arguments'' decode_slice sp_Arguments sp_Arguments_update,
      field ''timeout_seconds'' decode_int sp_TimeoutSeconds sp_TimeoutSeconds_update,
      field ''max_output_bytes'' decode_int sp_MaxOutputBytes sp_MaxOutputBytes_update,
      field ''inputs'' decode_map sp_Inputs sp_Inputs_update]"

definition zero_spec :: Spec where
  "zero_spec = \<lparr>sp_Version = 0, sp_Label = [], sp_Arguments = None, sp_TimeoutSeconds = 0, sp_MaxOutputBytes = 0,
     sp_Inputs = fmempty\<rparr>"

definition spec_json :: "Spec \<Rightarrow> json" where
  "spec_json s = JObject
     [(''version'', jint (sp_Version s)), (''label'', jstr (sp_Label s)),
      (''arguments'', case sp_Arguments s of None \<Rightarrow> JNull | Some xs \<Rightarrow> JArray (map jstr xs)),
      (''timeout_seconds'', jint (sp_TimeoutSeconds s)), (''max_output_bytes'', jint (sp_MaxOutputBytes s)),
      (''inputs'', JObject (map (\<lambda>(k, v). (escape k, jstr v)) (go_range (sp_Inputs s))))]"

text \<open>\<open>decode\<close>: one value that fits the struct, no unknown field, and nothing after it.\<close>

definition decode_strict :: "'a fields \<Rightarrow> 'a \<Rightarrow> string \<Rightarrow> 'a result" where
  "decode_strict fs zero b =
     (case lex b of None \<Rightarrow> Inl ErrConfig | Some ls \<Rightarrow>
      case parse_value (length ls) ls of None \<Rightarrow> Inl ErrConfig | Some (v, rest) \<Rightarrow>
      case decode_struct fs v zero of None \<Rightarrow> Inl ErrConfig | Some x \<Rightarrow>
      if rest \<noteq> [] then Inl ErrConfig else Inr x)"

text \<open>\<open>json.MarshalIndent(v, "", "  ")\<close>.\<close>

definition newline :: "nat \<Rightarrow> string" where
  "newline d = CHR 0x0A # replicate (2 * d) (CHR '' '')"

fun indent :: "nat \<Rightarrow> json \<Rightarrow> string"
and indent_elements :: "nat \<Rightarrow> json list \<Rightarrow> string"
and indent_members :: "nat \<Rightarrow> (string \<times> json) list \<Rightarrow> string" where
  "indent d (JArray vs) =
     (if vs = [] then ''[]'' else ''['' @ newline (Suc d) @ indent_elements (Suc d) vs @ newline d @ '']'')"
| "indent d (JObject ms) =
     (if ms = [] then ''{}'' else ''{'' @ newline (Suc d) @ indent_members (Suc d) ms @ newline d @ ''}'')"
| "indent d v = json_text v"
| "indent_elements d [] = []"
| "indent_elements d (v # vs) = indent d v @ (if vs = [] then [] else '','' @ newline d @ indent_elements d vs)"
| "indent_members d [] = []"
| "indent_members d ((k, v) # ms) = lexeme_text (LString k) @ '': '' @ indent d v
     @ (if ms = [] then [] else '','' @ newline d @ indent_members d ms)"

section \<open>Reading the inputs (spec.go)\<close>

text \<open>\<open>regular\<close>, with the bytes of the file in place of its \<open>FileInfo\<close>.\<close>

definition regular :: "files \<Rightarrow> path \<Rightarrow> string result" where
  "regular fs p = (case Lstat fs p of Some (File b) \<Rightarrow> Inr b | _ \<Rightarrow> Inl ErrConfig)"

fun is_link :: "node \<Rightarrow> bool" where
  "is_link (Link _) = True"
| "is_link _ = False"

text \<open>A regular file of at most that many bytes.\<close>

fun regular_upto :: "nat \<Rightarrow> node \<Rightarrow> bool" where
  "regular_upto n (File b) = (length b \<le> n)"
| "regular_upto n _ = False"

fun read_parts :: "files \<Rightarrow> path \<Rightarrow> string list \<Rightarrow> path result" where
  "read_parts fs path [] = Inr path"
| "read_parts fs path (part # parts) =
     (if part = '''' \<or> part = ''.'' \<or> part = ''..'' then Inl ErrInputs
      else let path' = path @ [part] in
        case Lstat fs path' of
          None \<Rightarrow> Inl ErrInputs
        | Some s \<Rightarrow>
            if is_link s \<or> (parts \<noteq> [] \<and> s \<noteq> Dir) \<or> (parts = [] \<and> \<not> regular_upto (4 * MiB) s)
            then Inl ErrInputs else read_parts fs path' parts)"

definition readInput :: "files \<Rightarrow> path \<Rightarrow> string \<Rightarrow> string result" where
  "readInput fs root rel =
     (if rel = '''' \<or> backslash \<in> set rel \<or> CHR '':'' \<in> set rel \<or> prefix ''/'' rel \<or> CHR 0x00 \<in> set rel
      then Inl ErrInputs
      else bindR (read_parts fs root (Split_slash rel)) (\<lambda>path.
        case ReadFile fs path of
          None \<Rightarrow> Inl ErrInputs
        | Some data \<Rightarrow>
            let b = take (4 * MiB + 1) data in
            if length b > 4 * MiB then Inl ErrInputs else Inr b))"

text \<open>The loop of \<open>CheckInputs\<close> over the entries, in some order.\<close>

fun check_entries :: "files \<Rightarrow> path \<Rightarrow> (string \<times> string) list \<Rightarrow> nat \<Rightarrow> unit result" where
  "check_entries fs root [] sz = Inr ()"
| "check_entries fs root ((rel, expected) # rest) sz =
     (case readInput fs root rel of
        Inl _ \<Rightarrow> Inl ErrInputs
      | Inr b \<Rightarrow>
          if sum256 b \<noteq> expected then Inl ErrInputs
          else if sz + length b > 16 * MiB then Inl ErrInputs
          else check_entries fs root rest (sz + length b))"

definition CheckInputs :: "files \<Rightarrow> SpecConfig \<Rightarrow> unit result" where
  "CheckInputs fs c = check_entries fs (sc_Workspace c) (go_range (sp_Inputs (sc_Spec c))) 0"

section \<open>Loading a profile (spec.go)\<close>

fun check_args :: "string list \<Rightarrow> nat \<Rightarrow> bool" where
  "check_args [] sz = (sz \<le> 16 * KiB)"
| "check_args (arg # args) sz =
     (length arg \<le> 4096 \<and> CHR 0x00 \<notin> set arg \<and> check_args args (sz + length arg))"

definition spec_args :: "Spec \<Rightarrow> string list" where
  "spec_args s = (case sp_Arguments s of None \<Rightarrow> [] | Some xs \<Rightarrow> xs)"

definition check_spec :: "Spec \<Rightarrow> bool" where
  "check_spec s \<longleftrightarrow> sp_Version s = 1 \<and> idPattern (sp_Label s)
     \<and> 1 \<le> sp_TimeoutSeconds s \<and> sp_TimeoutSeconds s \<le> 300
     \<and> 1 \<le> sp_MaxOutputBytes s \<and> sp_MaxOutputBytes s \<le> int (64 * KiB)
     \<and> length (spec_args s) \<le> 64 \<and> 1 \<le> length (go_range (sp_Inputs s)) \<and> length (go_range (sp_Inputs s)) \<le> 128
     \<and> check_args (spec_args s) 0 \<and> list_all hashPattern (go_values (sp_Inputs s))"

text \<open>The real directory and the real program the two arguments name.\<close>

definition locate :: "os \<Rightarrow> files \<Rightarrow> string \<Rightarrow> string \<Rightarrow> (path \<times> path) option" where
  "locate os fs program workspace =
     (case (Abs_path os program, Abs_path os workspace) of
        (Inr p, Inr w) \<Rightarrow>
          (case (EvalSymlinks fs w, EvalSymlinks fs p) of
             (Some w', Some p') \<Rightarrow> Some (p', if os_Windows os then map ToLower w' else w')
           | _ \<Rightarrow> None)
      | _ \<Rightarrow> None)"

definition config_digest :: "Spec \<Rightarrow> string \<Rightarrow> path \<Rightarrow> path \<Rightarrow> string" where
  "config_digest s programSum workspace program =
     sum256 (json_text (spec_json s) @ [CHR 0x00] @ programSum @ [CHR 0x00] @ path_text workspace
       @ [CHR 0x00] @ path_text program)"

text \<open>
  \<open>Load\<close>.  \<open>Inl\<close>: an error with a configuration nobody uses; \<open>Inr\<close>: the configuration, with the result of
  \<open>CheckInputs\<close> as the error.
\<close>

definition Load :: "os \<Rightarrow> files \<Rightarrow> string \<Rightarrow> string \<Rightarrow> string \<Rightarrow> (SpecConfig \<times> unit result) result" where
  "Load os fs specPath program workspace =
     (case ReadPath os fs specPath of None \<Rightarrow> Inl ErrConfig | Some data \<Rightarrow>
      let b = take (64 * KiB + 1) data in
      if length b > 64 * KiB then Inl ErrConfig else
      bindR (decode_strict spec_fields zero_spec b) (\<lambda>s.
      if \<not> check_spec s then Inl ErrConfig else
      case locate os fs program workspace of None \<Rightarrow> Inl ErrConfig | Some (prog, ws) \<Rightarrow>
      if Lstat fs ws \<noteq> Some Dir then Inl ErrConfig else
      bindR (regular fs prog) (\<lambda>info.
      if length info > 256 * MiB then Inl ErrConfig else
      case ReadFile fs prog of None \<Rightarrow> Inl ErrConfig | Some exe \<Rightarrow>
      let c = \<lparr>sc_Spec = s, sc_Program = prog, sc_Workspace = ws,
           sc_Digest = config_digest s (sum256 exe) ws prog, sc_programSum = sum256 exe\<rparr>
      in Inr (c, CheckInputs fs c))))"

definition config_duration :: "SpecConfig \<Rightarrow> duration" where
  "config_duration c = sp_TimeoutSeconds (sc_Spec c) * Second"

text \<open>\<open>clone\<close>: the same values in a slice and a map of its own; a nil slice becomes an empty one.\<close>

definition config_clone :: "SpecConfig \<Rightarrow> SpecConfig" where
  "config_clone c = c\<lparr>sc_Spec := (sc_Spec c)\<lparr>sp_Arguments := Some (spec_args (sc_Spec c)),
     sp_Inputs := fmap_of_list (go_range (sp_Inputs (sc_Spec c)))\<rparr>\<rparr>"

definition validDigest :: "string \<Rightarrow> bool" where
  "validDigest v \<longleftrightarrow> hex_decodes v \<and> length v = 64"

section \<open>Preparing a profile (spec.go)\<close>

text \<open>\<open>bytes.ReplaceAll(b, "\r\n", "\n")\<close>.\<close>

fun crlf_to_lf :: "string \<Rightarrow> string" where
  "crlf_to_lf (c # d # s) =
     (if c = CHR 0x0D \<and> d = CHR 0x0A then CHR 0x0A # crlf_to_lf s else c # crlf_to_lf (d # s))"
| "crlf_to_lf s = s"

fun prepare_entries :: "files \<Rightarrow> path \<Rightarrow> (string \<times> string) list \<Rightarrow> nat \<Rightarrow> (string, string) fmap \<Rightarrow> (string, string) fmap result" where
  "prepare_entries fs root [] sz inputs = Inr inputs"
| "prepare_entries fs root ((rel, expected) # rest) sz inputs =
     bindR (readInput fs root rel) (\<lambda>b.
       if sz + length b > 16 * MiB \<or> (sum256 b \<noteq> expected \<and> sum256 (crlf_to_lf b) \<noteq> expected)
       then Inl ErrInputs
       else prepare_entries fs root rest (sz + length b) (fmupd rel (sum256 b) inputs))"

definition Prepare :: "os \<Rightarrow> files \<Rightarrow> string \<Rightarrow> string \<Rightarrow> string \<Rightarrow> string \<Rightarrow> disk \<Rightarrow> unit result \<times> files" where
  "Prepare os fs specPath program workspace output ans =
     (case Load os fs specPath program workspace of
        Inl err \<Rightarrow> (Inl err, fs)
      | Inr (c, _) \<Rightarrow>
          (case prepare_entries fs (sc_Workspace c) (go_range (sp_Inputs (sc_Spec c))) 0 (sp_Inputs (sc_Spec c)) of
             Inl err \<Rightarrow> (Inl err, fs)
           | Inr inputs \<Rightarrow>
               let b = indent 0 (spec_json ((sc_Spec c)\<lparr>sp_Inputs := inputs\<rparr>)) in
               if length b + 1 > 64 * KiB then (Inl ErrConfig, fs)
               else write_new fs (CreatePath os fs output) (b @ [CHR 0x0A]) ans ErrConfig))"


section \<open>What an input is\<close>

text \<open>
  The specification of \<open>readInput\<close>: a relative name without special characters and components, and below
  the real workspace a regular file, reached without any link, of at most 4 MiB.
\<close>

definition plain_rel :: "string \<Rightarrow> bool" where
  "plain_rel rel \<longleftrightarrow> rel \<noteq> '''' \<and> backslash \<notin> set rel \<and> CHR '':'' \<notin> set rel \<and> \<not> prefix ''/'' rel \<and> CHR 0x00 \<notin> set rel"

definition input_file :: "files \<Rightarrow> path \<Rightarrow> string \<Rightarrow> string \<Rightarrow> bool" where
  "input_file fs root rel b \<longleftrightarrow> plain_rel rel \<and> length b \<le> 4 * MiB
     \<and> (\<exists>d. walk fs MaxLinks [] root True = Some d \<and> plain_file fs d (Split_slash rel) b
          \<and> \<not> fs_Denied fs (d @ Split_slash rel))"

lemma regular_upto_iff: "regular_upto n s \<longleftrightarrow> (\<exists>b. s = File b \<and> length b \<le> n)"
  by (cases s) auto

lemma is_link_iff: "is_link s \<longleftrightarrow> (\<exists>t. s = Link t)"
  by (cases s) auto

lemma read_parts_Inr:
  assumes "parts \<noteq> []"
  shows "read_parts fs path parts = Inr p \<longleftrightarrow> p = path @ parts
     \<and> (\<exists>d b. walk fs MaxLinks [] path True = Some d \<and> plain_file fs d parts b \<and> length b \<le> 4 * MiB)"
  using assms
proof (induction fs path parts rule: read_parts.induct)
  case (2 fs path x parts)
  show ?case
  proof (cases "x \<in> {'''', ''.'', ''..''}")
    case False
    note lst = Lstat_snoc[OF False, of fs path]
    show ?thesis
    proof (cases "walk fs MaxLinks [] path True")
      case (Some d)
      show ?thesis
      proof (cases "parts = []")
        case True
        then show ?thesis
          using False lst Some by (auto simp: regular_upto_iff is_link_iff split: option.split)
      next
        case more: False
        have step: "walk fs MaxLinks [] (path @ [x]) True = Some (d @ [x])"
          if "searchable fs d" "node_at fs (d @ [x]) = Some Dir"
          using walk_snoc[OF Some that(1) False that(2)] by simp
        then show ?thesis
          using False lst Some more 2
          by (cases parts) (auto simp: searchable_def is_link_iff split: option.split)
      qed
    qed (use False lst in simp)
  qed auto
qed simp

lemma plain_file_unique: "plain_file fs d xs b \<Longrightarrow> plain_file fs d xs b' \<longleftrightarrow> b' = b"
  using plain_file_node[of fs d xs b] plain_file_node[of fs d xs b'] by auto

lemma readInput_Inr: "readInput fs root rel = Inr b \<longleftrightarrow> input_file fs root rel b"
proof (cases "plain_rel rel")
  case True
  have ne: "Split_slash rel \<noteq> []"
    by (cases rel) (auto split: list.split)
  have rd: "readInput fs root rel = bindR (read_parts fs root (Split_slash rel)) (\<lambda>path.
      case ReadFile fs path of None \<Rightarrow> Inl ErrInputs
      | Some data \<Rightarrow> let b = take (4 * MiB + 1) data in if length b > 4 * MiB then Inl ErrInputs else Inr b)"
    using True by (simp add: readInput_def plain_rel_def)
  show ?thesis
  proof (cases "\<exists>d b. walk fs MaxLinks [] root True = Some d \<and> plain_file fs d (Split_slash rel) b \<and> length b \<le> 4 * MiB")
    case there: True
    then obtain d x where x: "walk fs MaxLinks [] root True = Some d" "plain_file fs d (Split_slash rel) x" "length x \<le> 4 * MiB"
      by blast
    then have "read_parts fs root (Split_slash rel) = Inr (root @ Split_slash rel)"
      unfolding read_parts_Inr[OF ne] by blast
    moreover have "ReadFile fs (root @ Split_slash rel) = (if fs_Denied fs (d @ Split_slash rel) then None else Some x)"
      using plain_file_walk[OF x(2,1)] plain_file_node[OF x(2)] by (simp add: ReadFile_def contents_def)
    moreover have "input_file fs root rel b \<longleftrightarrow> b = x \<and> \<not> fs_Denied fs (d @ Split_slash rel)"
      using True x plain_file_unique[OF x(2)] by (auto simp: input_file_def)
    ultimately show ?thesis
      using x(3) unfolding rd by auto
  next
    case False
    then have "\<not> input_file fs root rel b"
      by (auto simp: input_file_def)
    moreover from False have "read_parts fs root (Split_slash rel) \<noteq> Inr p" for p
      unfolding read_parts_Inr[OF ne] by blast
    ultimately show ?thesis
      unfolding rd by (simp add: bindR_def split: sum.split)
  qed
qed (auto simp: readInput_def plain_rel_def input_file_def)

lemma readInput_Inl: "readInput fs root rel = Inl e \<Longrightarrow> e = ErrInputs"
proof -
  have "read_parts fs p xs = Inl e \<Longrightarrow> e = ErrInputs" for p xs
    by (induction fs p xs rule: read_parts.induct) (auto simp: Let_def split: if_splits option.splits)
  then show "readInput fs root rel = Inl e \<Longrightarrow> e = ErrInputs"
    by (auto simp: readInput_def bindR_def Let_def split: if_splits option.splits sum.splits)
qed

definition matching :: "files \<Rightarrow> path \<Rightarrow> string \<times> string \<Rightarrow> string \<Rightarrow> bool" where
  "matching fs root e b \<longleftrightarrow> input_file fs root (fst e) b \<and> sum256 b = snd e"

lemma check_entries_Inr:
  "sz \<le> 16 * MiB \<Longrightarrow> check_entries fs root es sz = Inr () \<longleftrightarrow>
     (\<exists>bs. list_all2 (matching fs root) es bs \<and> sz + sum_list (map length bs) \<le> 16 * MiB)"
proof (induction es arbitrary: sz)
  case (Cons e es)
  obtain rel h where e: "e = (rel, h)"
    by fastforce
  show ?case
  proof (cases "readInput fs root rel")
    case (Inl err)
    then have "\<not> matching fs root e b" for b
      using readInput_Inr[of fs root rel b] by (simp add: matching_def e)
    then show ?thesis
      using Inl by (simp add: e list_all2_Cons1)
  next
    case (Inr x)
    then have m: "matching fs root e b \<longleftrightarrow> b = x \<and> sum256 x = h" for b
      using readInput_Inr[of fs root rel b] by (auto simp: matching_def e)
    have "(\<exists>bs. list_all2 (matching fs root) (e # es) bs \<and> sz + sum_list (map length bs) \<le> 16 * MiB) \<longleftrightarrow>
        sum256 x = h \<and> (\<exists>zs. list_all2 (matching fs root) es zs \<and> sz + length x + sum_list (map length zs) \<le> 16 * MiB)"
      (is "?l \<longleftrightarrow> ?r")
    proof
      assume ?l
      then obtain b zs where "matching fs root e b" "list_all2 (matching fs root) es zs"
        "sz + sum_list (map length (b # zs)) \<le> 16 * MiB"
        unfolding list_all2_Cons1 by blast
      then show ?r
        using m by (auto simp: add.assoc)
    next
      assume ?r
      then obtain zs where "matching fs root e x" "list_all2 (matching fs root) es zs"
        "sz + sum_list (map length (x # zs)) \<le> 16 * MiB"
        using m by (auto simp: add.assoc)
      then show ?l
        unfolding list_all2_Cons1 by blast
    qed
    moreover have "check_entries fs root (e # es) sz = Inr () \<longleftrightarrow>
        sum256 x = h \<and> sz + length x \<le> 16 * MiB \<and> check_entries fs root es (sz + length x) = Inr ()"
      using Inr by (simp add: e)
    moreover note Cons.IH[of "sz + length x"]
    ultimately show ?thesis
      using add_leD1 by blast
  qed
qed simp

lemma check_entries_Inl: "check_entries fs root es sz = Inl e \<Longrightarrow> e = ErrInputs"
  by (induction es arbitrary: sz) (auto split: sum.splits if_splits)

text \<open>The order of the entries does not matter.\<close>

lemma check_entries_order:
  assumes "mset es' = mset es"
  shows "check_entries fs root es' 0 = check_entries fs root es 0"
proof -
  have half: "check_entries fs root xs 0 = Inr () \<Longrightarrow> check_entries fs root ys 0 = Inr ()" if "mset ys = mset xs" for xs ys
  proof -
    note eq = that
    assume "check_entries fs root xs 0 = Inr ()"
    then obtain bs where bs: "list_all2 (matching fs root) xs bs" "sum_list (map length bs) \<le> 16 * MiB"
      using check_entries_Inr[of 0 fs root xs] by auto
    obtain bs' where bs': "list_all2 (matching fs root) ys bs'" "mset bs' = mset bs"
      using list_all2_reorder_left_invariance[OF bs(1) eq] by blast
    have "sum_list (map length bs') = sum_list (map length bs)"
      using bs'(2) by (metis mset_map sum_mset_sum_list)
    then show ?thesis
      using bs(2) bs'(1) check_entries_Inr[of 0 fs root ys] by auto
  qed
  show ?thesis
    using half[OF assms] half[OF assms[symmetric]] check_entries_Inl[of fs root es' 0] check_entries_Inl[of fs root es 0]
    by (cases "check_entries fs root es' 0"; cases "check_entries fs root es 0") auto
qed

end
