(* ===== verification/LocalWorker.thy ===== *)
theory LocalWorker
  imports LocalSpec
begin

text \<open>
  Package \<open>internal/localcheck\<close>, \<open>worker.go\<close>: the worker that runs the operator's program once and makes a
  receipt of how it ended.  What the operating system does to the child is the \<open>command\<close>, for which
  every theorem is quantified.
\<close>

section \<open>Receipts (worker.go)\<close>

text \<open>A \<open>time.Time\<close> that was read from a text keeps the offset it was written with, in seconds east.\<close>

record stamp =
  st_Time :: go_time
  st_Zone :: int

definition zone_text :: "int \<Rightarrow> string" where
  "zone_text z = (if z < 0 then ''-'' else ''+'') @ digits 2 (nat \<bar>z\<bar> div 3600) @ '':'' @ digits 2 (nat \<bar>z\<bar> div 60 mod 60)"

definition stamp_text :: "stamp \<Rightarrow> string" where
  "stamp_text s =
     (if st_Zone s = 0 then time_text (st_Time s)
      else butlast (time_text (st_Time s + st_Zone s * Second)) @ zone_text (st_Zone s))"

definition stamp_range :: "stamp \<Rightarrow> bool" where
  "stamp_range s \<longleftrightarrow> time_range (st_Time s + st_Zone s * Second)"

definition zone_of :: "string \<Rightarrow> int" where
  "zone_of raw = (case parse_zone (snd (parse_fraction (drop 19 raw))) of Some z \<Rightarrow> z | None \<Rightarrow> 0)"

fun decode_stamp :: "json \<Rightarrow> stamp \<Rightarrow> stamp option" where
  "decode_stamp JNull a = Some a"
| "decode_stamp (JString raw) a = map_option (\<lambda>t. \<lparr>st_Time = t, st_Zone = zone_of raw\<rparr>) (parse_time raw)"
| "decode_stamp _ a = None"

definition workerActor :: ActorID where "workerActor = ''local-check-executor''"
definition controllerActor :: ActorID where "controllerActor = ''local-check-controller''"

record Receipt =
  rc_Version :: int
  rc_Task :: TaskID
  rc_Operation :: OperationID
  rc_Attempt :: AttemptID
  rc_Lease :: LeaseID
  rc_Generation :: uint64
  rc_Config :: string
  rc_ExitCode :: int
  rc_OutputBytes :: int
  rc_OutputHash :: string
  rc_InputsMatch :: bool
  rc_Finished :: stamp

definition receipt_json :: "Receipt \<Rightarrow> json" where
  "receipt_json r = JObject
     [(''version'', jint (rc_Version r)), (''task'', jstr (rc_Task r)), (''operation'', jstr (rc_Operation r)),
      (''attempt'', jstr (rc_Attempt r)), (''lease'', jstr (rc_Lease r)), (''generation'', juint (rc_Generation r)),
      (''config_digest'', jstr (rc_Config r)), (''exit_code'', jint (rc_ExitCode r)),
      (''output_bytes'', jint (rc_OutputBytes r)), (''output_sha256'', jstr (rc_OutputHash r)),
      (''inputs_match'', JBool (rc_InputsMatch r)), (''finished'', JString (stamp_text (rc_Finished r)))]"

text \<open>\<open>json.Marshal(r)\<close>; the text of a receipt that cannot be marshalled is empty.\<close>

definition marshal_receipt :: "Receipt \<Rightarrow> string result" where
  "marshal_receipt r =
     (if stamp_range (rc_Finished r) then Inr (json_text (receipt_json r))
      else Inl (ErrText ''Time.MarshalJSON: year outside of range [0,9999]''))"

definition receipt_bytes :: "Receipt \<Rightarrow> string" where
  "receipt_bytes r = (case marshal_receipt r of Inr b \<Rightarrow> b | Inl _ \<Rightarrow> [])"

definition receipt_fields :: "Receipt fields" where
  "receipt_fields =
     [field ''version'' decode_int rc_Version rc_Version_update,
      field ''task'' decode_string rc_Task rc_Task_update,
      field ''operation'' decode_string rc_Operation rc_Operation_update,
      field ''attempt'' decode_string rc_Attempt rc_Attempt_update,
      field ''lease'' decode_string rc_Lease rc_Lease_update,
      field ''generation'' decode_uint64 rc_Generation rc_Generation_update,
      field ''config_digest'' decode_string rc_Config rc_Config_update,
      field ''exit_code'' decode_int rc_ExitCode rc_ExitCode_update,
      field ''output_bytes'' decode_int rc_OutputBytes rc_OutputBytes_update,
      field ''output_sha256'' decode_string rc_OutputHash rc_OutputHash_update,
      field ''inputs_match'' decode_bool rc_InputsMatch rc_InputsMatch_update,
      field ''finished'' decode_stamp rc_Finished rc_Finished_update]"

definition zero_receipt :: Receipt where
  "zero_receipt = \<lparr>rc_Version = 0, rc_Task = [], rc_Operation = [], rc_Attempt = [], rc_Lease = [], rc_Generation = 0,
     rc_Config = [], rc_ExitCode = 0, rc_OutputBytes = 0, rc_OutputHash = [], rc_InputsMatch = False,
     rc_Finished = \<lparr>st_Time = zero_time, st_Zone = 0\<rparr>\<rparr>"

section \<open>The output (worker.go)\<close>

record boundedOutput =
  bo_data :: string
  bo_limit :: int
  bo_over :: bool

text \<open>\<open>Write\<close>: what it returns, and whether it calls \<open>cancel\<close>.\<close>

definition output_Write :: "string \<Rightarrow> boundedOutput \<Rightarrow> (int \<times> bool) \<times> boundedOutput" where
  "output_Write p b =
     (if bo_over b then ((int (length p), False), b)
      else if int (length p) > bo_limit b - int (length (bo_data b))
        then ((int (length p), True), b\<lparr>bo_over := True\<rparr>)
      else ((int (length p), False), b\<lparr>bo_data := bo_data b @ p\<rparr>))"

definition output_after :: "string list \<Rightarrow> int \<Rightarrow> boundedOutput" where
  "output_after chunks limit =
     fold (\<lambda>p b. snd (output_Write p b)) chunks \<lparr>bo_data = [], bo_limit = limit, bo_over = False\<rparr>"

section \<open>The worker (worker.go)\<close>

definition command_Capabilities :: "SpecConfig \<Rightarrow> Capabilities" where
  "command_Capabilities c = \<lparr>cap_Version = Version, cap_Worker = workerActor, cap_Provider = ''local.command'',
     cap_Models = [''process-v1''], cap_Actions = [''project.check''], cap_Effects = [EffectMutation],
     cap_DataClasses = [''local-project''], cap_External = False,
     cap_Limits = \<lparr>lim_Duration = config_duration c, lim_InputBytes = 64, lim_OutputBytes = 4096, lim_Units = 1\<rparr>\<rparr>"

definition command_Accept :: "SpecConfig \<Rightarrow> Job \<Rightarrow> unit result" where
  "command_Accept c j =
     (if job_Worker j \<noteq> workerActor \<or> od_Name (job_Descriptor j) \<noteq> ''project.check''
         \<or> od_EffectClass (job_Descriptor j) \<noteq> EffectMutation \<or> rq_Provider (job_Request j) \<noteq> ''local.command''
         \<or> rq_Model (job_Request j) \<noteq> ''process-v1'' \<or> rq_Input (job_Request j) \<noteq> sc_Digest c
         \<or> rq_DataClass (job_Request j) \<noteq> ''local-project''
      then Inl ErrDenied else Inr ())"

text \<open>\<open>commandEnv\<close>, with what \<open>LookupEnv\<close> answers.\<close>

definition commandEnv :: "os \<Rightarrow> (string \<Rightarrow> string option) \<Rightarrow> string list" where
  "commandEnv os env =
     concat (map (\<lambda>k. case env k of None \<Rightarrow> [] | Some v \<Rightarrow> [k @ ''='' @ v])
       ([''SYSTEMROOT'', ''WINDIR'', ''TEMP'', ''TMP'', ''PATH''] @ (if os_Windows os then [''USERPROFILE''] else [])))
     @ [''PYTHONDONTWRITEBYTECODE=1'', ''PYTHONUTF8=1'', ''PYTHONIOENCODING=utf-8'']"

text \<open>
  What happens to one run: the files it finds; whether the child starts; what the child has written when
  either \<open>Wait\<close> returns, with no error, an \<open>ExitError\<close> or another one, or the context is done first; then
  the answers of \<open>ctx.Err()\<close> and \<open>ExitCode()\<close>; the files it leaves; and the clock.
\<close>

datatype ended = Waited | WaitedExit | WaitFailed | ContextDone error

record command =
  cm_Before :: files
  cm_Start :: "error option"
  cm_Chunks :: "string list"
  cm_Ended :: ended
  cm_CtxErr :: "error option"
  cm_ExitCode :: int
  cm_After :: files
  cm_Finished :: go_time

definition make_receipt :: "command \<Rightarrow> SpecConfig \<Rightarrow> Job \<Rightarrow> string \<Rightarrow> Receipt" where
  "make_receipt m c j output = \<lparr>rc_Version = 1, rc_Task = od_TaskID (job_Descriptor j),
     rc_Operation = od_ID (job_Descriptor j), rc_Attempt = rq_AttemptID (job_Request j),
     rc_Lease = rq_LeaseID (job_Request j), rc_Generation = job_Generation j, rc_Config = sc_Digest c,
     rc_ExitCode = cm_ExitCode m, rc_OutputBytes = int (length output), rc_OutputHash = sum256 output,
     rc_InputsMatch = (CheckInputs (cm_After m) c = Inr ()),
     rc_Finished = \<lparr>st_Time = time_UTC (cm_Finished m), st_Zone = 0\<rparr>\<rparr>"

text \<open>\<open>Run\<close> after its heartbeat was accepted: what it returns, and what it leaves in \<open>receipt\<close> and \<open>output\<close>.\<close>

definition command_end :: "command \<Rightarrow> SpecConfig \<Rightarrow> Job \<Rightarrow> Claim result \<times> (Receipt \<times> string) option" where
  "command_end m c j =
     (if cm_Start m \<noteq> None then (Inl ErrUnavailable, None) else
      case cm_Ended m of
        ContextDone err \<Rightarrow> (Inl err, None)
      | ended \<Rightarrow>
          let sink = output_after (cm_Chunks m) (sp_MaxOutputBytes (sc_Spec c)) in
          if bo_over sink then (Inl ErrLimit, None)
          else (case cm_CtxErr m of
            Some err \<Rightarrow> (Inl err, None)
          | None \<Rightarrow>
              if ended = WaitFailed then (Inl ErrProvider, None)
              else if cm_ExitCode m < 0 then (Inl ErrProvider, None)
              else let r = make_receipt m c j (bo_data sink) in
                (map_sum id (\<lambda>claim. \<lparr>cl_Output = claim, cl_Units = 1\<rparr>) (marshal_receipt r), Some (r, bo_data sink))))"

definition command_Run :: "command \<Rightarrow> SpecConfig \<Rightarrow> Job \<Rightarrow> script" where
  "command_Run m c j =
     (case command_Accept c j of Inl err \<Rightarrow> Returns (Inl err) | Inr _ \<Rightarrow>
      case CheckInputs (cm_Before m) c of Inl err \<Rightarrow> Returns (Inl err) | Inr _ \<Rightarrow>
      case regular (cm_Before m) (sc_Program c) of Inl _ \<Rightarrow> Returns (Inl ErrUnavailable) | Inr _ \<Rightarrow>
      case ReadFile (cm_Before m) (sc_Program c) of None \<Rightarrow> Returns (Inl ErrUnavailable) | Some b \<Rightarrow>
      if sum256 b \<noteq> sc_programSum c then Returns (Inl ErrUnavailable)
      else Heartbeat (\<lambda>beat. case beat of
          Inl err \<Rightarrow> Returns (Inl err)
        | Inr _ \<Rightarrow> Returns (fst (command_end m c j))))"

definition command_Worker :: "command \<Rightarrow> SpecConfig \<Rightarrow> Worker" where
  "command_Worker m c = \<lparr>wk_Capabilities = command_Capabilities c, wk_Accept = command_Accept c, wk_Run = command_Run m c\<rparr>"

section \<open>The output is bounded\<close>

text \<open>Nothing is lost unless more than the limit was written; then nothing counts.\<close>

lemma output_after_over:
  assumes "0 \<le> limit"
  shows "bo_over (output_after chunks limit) \<longleftrightarrow> int (length (concat chunks)) > limit"
    "\<not> bo_over (output_after chunks limit) \<Longrightarrow> bo_data (output_after chunks limit) = concat chunks"
proof -
  define step where "step = (\<lambda>p b. snd (output_Write p b))"
  have over: "bo_over b \<Longrightarrow> fold step ps b = b" for ps b
    by (induction ps) (simp_all add: step_def output_Write_def)
  have main: "int (length d) \<le> limit \<Longrightarrow> (bo_over (fold step ps \<lparr>bo_data = d, bo_limit = limit, bo_over = False\<rparr>)
        \<longleftrightarrow> int (length (d @ concat ps)) > limit)
      \<and> (\<not> bo_over (fold step ps \<lparr>bo_data = d, bo_limit = limit, bo_over = False\<rparr>)
        \<longrightarrow> bo_data (fold step ps \<lparr>bo_data = d, bo_limit = limit, bo_over = False\<rparr>) = d @ concat ps)" for ps d
  proof (induction ps arbitrary: d)
    case (Cons p ps)
    show ?case
    proof (cases "int (length p) > limit - int (length d)")
      case True
      then have "step p \<lparr>bo_data = d, bo_limit = limit, bo_over = False\<rparr> = \<lparr>bo_data = d, bo_limit = limit, bo_over = True\<rparr>"
        by (simp add: step_def output_Write_def)
      then show ?thesis
        using True by (simp add: over)
    next
      case False
      then show ?thesis
        using Cons.IH[of "d @ p"] by (simp add: step_def output_Write_def)
    qed
  qed simp
  show "bo_over (output_after chunks limit) \<longleftrightarrow> int (length (concat chunks)) > limit"
    "\<not> bo_over (output_after chunks limit) \<Longrightarrow> bo_data (output_after chunks limit) = concat chunks"
    using main[of "[]" chunks] assms by (simp_all add: output_after_def step_def)
qed

end
