(* ===== verification/LocalService.thy ===== *)
theory LocalService
  imports LocalWorker
begin

text \<open>
  Package \<open>internal/localcheck\<close>, \<open>service.go\<close>: one check as one task of the store, with its receipt in a file
  of its own.  The service runs on the runner's host together with the files; between any two accesses
  others may have changed either.  The repository of the host is the one in \<open>state.sqlite\<close>.
\<close>

section \<open>The host with files\<close>

text \<open>
  \<open>lw_Others n\<close>: what others did to the files before the \<open>n\<close>-th access; \<open>lw_Disk n\<close>: how a write then ends;
  \<open>lw_Sqlite n\<close>: the error of \<open>sqlite.Open\<close>, if any.
\<close>

record lworld =
  lw_World :: world
  lw_Others :: "nat \<Rightarrow> files \<Rightarrow> files"
  lw_Disk :: "nat \<Rightarrow> disk"
  lw_Sqlite :: "nat \<Rightarrow> error option"

record lhost =
  lh_Host :: host
  lh_Files :: files
  lh_Touch :: nat

type_synonym 'a lio = "lhost \<Rightarrow> 'a \<times> lhost"

definition retL :: "'a \<Rightarrow> 'a lio" where
  "retL x = (\<lambda>h. (x, h))"

definition bindL :: "'a lio \<Rightarrow> ('a \<Rightarrow> 'b lio) \<Rightarrow> 'b lio" where
  "bindL m f = (\<lambda>h. case m h of (x, h') \<Rightarrow> f x h')"

text \<open>\<open>if err != nil { return err }\<close> after a call.\<close>

definition andL :: "'a result lio \<Rightarrow> ('a \<Rightarrow> 'b result lio) \<Rightarrow> 'b result lio" where
  "andL m f = bindL m (\<lambda>r. case r of Inl err \<Rightarrow> retL (Inl err) | Inr v \<Rightarrow> f v)"

definition on_host :: "'a io \<Rightarrow> 'a lio" where
  "on_host m h = (case m (lh_Host h) of (x, g) \<Rightarrow> (x, h\<lparr>lh_Host := g\<rparr>))"

definition on_files :: "lworld \<Rightarrow> (nat \<Rightarrow> files \<Rightarrow> 'a \<times> files) \<Rightarrow> 'a lio" where
  "on_files w f h =
     (case f (lh_Touch h) (lw_Others w (lh_Touch h) (lh_Files h)) of
        (x, fs) \<Rightarrow> (x, h\<lparr>lh_Files := fs, lh_Touch := Suc (lh_Touch h)\<rparr>))"

definition look :: "lworld \<Rightarrow> (files \<Rightarrow> 'a) \<Rightarrow> 'a lio" where
  "look w f = on_files w (\<lambda>n fs. (f fs, fs))"

definition store_call :: "lworld \<Rightarrow> (context3 \<Rightarrow> go_time \<Rightarrow> Repository \<Rightarrow> 'a \<times> Repository) \<Rightarrow> 'a lio" where
  "store_call w f = on_host (on_store (lw_World w) f)"

definition clock_now :: "lworld \<Rightarrow> go_time lio" where
  "clock_now w = bindL (on_host (time_Now (lw_World w))) (\<lambda>t. retL (time_UTC t))"

section \<open>Opening (service.go)\<close>

definition local_marker :: string where
  "local_marker = ''ACP trusted local checks v1'' @ [CHR 0x0A]"

definition verifyPolicy :: string where "verifyPolicy = ''local-process-exit/v1''"

record Result =
  rs_Task :: string
  rs_TaskState :: TaskState
  rs_Operation :: OperationState
  rs_ExitCode :: "int option"
  rs_Bytes :: int
  rs_Digest :: string
  rs_InputsMatch :: "bool option"

definition plain_result :: "string \<Rightarrow> Result" where
  "plain_result ident = \<lparr>rs_Task = ident, rs_TaskState = TaskStateOther [], rs_Operation = OperationStateOther [],
     rs_ExitCode = None, rs_Bytes = 0, rs_Digest = [], rs_InputsMatch = None\<rparr>"

definition operationID :: "string \<Rightarrow> OperationID" where "operationID ident = ''op_'' @ ident"
definition target :: "string \<Rightarrow> string" where "target ident = ''local-check/'' @ ident"

text \<open>\<open>os.Mkdir\<close>: None if it fails.\<close>

definition Mkdir :: "files \<Rightarrow> path \<Rightarrow> files option" where
  "Mkdir fs p = map_option (\<lambda>q. put_node q Dir fs) (Create fs p)"

definition Stat :: "files \<Rightarrow> path \<Rightarrow> node option" where
  "Stat fs p = (case walk fs MaxLinks [] p True of None \<Rightarrow> None | Some q \<Rightarrow> node_at fs q)"

text \<open>\<open>os.MkdirAll\<close> of \<open>made @ rest\<close>, of which \<open>made\<close> is there.\<close>

fun MkdirAll :: "files \<Rightarrow> path \<Rightarrow> string list \<Rightarrow> files option" where
  "MkdirAll fs made [] = Some fs"
| "MkdirAll fs made (c # cs) =
     (let p = made @ [c] in
      case Stat fs p of
        Some n \<Rightarrow> if n = Dir then MkdirAll fs p cs else None
      | None \<Rightarrow> (case Mkdir fs p of None \<Rightarrow> None | Some fs' \<Rightarrow> MkdirAll fs' p cs))"

text \<open>\<open>os.ReadDir\<close>: the names in a directory.\<close>

definition ReadDir :: "files \<Rightarrow> path \<Rightarrow> string list option" where
  "ReadDir fs p =
     (case walk fs MaxLinks [] p True of
        None \<Rightarrow> None
      | Some d \<Rightarrow>
          if searchable fs d
          then Some (map last (filter (\<lambda>q. q \<noteq> [] \<and> butlast q = d) (go_keys (fs_Nodes fs))))
          else None)"

text \<open>What an access that changes the files leaves, with an error when it fails.\<close>

definition change :: "error \<Rightarrow> (files \<Rightarrow> files option) \<Rightarrow> nat \<Rightarrow> files \<Rightarrow> unit result \<times> files" where
  "change err f n fs = (case f fs of None \<Rightarrow> (Inl err, fs) | Some fs' \<Rightarrow> (Inr (), fs'))"

definition checkL :: "error \<Rightarrow> bool lio \<Rightarrow> unit result lio" where
  "checkL err m = bindL m (\<lambda>b. retL (guardR b err))"

text \<open>The marker that makes a directory one of the service: made in an empty directory only.\<close>

definition make_marker :: "lworld \<Rightarrow> path \<Rightarrow> bool \<Rightarrow> unit result lio" where
  "make_marker w mark create =
     bindL (look w (\<lambda>fs. regular fs mark)) (\<lambda>r. case r of
       Inr _ \<Rightarrow> retL (Inr ())
     | Inl _ \<Rightarrow>
         bindL (look w (\<lambda>fs. ReadDir fs (butlast mark))) (\<lambda>items.
           if \<not> create \<or> items = None \<or> items \<noteq> Some [] then retL (Inl ErrConfig)
           else on_files w (\<lambda>n fs. write_new fs (Create fs mark) local_marker (lw_Disk w n) ErrConfig)))"

definition sqlite_Open :: "lworld \<Rightarrow> path \<Rightarrow> unit result lio" where
  "sqlite_Open w p =
     on_files w (\<lambda>n fs. case lw_Sqlite w n of
         Some err \<Rightarrow> (Inl err, fs)
       | None \<Rightarrow> (Inr (), case Create fs p of None \<Rightarrow> fs | Some q \<Rightarrow> put_node q (File []) fs))"

text \<open>\<open>open\<close> returns the absolute root; the store it returns is the repository of the host.\<close>

definition open_store :: "lworld \<Rightarrow> os \<Rightarrow> string \<Rightarrow> bool \<Rightarrow> path result lio" where
  "open_store w os root create =
     (case Abs_path os root of
        Inl _ \<Rightarrow> retL (Inl ErrConfig)
      | Inr dir \<Rightarrow>
          andL (if create then on_files w (change ErrConfig (\<lambda>fs. MkdirAll fs [] dir)) else retL (Inr ())) (\<lambda>_.
          andL (checkL ErrConfig (look w (\<lambda>fs. Lstat fs dir = Some Dir))) (\<lambda>_.
          andL (make_marker w (dir @ [''owner.txt'']) create) (\<lambda>_.
          andL (checkL ErrConfig (look w (\<lambda>fs. ReadFile fs (dir @ [''owner.txt'']) = Some local_marker))) (\<lambda>_.
          andL (if create
            then on_files w (change ErrConfig (\<lambda>fs. if Lstat fs (dir @ [''receipts'']) \<noteq> None then Some fs
                                                   else Mkdir fs (dir @ [''receipts''])))
            else retL (Inr ())) (\<lambda>_.
          andL (checkL ErrConfig (look w (\<lambda>fs. Lstat fs (dir @ [''receipts'']) = Some Dir))) (\<lambda>_.
          andL (if create then retL (Inr ())
            else look w (\<lambda>fs. bindR (regular fs (dir @ [''state.sqlite''])) (\<lambda>_. Inr ()))) (\<lambda>_.
          andL (sqlite_Open w (dir @ [''state.sqlite''])) (\<lambda>_.
          retL (Inr dir))))))))))"

section \<open>Receipts as files (service.go)\<close>

definition receiptPath :: "path \<Rightarrow> string \<Rightarrow> path" where
  "receiptPath root ident = root @ [''receipts'', ident @ ''.json'']"

definition saveReceipt :: "lworld \<Rightarrow> path \<Rightarrow> string \<Rightarrow> Receipt \<Rightarrow> unit result lio" where
  "saveReceipt w root ident r =
     (case marshal_receipt r of
        Inl _ \<Rightarrow> retL (Inl ErrReceipt)
      | Inr b \<Rightarrow>
          if length b > 4096 then retL (Inl ErrReceipt)
          else on_files w (\<lambda>n fs. write_new fs (Create fs (receiptPath root ident)) b (lw_Disk w n) ErrReceipt))"

text \<open>The bytes \<open>loadReceipt\<close> reads, and the checks that need no clock.\<close>

definition read_receipt :: "files \<Rightarrow> path \<Rightarrow> string result" where
  "read_receipt fs p =
     (case regular fs p of
        Inl _ \<Rightarrow> Inl ErrReceipt
      | Inr data \<Rightarrow>
          if length data > 4096 then Inl ErrReceipt
          else (case ReadFile fs p of
            None \<Rightarrow> Inl ErrReceipt
          | Some data \<Rightarrow> let b = take 4097 data in if length b > 4096 then Inl ErrReceipt else Inr b))"

definition check_receipt :: "string \<Rightarrow> Receipt \<Rightarrow> bool" where
  "check_receipt ident r \<longleftrightarrow> rc_Version r = 1 \<and> rc_Task r = ident \<and> rc_Operation r = operationID ident
     \<and> rc_Attempt r = ''att_'' @ ident \<and> rc_Lease r = ''lease_'' @ ident \<and> rc_Generation r = 1
     \<and> validDigest (rc_Config r) \<and> validDigest (rc_OutputHash r) \<and> 0 \<le> rc_OutputBytes r
     \<and> rc_OutputBytes r \<le> 64 * 1024 \<and> 0 \<le> rc_ExitCode r \<and> \<not> time_IsZero (st_Time (rc_Finished r))"

definition loadReceipt :: "lworld \<Rightarrow> path \<Rightarrow> string \<Rightarrow> Receipt result lio" where
  "loadReceipt w root ident =
     andL (look w (\<lambda>fs. read_receipt fs (receiptPath root ident))) (\<lambda>b.
     case decode_strict receipt_fields zero_receipt b of
       Inl _ \<Rightarrow> retL (Inl ErrReceipt)
     | Inr r \<Rightarrow>
         if \<not> check_receipt ident r then retL (Inl ErrReceipt)
         else bindL (on_host (time_Now (lw_World w))) (\<lambda>now.
           if st_Time (rc_Finished r) > now + Second then retL (Inl ErrReceipt) else retL (Inr r)))"

section \<open>Verification and status (service.go)\<close>

definition is_intent :: "string \<Rightarrow> Receipt \<Rightarrow> Record \<Rightarrow> bool" where
  "is_intent ident r e \<longleftrightarrow> ev_ID e = ''intent_'' @ ident \<and> ev_SourceActorID e = controllerActor
     \<and> ev_Digest e = ''sha256:'' @ rc_Config r"

definition is_report :: "Receipt \<Rightarrow> Record \<Rightarrow> bool" where
  "is_report r e \<longleftrightarrow> ev_Kind e = KindWorkerReport \<and> ev_AttemptID e = rc_Attempt r \<and> ev_SourceActorID e = workerActor
     \<and> ev_Digest e = ''sha256:'' @ sum256 (receipt_bytes r)"

definition receipt_verdict :: "Receipt \<Rightarrow> Verdict \<times> string" where
  "receipt_verdict r =
     (if rc_ExitCode r \<noteq> 0 \<or> \<not> rc_InputsMatch r
      then (VerdictNotSatisfiedTerminal, ''selected command failed or selected source bytes changed'')
      else (VerdictSatisfied, ''selected command exited zero; selected source bytes matched''))"

definition verified_envelope :: "string \<Rightarrow> Operation \<Rightarrow> Receipt \<Rightarrow> Envelope" where
  "verified_envelope ident opn r = \<lparr>env_ProtocolVersion = ProtocolVersion, env_MessageID = ''verified_'' @ ident,
     env_MessageType = MessageObservation, env_MessageName = ''verification.completed'', env_TaskID = ident,
     env_OperationID = od_ID (op_Descriptor opn), env_AttemptID = rc_Attempt r,
     env_CorrelationID = ''corr_'' @ ident, env_CausationID = '''',
     env_Actor = \<lparr>actor_ID = controllerActor, actor_Role = ''verifier''\<rparr>, env_IssuedAt = st_Time (rc_Finished r),
     env_DeadlineAt = None, env_Lease = None,
     env_Payload = [(''receipt_digest'', PString (sum256 (receipt_bytes r)))], env_Extensions = []\<rparr>"

definition observed_record :: "string \<Rightarrow> Operation \<Rightarrow> Receipt \<Rightarrow> go_time \<Rightarrow> Record" where
  "observed_record ident opn r now = \<lparr>ev_ID = ''observed_'' @ ident, ev_TaskID = ident,
     ev_OperationID = od_ID (op_Descriptor opn), ev_AttemptID = rc_Attempt r, ev_Kind = KindProcessObservation,
     ev_SourceActorID = controllerActor, ev_ObservedAt = now, ev_SubjectRef = target ident,
     ev_Summary = snd (receipt_verdict r), ev_ArtifactRef = ''receipts/'' @ ident @ ''.json'',
     ev_Digest = ''sha256:'' @ sum256 (receipt_bytes r)\<rparr>"

definition receipt_verification :: "string \<Rightarrow> Operation \<Rightarrow> Receipt \<Rightarrow> go_time \<Rightarrow> Verification" where
  "receipt_verification ident opn r now = \<lparr>ver_ID = ''verification_'' @ ident, ver_OperationID = od_ID (op_Descriptor opn),
     ver_AttemptID = rc_Attempt r, ver_PolicyRef = verifyPolicy, ver_EvidenceIDs = [''observed_'' @ ident],
     ver_Verdict = fst (receipt_verdict r), ver_RetryExecutionSafe = False,
     ver_ActualStateSummary = snd (receipt_verdict r), ver_VerifiedAt = now, ver_VerifierActorID = controllerActor\<rparr>"

definition verified_callback :: "string \<Rightarrow> Operation \<Rightarrow> Receipt \<Rightarrow> go_time \<Rightarrow> callback" where
  "verified_callback ident opn r now =
     Call (CRegisterEvidence (observed_record ident opn r now)) (\<lambda>x. case x of
       Inl e \<Rightarrow> Finish (Inl e)
     | Inr _ \<Rightarrow> Call (CApplyVerification (od_ID (op_Descriptor opn)) (op_Revision opn)
           (receipt_verification ident opn r now) now) (\<lambda>x. Finish (unit_of x)))"

definition finalize_check :: "lworld \<Rightarrow> string \<Rightarrow> unit result lio" where
  "finalize_check w ident =
     andL (store_call w (\<lambda>ctx _. store_GetTask ctx ident)) (\<lambda>task.
     if task_State task \<in> {TaskCompleted, TaskFailed, TaskCancelled} then retL (Inr ())
     else bindL (clock_now w) (\<lambda>now.
       andL (store_call w (\<lambda>ctx clock. store_FinalizeTask ctx clock (task_ID task) (task_Revision task) now)) (\<lambda>_.
       retL (Inr ()))))"

definition verify_receipt :: "marshal \<Rightarrow> lworld \<Rightarrow> path \<Rightarrow> string \<Rightarrow> unit result lio" where
  "verify_receipt mj w root ident =
     andL (loadReceipt w root ident) (\<lambda>r.
     andL (store_call w (\<lambda>ctx _. store_GetOperation ctx (operationID ident))) (\<lambda>opn.
     if op_State opn = OperationSucceeded \<or> op_State opn = OperationFailed then finalize_check w ident
     else if op_State opn \<noteq> OperationVerifying \<or> od_TargetRef (op_Descriptor opn) \<noteq> target ident
        \<or> od_VerificationPolicyRef (op_Descriptor opn) \<noteq> verifyPolicy \<or> op_ActiveAttemptID opn \<noteq> rc_Attempt r
     then retL (Inl ErrReceipt)
     else bindL (store_call w (\<lambda>ctx _. store_GetAttempt ctx (rc_Attempt r))) (\<lambda>found.
     case found of Inl _ \<Rightarrow> retL (Inl ErrReceipt) | Inr a \<Rightarrow>
     if att_OwnerActorID a \<noteq> workerActor \<or> att_LeaseID a \<noteq> rc_Lease r \<or> att_LeaseGeneration a \<noteq> rc_Generation r
     then retL (Inl ErrReceipt)
     else andL (store_call w (\<lambda>ctx _. store_EvidenceForOperation ctx (od_ID (op_Descriptor opn)))) (\<lambda>evs.
     if \<not> list_ex (is_intent ident r) evs \<or> \<not> list_ex (is_report r) evs then retL (Inl ErrReceipt)
     else bindL (clock_now w) (\<lambda>now.
     bindL (on_host (process mj (lw_World w) (verified_envelope ident opn r) (verified_callback ident opn r now)))
       (\<lambda>(sent, _). case sent of Inl err \<Rightarrow> retL (Inl err) | Inr _ \<Rightarrow> finalize_check w ident))))))"

definition is_observed :: "string \<Rightarrow> Receipt \<Rightarrow> Record \<Rightarrow> bool" where
  "is_observed ident r e \<longleftrightarrow> ev_ID e = ''observed_'' @ ident \<and> ev_SourceActorID e = controllerActor
     \<and> ev_Digest e = ''sha256:'' @ sum256 (receipt_bytes r)"

text \<open>\<open>status\<close> returns a result also with an error.\<close>

definition check_status :: "lworld \<Rightarrow> path \<Rightarrow> string \<Rightarrow> (Result \<times> error option) lio" where
  "check_status w root ident =
     bindL (store_call w (\<lambda>ctx _. store_GetTask ctx ident)) (\<lambda>found. case found of
       Inl err \<Rightarrow> retL (plain_result [], Some (if errors_is err ErrNotFound then ErrTaskNotFound else err))
     | Inr task \<Rightarrow>
     bindL (store_call w (\<lambda>ctx _. store_GetOperation ctx (operationID ident))) (\<lambda>found. case found of
       Inl err \<Rightarrow> retL ((plain_result ident)\<lparr>rs_TaskState := task_State task\<rparr>, Some err)
     | Inr opn \<Rightarrow>
     let result = (plain_result ident)\<lparr>rs_TaskState := task_State task, rs_Operation := op_State opn\<rparr> in
     if op_State opn = OperationSucceeded \<or> op_State opn = OperationFailed then
       bindL (loadReceipt w root ident) (\<lambda>found. case found of
         Inl err \<Rightarrow> retL (result, Some err)
       | Inr r \<Rightarrow>
       bindL (store_call w (\<lambda>ctx _. store_EvidenceForOperation ctx (operationID ident))) (\<lambda>found. case found of
         Inl err \<Rightarrow> retL (result, Some err)
       | Inr evs \<Rightarrow>
         if \<not> list_ex (is_observed ident r) evs then retL (result, Some ErrReceipt)
         else retL (result\<lparr>rs_ExitCode := Some (rc_ExitCode r), rs_InputsMatch := Some (rc_InputsMatch r),
           rs_Bytes := rc_OutputBytes r, rs_Digest := rc_OutputHash r\<rparr>, None)))
     else retL (result, None)))"


section \<open>Check (service.go)\<close>

text \<open>\<open>Execute\<close> of the runner, and the job if it was dispatched: the worker's receipt is about that job.\<close>

definition Execute_job :: "marshal \<Rightarrow> world \<Rightarrow> Runner \<Rightarrow> Request \<Rightarrow> ((Outcome \<times> error option) \<times> Job option) io" where
  "Execute_job mj w R req =
     bindI (offer mj w R req) (\<lambda>x. case x of
       Inl early \<Rightarrow> retI (early, None)
     | Inr (j, c) \<Rightarrow> bindI (dispatch mj w R c j) (\<lambda>out. retI (out, Some j)))"

definition check_descriptor :: "SpecConfig \<Rightarrow> string \<Rightarrow> OperationDescriptor" where
  "check_descriptor c ident = \<lparr>od_ID = operationID ident, od_TaskID = ident, od_Name = ''project.check'',
     od_TargetRef = target ident, od_EffectClass = EffectMutation,
     od_ConflictScope = [''local-workspace/'' @ sum256 (path_text (sc_Workspace c))],
     od_IdempotencyMode = IdempotencyUnknown, od_VerificationPolicyRef = verifyPolicy,
     od_AuthorizationPolicyRef = ''operator-local-check/v1''\<rparr>"

definition intent_record :: "SpecConfig \<Rightarrow> string \<Rightarrow> go_time \<Rightarrow> Record" where
  "intent_record c ident now = \<lparr>ev_ID = ''intent_'' @ ident, ev_TaskID = ident, ev_OperationID = operationID ident,
     ev_AttemptID = '''', ev_Kind = KindPolicyDecision, ev_SourceActorID = controllerActor, ev_ObservedAt = now,
     ev_SubjectRef = target ident, ev_Summary = ''operator-selected local check'', ev_ArtifactRef = '''',
     ev_Digest = ''sha256:'' @ sc_Digest c\<rparr>"

definition check_grant :: "SpecConfig \<Rightarrow> string \<Rightarrow> go_time \<Rightarrow> Grant" where
  "check_grant c ident deadline = \<lparr>gt_PolicyRef = ''operator-local-check/v1'', gt_Worker = workerActor,
     gt_Provider = ''local.command'', gt_Model = ''process-v1'', gt_Action = ''project.check'', gt_Target = target ident,
     gt_DataClass = ''local-project'', gt_Effect = EffectMutation, gt_AllowExternal = False, gt_Expires = deadline,
     gt_Limits = cap_Limits (command_Capabilities c)\<rparr>"

definition check_request :: "SpecConfig \<Rightarrow> string \<Rightarrow> Operation \<Rightarrow> go_time \<Rightarrow> go_time \<Rightarrow> Request" where
  "check_request c ident opn now deadline = \<lparr>rq_Version = Version, rq_MessageID = ''offer_'' @ ident,
     rq_OperationID = operationID ident, rq_AttemptID = ''att_'' @ ident, rq_LeaseID = ''lease_'' @ ident,
     rq_RetryOf = '''', rq_CorrelationID = ''corr_'' @ ident, rq_Revision = op_Revision opn, rq_IssuedAt = now,
     rq_Deadline = deadline, rq_Provider = ''local.command'', rq_Model = ''process-v1'', rq_DataClass = ''local-project'',
     rq_Input = sc_Digest c, rq_Limits = cap_Limits (command_Capabilities c)\<rparr>"

text \<open>From the empty store to an operation that is ready; \<open>c\<close> is the clone.\<close>

definition prepare_check :: "lworld \<Rightarrow> SpecConfig \<Rightarrow> string \<Rightarrow> (Operation \<times> go_time) result lio" where
  "prepare_check w c ident =
     bindL (store_call w (\<lambda>ctx _. store_GetTask ctx ident)) (\<lambda>found. case found of
       Inr _ \<Rightarrow> retL (Inl ErrExisting)
     | Inl err \<Rightarrow>
     if \<not> errors_is err ErrNotFound then retL (Inl err)
     else bindL (clock_now w) (\<lambda>now.
     bindL (store_call w (\<lambda>ctx clock. store_CreateTask ctx clock ident now)) (\<lambda>made. case made of
       Inl err \<Rightarrow> retL (Inl (if errors_is err ErrDuplicateID then ErrExisting else err))
     | Inr _ \<Rightarrow>
     andL (store_call w (\<lambda>ctx clock. store_CreateOperation ctx clock (check_descriptor c ident) now)) (\<lambda>opn.
     andL (store_call w (\<lambda>ctx clock. store_RegisterEvidence ctx clock (intent_record c ident now))) (\<lambda>_.
     andL (store_call w (\<lambda>ctx clock. store_MarkReady ctx clock (operationID ident) (op_Revision opn) now)) (\<lambda>opn.
     retL (Inr (opn, now))))))))"

text \<open>What \<open>Check\<close> does with the outcome; \<open>left\<close> is what the worker left.\<close>

definition conclude_check ::
  "marshal \<Rightarrow> lworld \<Rightarrow> path \<Rightarrow> string \<Rightarrow> Outcome \<times> error option \<Rightarrow> (Receipt \<times> string) option \<Rightarrow> (Result \<times> string \<times> error option) lio" where
  "conclude_check mj w root ident outcome left =
     (case outcome of
        (_, Some err) \<Rightarrow> retL (plain_result ident, [], Some err)
      | (out, None) \<Rightarrow>
        if out_Disposition out \<noteq> Reported \<or> \<not> out_Applied out then
          bindL (check_status w root ident) (\<lambda>(result, e).
            retL (result, [], Some (case e of Some e \<Rightarrow> e | None \<Rightarrow> ErrReceipt)))
        else (case left of
          None \<Rightarrow> retL (plain_result ident, [], Some ErrReceipt)
        | Some (r, output) \<Rightarrow>
          let claim = receipt_bytes r in
          if out_Output out \<noteq> claim \<or> rep_Digest (out_Report out) \<noteq> ''sha256:'' @ sum256 claim
             \<or> rc_OutputHash r \<noteq> sum256 output
          then retL (plain_result ident, [], Some ErrReceipt)
          else bindL (saveReceipt w root ident r) (\<lambda>saved. case saved of
            Inl err \<Rightarrow> retL (plain_result ident, [], Some err)
          | Inr _ \<Rightarrow>
          bindL (verify_receipt mj w root ident) (\<lambda>verified. case verified of
            Inl err \<Rightarrow> retL (plain_result ident, [], Some err)
          | Inr _ \<Rightarrow>
          bindL (check_status w root ident) (\<lambda>(result, e). retL (result, output, e))))))"

definition Check ::
  "marshal \<Rightarrow> lworld \<Rightarrow> os \<Rightarrow> command \<Rightarrow> string \<Rightarrow> string \<Rightarrow> SpecConfig \<Rightarrow> (Result \<times> string \<times> error option) lio" where
  "Check mj w os m root ident config =
     (let refuse = (\<lambda>err. retL (plain_result [], [], Some err)) in
      if \<not> idPattern ident \<or> \<not> validDigest (sc_Digest config) then refuse ErrConfig else
      let c = config_clone config in
      bindL (look w (\<lambda>fs. CheckInputs fs c)) (\<lambda>inputs. case inputs of Inl err \<Rightarrow> refuse err | Inr _ \<Rightarrow>
      bindL (open_store w os root True) (\<lambda>opened. case opened of Inl err \<Rightarrow> refuse err | Inr dir \<Rightarrow>
      bindL (prepare_check w c ident) (\<lambda>ready. case ready of Inl err \<Rightarrow> refuse err | Inr (opn, now) \<Rightarrow>
      let deadline = now + config_duration c in
      case NewRunner True controllerActor (Some (command_Worker m c)) (Some (ExactPolicy_Check [check_grant c ident deadline])) of
        Inl err \<Rightarrow> refuse err
      | Inr R \<Rightarrow>
        bindL (on_host (Execute_job mj (lw_World w) R (check_request c ident opn now deadline))) (\<lambda>(outcome, j).
        conclude_check mj w dir ident outcome (case j of None \<Rightarrow> None | Some j \<Rightarrow> snd (command_end m c j)))))))"

section \<open>Status, Recover, Collect (service.go)\<close>

definition Status :: "lworld \<Rightarrow> os \<Rightarrow> string \<Rightarrow> string \<Rightarrow> (Result \<times> error option) lio" where
  "Status w os root ident =
     (if \<not> idPattern ident then retL (plain_result [], Some ErrConfig)
      else bindL (open_store w os root False) (\<lambda>opened. case opened of
        Inl err \<Rightarrow> retL (plain_result [], Some err)
      | Inr dir \<Rightarrow> check_status w dir ident))"

definition Recover :: "marshal \<Rightarrow> lworld \<Rightarrow> os \<Rightarrow> string \<Rightarrow> string \<Rightarrow> (Result \<times> error option) lio" where
  "Recover mj w os root ident =
     (if \<not> idPattern ident then retL (plain_result [], Some ErrConfig)
      else bindL (open_store w os root False) (\<lambda>opened. case opened of
        Inl err \<Rightarrow> retL (plain_result [], Some err)
      | Inr dir \<Rightarrow>
          bindL (verify_receipt mj w dir ident) (\<lambda>verified. case verified of
            Inl err \<Rightarrow> retL (plain_result ident, Some err)
          | Inr _ \<Rightarrow> check_status w dir ident)))"

record Collection =
  co_State :: GCResult
  co_RemovedReceipts :: int

text \<open>\<open>os.Remove\<close> of a file: the name goes, whatever kind of file it names.\<close>

definition Remove :: "files \<Rightarrow> path \<Rightarrow> files option" where
  "Remove fs p =
     (case walk fs MaxLinks [] p False of
        None \<Rightarrow> None
      | Some q \<Rightarrow>
          if q = [] \<or> node_at fs q = Some Dir \<or> fs_Denied fs (butlast q) then None
          else Some (fs\<lparr>fs_Nodes := fmdrop q (fs_Nodes fs)\<rparr>))"

definition CollectReceipts ::
  "lworld \<Rightarrow> os \<Rightarrow> string \<Rightarrow> string \<Rightarrow> string \<Rightarrow> (Collection \<times> error option) lio" where
  "CollectReceipts w os root after removable =
     (let result = \<lparr>co_State = zero_result, co_RemovedReceipts = 0\<rparr> in
      if (after \<noteq> [] \<and> \<not> idPattern after) \<or> (removable \<noteq> [] \<and> \<not> idPattern removable)
      then retL (result, Some ErrConfig)
      else bindL (open_store w os root False) (\<lambda>opened. case opened of
        Inl err \<Rightarrow> retL (result, Some err)
      | Inr dir \<Rightarrow>
      bindL (clock_now w) (\<lambda>now.
      bindL (store_call w (\<lambda>ctx clock. Collect ctx \<lparr>gc_Now = now, gc_After = after, gc_MaxTasks = 25, gc_MaxRows = 1000\<rparr>))
        (\<lambda>collected. case collected of
        Inl err \<Rightarrow> retL (result, Some err)
      | Inr st \<Rightarrow>
      let result = result\<lparr>co_State := st\<rparr> in
      if removable = [] then retL (result, None)
      else bindL (loadReceipt w dir removable) (\<lambda>loaded. case loaded of
        Inl err \<Rightarrow> retL (result, Some err)
      | Inr r \<Rightarrow>
      bindL (store_call w (\<lambda>ctx _. store_GetTask ctx removable)) (\<lambda>found.
      case found of
        Inr _ \<Rightarrow> retL (result, None)
      | Inl e \<Rightarrow>
          if \<not> errors_is e ErrNotFound then retL (result, Some e)
          else if st_Time (rc_Finished r) < now - 30 * 24 * Hour then
            bindL (on_files w (change ErrReceipt (\<lambda>fs. Remove fs (receiptPath dir removable)))) (\<lambda>removed.
              case removed of
                Inl err \<Rightarrow> retL (result, Some err)
              | Inr _ \<Rightarrow> retL (result\<lparr>co_RemovedReceipts := 1\<rparr>, None))
          else retL (result, None)))))))"

end
