(* ===== verification/LocalProfile.thy ===== *)
theory LocalProfile
  imports LocalSpec
begin

text \<open>
  What \<open>Prepare\<close> writes is a profile that \<open>Load\<close> accepts: the strings of a decoded text are well-formed
  UTF-8, an indented text is read back, and the new file is in nobody's way.
\<close>

section \<open>Decoded strings are well-formed\<close>

lemma is_rune_encode:
  assumes "n < 0x110000" "\<not> (0xD800 \<le> n \<and> n < 0xE000)"
  shows "is_rune (utf8_encode n)"
proof -
  consider "n < 128" | "128 \<le> n" "n < 2048" | "2048 \<le> n" "n < 65536" | "65536 \<le> n" by linarith
  then show ?thesis
  proof cases
    case 1
    then show ?thesis by (simp add: utf8_encode_def is_rune_ascii)
  next
    case 2
    then have "2 \<le> n div 64" "n div 64 < 32" by linarith+
    then show ?thesis
      using 2 by (simp add: utf8_encode_def is_rune_def rune_len_def rune_forms_def)
  next
    case 3
    define a where "a = n div 4096"
    define b where "b = n div 64 mod 64"
    have "n div 64 = 64 * a + b" "b < 64"
      using div_mult2_eq[of n 64 64] by (simp_all add: a_def b_def)
    moreover have "a < 16"
      using 3 by (simp add: a_def)
    moreover have "a = 0 \<Longrightarrow> 32 \<le> b" "a = 13 \<Longrightarrow> b < 32" "n mod 64 \<le> 63"
      using 3 assms(2) calculation(1,2) by linarith+
    moreover consider "a = 0" | "1 \<le> a" "a \<le> 12" | "a = 13" | "14 \<le> a"
      by linarith
    then have "is_rune [char_of (224 + a), char_of (128 + b), char_of (128 + n mod 64)]"
      unfolding is_rune_def rune_len_def rune_forms_def using calculation by cases simp_all
    then show ?thesis
      using 3 by (simp add: utf8_encode_def a_def b_def)
  next
    case 4
    define a where "a = n div 262144"
    define b where "b = n div 4096 mod 64"
    have "n div 4096 = 64 * a + b" "b < 64"
      using div_mult2_eq[of n 4096 64] by (simp_all add: a_def b_def)
    moreover have "a < 5"
      using assms(1) by (simp add: a_def)
    moreover have "a = 0 \<Longrightarrow> 16 \<le> b" "a = 4 \<Longrightarrow> b < 16" "n mod 64 \<le> 63" "n div 64 mod 64 \<le> 63"
      using 4 assms(1) calculation(1,2) by linarith+
    moreover consider "a = 0" | "1 \<le> a" "a \<le> 3" | "a = 4"
      using \<open>a < 5\<close> by linarith
    then have "is_rune [char_of (240 + a), char_of (128 + b), char_of (128 + n div 64 mod 64), char_of (128 + n mod 64)]"
      unfolding is_rune_def rune_len_def rune_forms_def using calculation by cases simp_all
    then show ?thesis
      using 4 by (simp add: utf8_encode_def a_def b_def)
  qed
qed

text \<open>A raw text as it comes from a text that was lexed: after a backslash there is an ASCII character.\<close>

fun sound_raw :: "string \<Rightarrow> bool" where
  "sound_raw [] = True"
| "sound_raw (c # s) =
     (if c = backslash then (case s of [] \<Rightarrow> True | e # s1 \<Rightarrow> code e < 128 \<and> sound_raw s1) else sound_raw s)"

lemma sound_raw_high: "list_all (\<lambda>c. 128 \<le> code c) r \<Longrightarrow> sound_raw (r @ s) = sound_raw s"
  by (induction r) auto

lemma sound_raw_hex4: "hex4 s = Some n \<Longrightarrow> sound_raw s = sound_raw (drop 4 s) \<and> n < 65536"
proof (induction s rule: hex4.induct)
  case (1 a b c d s)
  have v: "hexval x = Some k \<Longrightarrow> x \<noteq> backslash \<and> k < 16" for x k
    by (auto simp: hexval_def Let_def split: if_splits)
  from 1 obtain w x y z where h: "hexval a = Some w" "hexval b = Some x" "hexval c = Some y" "hexval d = Some z"
    and n: "n = 4096 * w + 256 * x + 16 * y + z"
    by (auto split: option.splits)
  then show ?case
    using v[OF h(1)] v[OF h(2)] v[OF h(3)] v[OF h(4)] by simp
qed simp_all

lemma utf8_replacement: "utf8_Valid (replacement @ s) = utf8_Valid s"
  by (rule utf8_Valid_append) (simp add: replacement_def is_rune_def rune_len_def rune_forms_def code_def)

lemma sound_raw_escape: "sound_raw s \<Longrightarrow> s = backslash # CHR ''u'' # s1 \<Longrightarrow> hex4 s1 = Some n \<Longrightarrow> sound_raw (drop 6 s)"
  using sound_raw_hex4[of s1 n] by simp

lemma low_surrogate_Some:
  assumes "low_surrogate s = Some m" "sound_raw s"
  shows "m < 1024" "sound_raw (drop 6 s)"
proof -
  from assms(1) obtain s1 k where s: "s = backslash # CHR ''u'' # s1" and h: "hex4 s1 = Some k" "0xDC00 \<le> k" "k < 0xE000"
    and m: "m = k - 0xDC00"
    by (cases s; cases "tl s")
      (auto simp: low_surrogate_def split: if_splits option.splits)
  show "m < 1024" using h m by simp
  show "sound_raw (drop 6 s)" using sound_raw_escape[OF assms(2) s h(1)] .
qed

lemma utf8_unquote: "sound_raw s \<Longrightarrow> utf8_Valid (unquote s)"
proof (induction s rule: length_induct)
  case (1 s)
  note IH = 1(1)[rule_format]
  show ?case
  proof (cases s)
    case (Cons c s1)
    show ?thesis
    proof (cases "c = backslash")
      case True
      show ?thesis
      proof (cases s1)
        case Nil
        then show ?thesis
          using True Cons by (subst unquote.simps) simp
      next
        case (Cons e s2)
        note s = \<open>s = c # s1\<close>[unfolded this True]
        show ?thesis
        proof (cases "e = CHR ''u''")
          case u: True
          show ?thesis
          proof (cases "hex4 s2")
            case None
            then show ?thesis
              using u by (subst unquote.simps) (simp add: s)
          next
            case (Some n)
            have sr: "sound_raw (drop 6 s)" and n: "n < 65536"
              using sound_raw_escape[OF 1(2), of s2 n] s u Some sound_raw_hex4[OF Some] by auto
            have v6: "utf8_Valid (unquote (drop 6 s))"
              using sr s by (intro IH) auto
            show ?thesis
            proof (cases "n < 0xDC00 \<and> 0xD800 \<le> n \<and> low_surrogate (drop 6 s) \<noteq> None")
              case True
              then obtain m where m: "low_surrogate (drop 6 s) = Some m" by blast
              from low_surrogate_Some[OF m sr] have m': "m < 1024" and "sound_raw (drop 12 s)" by auto
              then have "utf8_Valid (unquote (drop 12 s))"
                using s by (intro IH) auto
              moreover have "is_rune (utf8_encode (0x10000 + (n - 0xD800) * 1024 + m))"
                using True m' by (intro is_rune_encode) auto
              ultimately show ?thesis
                using True m u Some s by (subst unquote.simps) (simp add: utf8_Valid_append)
            next
              case False
              have enc: "\<not> (0xD800 \<le> n \<and> n < 0xE000) \<Longrightarrow> is_rune (utf8_encode n)"
                using n by (intro is_rune_encode) auto
              show ?thesis
                using False u Some s v6 enc
                by (subst unquote.simps) (auto simp: utf8_Valid_append utf8_replacement split: option.split)
            qed
          qed
        next
          case False
          have "code (unescape e) < 128" "sound_raw s2"
            using 1(2) s by (auto simp: unescape_def)
          moreover from this have "utf8_Valid (unquote s2)"
            using s by (intro IH) auto
          ultimately show ?thesis
            using False s by (subst unquote.simps) simp
        qed
      qed
    next
      case False
      then have sr: "sound_raw s1"
        using 1(2) Cons by simp
      show ?thesis
      proof (cases "rune_len s = 0")
        case True
        have "utf8_Valid (unquote s1)"
          using sr Cons by (intro IH) auto
        then show ?thesis
          using True False Cons by (subst unquote.simps) (simp add: utf8_replacement)
      next
        case pos: False
        have r: "is_rune (take (rune_len s) s)"
          using rune_len_take[of s "[]"] pos rune_len_le[of s] Cons by (auto simp: is_rune_def min_def)
        have "sound_raw (drop (rune_len s) s)"
        proof (cases "rune_len s = 1")
          case True
          then show ?thesis using sr Cons by simp
        next
          case False
          then show ?thesis
            using sound_raw_high[OF rune_len_high[OF False], of "drop (rune_len s) s"] 1(2) by simp
        qed
        then have "utf8_Valid (unquote (drop (rune_len s) s))"
          using pos Cons by (intro IH) auto
        then show ?thesis
          using pos False Cons r by (subst unquote.simps) (simp add: utf8_Valid_append)
      qed
    qed
  qed simp
qed


section \<open>The texts of a value that was lexed\<close>

fun sound_lexeme :: "lexeme \<Rightarrow> bool" where
  "sound_lexeme (LString raw) = sound_raw raw"
| "sound_lexeme _ = True"

lemma lex_string_sound: "lex_string s = Some (raw, t) \<Longrightarrow> sound_raw raw"
proof (induction s arbitrary: raw t rule: lex_string.induct)
  case (2 c s)
  show ?case
  proof (cases "c = backslash")
    case True
    with 2(3) obtain e s1 where s: "s = e # s1"
      by (cases s) auto
    with 2(3) True obtain r where raw: "raw = c # e # r" and r: "lex_string s1 = Some (r, t)"
      and e: "e \<in> {quotes, backslash, CHR ''/'', CHR ''b'', CHR ''f'', CHR ''n'', CHR ''r'', CHR ''t'', CHR ''u''}"
      by (cases "lex_string s1") (auto split: if_splits)
    have "sound_raw r"
      using 2(1)[OF _ _ True s _ r] True e 2(3) s by (auto split: if_splits)
    then show ?thesis
      using e by (auto simp: raw True code_def)
  next
    case False
    then show ?thesis
      using 2 by (auto split: if_splits)
  qed
qed simp

lemma lex_one_sound: "lex_one s = Some (l, t) \<Longrightarrow> sound_lexeme l"
proof -
  have "sound_lexeme l" if "lex_simple c = Some l" for c
    using that by (auto simp: lex_simple_def split: if_splits)
  then show "lex_one s = Some (l, t) \<Longrightarrow> sound_lexeme l"
    by (auto simp: lex_one_def lex_string_sound split: list.splits option.splits if_splits)
qed

lemma lex_sound: "lex s = Some ls \<Longrightarrow> list_all sound_lexeme ls"
proof (induction s arbitrary: ls rule: lex.induct)
  case (1 s)
  show ?case
    using 1(3) by (subst (asm) lex.simps)
      (auto simp: 1(1) 1(2) lex_one_sound split: if_splits option.splits prod.splits)
qed

fun sound_json :: "json \<Rightarrow> bool" where
  "sound_json (JString raw) = sound_raw raw"
| "sound_json (JArray vs) = list_all sound_json vs"
| "sound_json (JObject ms) = list_all (\<lambda>(k, v). sound_raw k \<and> sound_json v) ms"
| "sound_json _ = True"

lemma sound_toks:
  "list_all sound_lexeme (toks v) \<Longrightarrow> sound_json v"
  "list_all sound_lexeme (toks_elements vs) \<Longrightarrow> list_all sound_json vs"
  "list_all sound_lexeme (toks_members ms) \<Longrightarrow> list_all (\<lambda>(k, v). sound_raw k \<and> sound_json v) ms"
  by (induction v and vs and ms rule: toks_toks_elements_toks_members.induct) (auto split: if_splits)

text \<open>A property of the struct that every field keeps holds of what is decoded.\<close>

lemma decode_members_keeps:
  assumes "\<And>n f v a a'. (n, f) \<in> set fs \<Longrightarrow> sound_json v \<Longrightarrow> P a \<Longrightarrow> f v a = Some a' \<Longrightarrow> P a'"
  shows "decode_members fs ms a = Some a' \<Longrightarrow> list_all (\<lambda>(k, v). sound_raw k \<and> sound_json v) ms \<Longrightarrow> P a \<Longrightarrow> P a'"
proof (induction ms arbitrary: a)
  case (Cons m ms)
  obtain raw v where m: "m = (raw, v)" by fastforce
  then obtain f a1 where f: "find_field fs (unquote raw) = Some f" "f v a = Some a1" "decode_members fs ms a1 = Some a'"
    using Cons.prems(1) by (auto split: option.splits)
  then obtain n where "(n, f) \<in> set fs"
    by (auto simp: find_field_def find_Some_iff split: option.splits) (metis nth_mem)+
  then show ?case
    using Cons.IH[OF f(3)] Cons.prems f(2) assms by (auto simp: m)
qed simp

lemma decode_strict_sound:
  assumes "decode_strict fs zero b = Inr x" "P zero"
    and "\<And>n f v a a'. (n, f) \<in> set fs \<Longrightarrow> sound_json v \<Longrightarrow> P a \<Longrightarrow> f v a = Some a' \<Longrightarrow> P a'"
  shows "P x"
proof -
  from assms(1) obtain ls v where ls: "lex b = Some ls" "parse_value (length ls) ls = Some (v, [])"
    "decode_struct fs v zero = Some x"
    by (auto simp: decode_strict_def split: option.splits prod.splits if_splits)
  have "sound_json v"
    using lex_sound[OF ls(1)] parse_sound(1)[OF ls(2)] sound_toks(1) by simp
  then show ?thesis
    using ls(3) assms(2)
  proof (cases v)
    case (JObject ms)
    show ?thesis
    proof (rule decode_members_keeps[of fs P ms zero x])
      show "P a'" if "(n, f) \<in> set fs" "sound_json w" "P a" "f w a = Some a'" for n f w a a'
        using that by (rule assms(3))
    qed (use ls(3) assms(2) \<open>sound_json v\<close> JObject in simp_all)
  qed simp_all
qed

text \<open>Profiles whose strings are well-formed and whose numbers are of type \<open>int\<close>.\<close>

definition good_spec :: "Spec \<Rightarrow> bool" where
  "good_spec s \<longleftrightarrow> int64_range (sp_Version s) \<and> utf8_Valid (sp_Label s) \<and> list_all utf8_Valid (spec_args s)
     \<and> int64_range (sp_TimeoutSeconds s) \<and> int64_range (sp_MaxOutputBytes s)
     \<and> (\<forall>k v. fmlookup (sp_Inputs s) k = Some v \<longrightarrow> utf8_Valid k \<and> utf8_Valid v)"

lemma decode_string_good: "decode_string v a = Some x \<Longrightarrow> sound_json v \<Longrightarrow> utf8_Valid a \<Longrightarrow> utf8_Valid x"
  by (cases v) (auto simp: utf8_unquote)

lemma decode_int_good: "decode_int v a = Some x \<Longrightarrow> int64_range a \<Longrightarrow> int64_range x"
  by (cases v) (auto split: option.splits if_splits)

lemma decode_elements_good: "decode_elements vs = Some xs \<Longrightarrow> list_all sound_json vs \<Longrightarrow> list_all utf8_Valid xs"
  by (induction vs arbitrary: xs) (auto split: option.splits dest: decode_string_good)

lemma decode_entries_good:
  "decode_entries ms m = Some m' \<Longrightarrow> list_all (\<lambda>(k, v). sound_raw k \<and> sound_json v) ms \<Longrightarrow>
     \<forall>k v. fmlookup m k = Some v \<longrightarrow> utf8_Valid k \<and> utf8_Valid v \<Longrightarrow>
     fmlookup m' k = Some x \<Longrightarrow> utf8_Valid k \<and> utf8_Valid x"
proof (induction ms m rule: decode_entries.induct)
  case (2 raw v ms m)
  then obtain y where y: "decode_string v [] = Some y" "decode_entries ms (fmupd (unquote raw) y m) = Some m'"
    by (auto split: option.splits)
  show ?case
  proof (rule 2(1)[OF y(1,2)])
    show "\<forall>k v. fmlookup (fmupd (unquote raw) y m) k = Some v \<longrightarrow> utf8_Valid k \<and> utf8_Valid v"
      using 2(3,4) y(1) decode_string_good[OF y(1)] utf8_unquote by auto
  qed (use 2 in auto)
qed auto

lemma decode_spec_good:
  assumes "decode_strict spec_fields zero_spec b = Inr s"
  shows "good_spec s"
  using assms
proof (rule decode_strict_sound)
  show "good_spec zero_spec"
    by (simp add: good_spec_def zero_spec_def spec_args_def int64_range_def)
next
  fix n f v a a'
  assume "(n, f) \<in> set spec_fields" and v: "sound_json v" and a: "good_spec a" and f: "f v a = Some a'"
  then consider "f = snd (field n decode_int sp_Version sp_Version_update)"
    | "f = snd (field n decode_string sp_Label sp_Label_update)"
    | "f = snd (field n decode_slice sp_Arguments sp_Arguments_update)"
    | "f = snd (field n decode_int sp_TimeoutSeconds sp_TimeoutSeconds_update)"
    | "f = snd (field n decode_int sp_MaxOutputBytes sp_MaxOutputBytes_update)"
    | "f = snd (field n decode_map sp_Inputs sp_Inputs_update)"
    by (auto simp: spec_fields_def field_def)
  then show "good_spec a'"
  proof cases
    case 3
    then show ?thesis
      using f a v by (cases v) (auto simp: field_def good_spec_def spec_args_def dest: decode_elements_good)
  next
    case 6
    then obtain m where m: "decode_map v (sp_Inputs a) = Some m" and a': "a' = a\<lparr>sp_Inputs := m\<rparr>"
      using f by (auto simp: field_def)
    have old: "\<forall>k v. fmlookup (sp_Inputs a) k = Some v \<longrightarrow> utf8_Valid k \<and> utf8_Valid v"
      using a by (simp add: good_spec_def)
    have "utf8_Valid k \<and> utf8_Valid x" if "fmlookup m k = Some x" for k x
    proof (cases v)
      case (JObject ms)
      then show ?thesis
        using decode_entries_good[of ms "sp_Inputs a" m k x] m v old that by simp
    qed (use m that in auto)
    then show ?thesis
      using a by (simp add: a' good_spec_def spec_args_def)
  qed (use f a v decode_int_good decode_string_good in \<open>auto simp: field_def good_spec_def spec_args_def\<close>)
qed


section \<open>An indented text is read back\<close>

lemma lex_space: "json_space c \<Longrightarrow> lex (c # t) = lex t"
  by (subst lex.simps) simp

lemma lex_newline [simp]: "lex (newline d @ t) = lex t"
proof -
  have "lex (replicate n (CHR '' '') @ t) = lex t" for n
    by (induction n) (simp_all add: lex_space code_def)
  then show ?thesis
    by (simp add: newline_def lex_space code_def)
qed

lemma number_end_newline [simp]: "number_end (newline d @ t)"
  by (simp add: newline_def)

lemma lex_indent:
  "lexable_json v \<Longrightarrow> number_end t \<Longrightarrow> lex (indent d v @ t) = prepend (toks v) (lex t)"
  "list_all lexable_json vs \<Longrightarrow> number_end t \<Longrightarrow>
     lex (indent_elements d vs @ t) = prepend (toks_elements vs) (lex t)"
  "list_all (\<lambda>(k, v). lexable (LString k) \<and> lexable_json v) ms \<Longrightarrow> number_end t \<Longrightarrow>
     lex (indent_members d ms @ t) = prepend (toks_members ms) (lex t)"
proof (induction d v and d vs and d ms arbitrary: t and t and t rule: indent_indent_elements_indent_members.induct)
  case (1 d vs)
  then show ?case
    using lex_lexeme[of LBrack] lex_lexeme[of RBrack t] by simp
next
  case (2 d ms)
  then show ?case
    using lex_lexeme[of LBrace] lex_lexeme[of RBrace t] by simp
next
  case (5 d v vs)
  then show ?case
    using lex_lexeme[of Comma] by simp
next
  case (7 d k v ms)
  then show ?case
    using lex_lexeme[of Comma] lex_lexeme[of "LString k"] lex_lexeme[of Colon]
    by (simp add: lex_space code_def)
qed (use lex_toks(1)[of JNull] lex_toks(1)[of "JBool _"] lex_toks(1)[of "JNumber _"] lex_toks(1)[of "JString _"]
  in \<open>simp_all add: json_text_def\<close>)

lemma lexable_spec: "good_spec s \<Longrightarrow> lexable_json (spec_json s)"
proof -
  assume s: "good_spec s"
  have "lexable_json (JObject (map (\<lambda>(k, v). (escape k, jstr v)) (go_range (sp_Inputs s))))"
    using s by (auto simp: good_spec_def list_all_iff) blast
  moreover have "lexable_json (JArray (map jstr xs))" if "list_all utf8_Valid xs" for xs
    using that by (auto simp: list_all_iff)
  ultimately show ?thesis
    using s by (cases "sp_Arguments s")
      (simp_all add: spec_json_def good_spec_def spec_args_def lexable_key key_char_def code_def)
qed

lemma decode_entries_range:
  "(\<And>k v. (k, v) \<in> set es \<Longrightarrow> utf8_Valid k \<and> utf8_Valid v) \<Longrightarrow>
     decode_entries (map (\<lambda>(k, v). (escape k, jstr v)) es) m = Some (fold (\<lambda>(k, v). fmupd k v) es m)"
proof (induction es arbitrary: m)
  case (Cons e es)
  obtain k v where e: "e = (k, v)" by fastforce
  then have "utf8_Valid k" "utf8_Valid v"
    using Cons.prems[of k v] by simp_all
  moreover have "decode_entries (map (\<lambda>(k, v). (escape k, jstr v)) es) m' = Some (fold (\<lambda>(k, v). fmupd k v) es m')" for m'
    using Cons.prems by (intro Cons.IH) auto
  ultimately show ?case
    by (simp add: e unquote_escape)
qed simp

lemma lookup_fold: "distinct (map fst es) \<Longrightarrow>
    fmlookup (fold (\<lambda>(k, v). fmupd k v) es m) k = (case map_of es k of Some v \<Rightarrow> Some v | None \<Rightarrow> fmlookup m k)"
proof (induction es arbitrary: m)
  case (Cons e es)
  then have "map_of es (fst e) = None"
    by (simp add: map_of_eq_None_iff)
  then show ?case
    using Cons by (cases e) (auto split: option.split)
qed simp

lemma map_of_range: "map_of (go_range m) k = fmlookup m k"
  by (cases "fmlookup m k") (auto simp: map_of_eq_None_iff image_iff)

lemma fold_range: "fold (\<lambda>(k, v). fmupd k v) (go_range m) fmempty = m"
  by (rule fmap_ext) (simp add: lookup_fold map_of_range split: option.split)

lemma decode_spec_json:
  assumes "good_spec s"
  shows "decode_struct spec_fields (spec_json s) zero_spec = Some s"
proof -
  have "decode_entries (map (\<lambda>(k, v). (escape k, jstr v)) (go_range (sp_Inputs s))) fmempty = Some (sp_Inputs s)"
    using assms by (subst decode_entries_range) (auto simp: good_spec_def fold_range)
  moreover have "sp_Arguments s = Some xs \<Longrightarrow> decode_elements (map jstr xs) = Some xs" for xs
    using assms by (intro decode_jstrs) (simp add: good_spec_def spec_args_def)
  ultimately show ?thesis
    using assms by (cases "sp_Arguments s")
      (simp_all add: spec_json_def spec_fields_def field_def find_field_def unquote_key key_char_def code_def
        good_spec_def zero_spec_def)
qed

lemma decode_indented:
  assumes "good_spec s"
  shows "decode_strict spec_fields zero_spec (indent 0 (spec_json s) @ [CHR 0x0A]) = Inr s"
proof -
  have "lex [CHR 0x0A] = Some []"
    by (simp add: lex_space code_def)
  moreover have "number_end [CHR 0x0A]"
    by simp
  ultimately have "lex (indent 0 (spec_json s) @ [CHR 0x0A]) = Some (toks (spec_json s))"
    using lex_indent(1)[OF lexable_spec[OF assms]] by (simp add: prepend_def)
  then show ?thesis
    using parse_complete(1)[of "spec_json s" _ "[]"] decode_spec_json[OF assms] by (simp add: decode_strict_def)
qed


section \<open>A new file is in nobody's way\<close>

lemma contents_put: "p \<noteq> [] \<Longrightarrow> node_at fs p = None \<Longrightarrow> contents fs q = Some b \<Longrightarrow> contents (put_node p n fs) q = Some b"
  by (auto simp: contents_def split: if_splits option.splits)

lemma ReadFile_put: "p \<noteq> [] \<Longrightarrow> node_at fs p = None \<Longrightarrow> ReadFile fs q = Some b \<Longrightarrow> ReadFile (put_node p n fs) q = Some b"
  by (auto simp: ReadFile_def walk_put contents_put split: option.splits)

lemma plain_file_put:
  "p \<noteq> [] \<Longrightarrow> node_at fs p = None \<Longrightarrow> plain_file fs d xs b \<Longrightarrow> plain_file (put_node p n fs) d xs b"
  by (induction fs d xs b rule: plain_file.induct) (auto simp: searchable_put split: if_splits)

lemma input_file_put:
  "p \<noteq> [] \<Longrightarrow> node_at fs p = None \<Longrightarrow> input_file fs root rel b \<Longrightarrow> input_file (put_node p n fs) root rel b"
  by (auto simp: input_file_def walk_put plain_file_put)

lemma locate_put:
  "p \<noteq> [] \<Longrightarrow> node_at fs p = None \<Longrightarrow> locate os fs prog ws = Some l \<Longrightarrow> locate os (put_node p n fs) prog ws = Some l"
  by (auto simp: locate_def EvalSymlinks_def walk_put split: sum.splits option.splits)

lemma CreatePath_read:
  assumes "CreatePath os fs s = Some q" "\<not> fs_Denied fs q"
  shows "ReadPath os (put_node q (File b) fs) s = Some b" "q \<noteq> []" "node_at fs q = None"
proof -
  have ne: "Split_slash s \<noteq> []"
    by (cases s) (auto split: list.split)
  from assms(1) obtain d where d: "walk fs MaxLinks (start s (os_Dir os)) (butlast (Split_slash s)) True = Some d"
    "create_in fs (Some d) (last (Split_slash s)) = Some q"
    by (auto simp: CreatePath_def create_in_Some Let_def)
  show "q \<noteq> []" "node_at fs q = None"
    using d(2) by (auto simp: create_in_Some)
  have "s \<noteq> []"
    using d(2) by (auto simp: create_in_Some)
  then show "ReadPath os (put_node q (File b) fs) s = Some b"
    using created_walk[OF d] ne assms(2) \<open>q \<noteq> []\<close> by (simp add: ReadPath_def contents_def)
qed

section \<open>Prepare\<close>

text \<open>An entry whose pinned digest is that of the present bytes, or of these with CRLF made LF.\<close>

definition adoptable :: "files \<Rightarrow> path \<Rightarrow> string \<times> string \<Rightarrow> string \<Rightarrow> bool" where
  "adoptable fs root e b \<longleftrightarrow> input_file fs root (fst e) b \<and> snd e \<in> {sum256 b, sum256 (crlf_to_lf b)}"

definition repin :: "string \<times> string \<Rightarrow> string \<Rightarrow> string \<times> string" where
  "repin e b = (fst e, sum256 b)"

lemma prepare_entries_Inr:
  "prepare_entries fs root es sz m = Inr m' \<Longrightarrow>
     \<exists>bs. list_all2 (adoptable fs root) es bs \<and> (es = [] \<or> sz + sum_list (map length bs) \<le> 16 * MiB)
       \<and> m' = fold (\<lambda>(k, v). fmupd k v) (map2 repin es bs) m"
proof (induction es arbitrary: sz m)
  case (Cons e es)
  obtain rel h where e: "e = (rel, h)" by fastforce
  from Cons.prems obtain b where b: "readInput fs root rel = Inr b" "sz + length b \<le> 16 * MiB"
    "h = sum256 b \<or> h = sum256 (crlf_to_lf b)"
    and rest: "prepare_entries fs root es (sz + length b) (fmupd rel (sum256 b) m) = Inr m'"
    by (auto simp: e bindR_Inr split: if_splits)
  from Cons.IH[OF rest] obtain bs where bs: "list_all2 (adoptable fs root) es bs"
    "es = [] \<or> sz + length b + sum_list (map length bs) \<le> 16 * MiB"
    "m' = fold (\<lambda>(k, v). fmupd k v) (map2 repin es bs) (fmupd rel (sum256 b) m)" by blast
  have "list_all2 (adoptable fs root) (e # es) (b # bs)"
    using b bs(1) by (auto simp: e adoptable_def readInput_Inr)
  moreover have "sz + sum_list (map length (b # bs)) \<le> 16 * MiB"
    using bs(1,2) b(2) by auto
  moreover have "m' = fold (\<lambda>(k, v). fmupd k v) (map2 repin (e # es) (b # bs)) m"
    using bs(3) by (simp add: e repin_def)
  ultimately show ?case by blast
qed simp

lemma repin_keys: "list_all2 P es bs \<Longrightarrow> map fst (map2 repin es bs) = map fst es"
  by (induction rule: list_all2_induct) (simp_all add: repin_def)

text \<open>The entries of the new profile, in the order of the map.\<close>

lemma repinned_range:
  assumes "list_all2 P (go_range m) bs" "m' = fold (\<lambda>(k, v). fmupd k v) (map2 repin (go_range m) bs) m"
  shows "mset (go_range m') = mset (map2 repin (go_range m) bs)"
proof -
  let ?es = "map2 repin (go_range m) bs"
  have keys: "map fst ?es = go_keys m"
    by (rule repin_keys[OF assms(1)])
  then have dist: "distinct (map fst ?es)"
    by simp
  have look: "fmlookup m' k = map_of ?es k" for k
  proof (cases "map_of ?es k")
    case None
    then have "k \<notin> set (go_keys m)"
      unfolding keys[symmetric] map_of_eq_None_iff set_map .
    then have "fmlookup m k = None"
      unfolding set_go_keys by simp
    then show ?thesis
      unfolding assms(2) lookup_fold[OF dist] using None by simp
  qed (simp add: assms(2) lookup_fold[OF dist])
  have "set (go_range m') = set ?es"
    unfolding set_go_range look using map_of_eq_Some_iff[OF dist] by auto
  moreover have "distinct (go_range m')" "distinct ?es"
    using dist sorted_go_range(2)[of m'] unfolding distinct_map by simp_all
  ultimately show ?thesis
    using set_eq_iff_mset_eq_distinct by blast
qed

lemma sum256_shape: "hashPattern (sum256 b)" "utf8_Valid (sum256 b)"
proof -
  have "list_all lower_hex ''0123456789abcdef''"
    by (simp add: lower_hex_def is_digit_def code_def)
  then have "lower_hex c" if "is_hex_char c" for c
    using that unfolding is_hex_char_def list_all_iff by blast
  then have "list_all lower_hex (sum256 b)"
    using sha256_hex_digits[of b] by (simp add: sum256_def list_all_iff)
  then show "hashPattern (sum256 b)"
    by (simp add: hashPattern_def sum256_def)
  have "\<And>c. c \<in> set (sum256 b) \<Longrightarrow> code c < 128"
    using \<open>list_all lower_hex (sum256 b)\<close> by (fastforce simp: list_all_iff lower_hex_def is_digit_def)
  then show "utf8_Valid (sum256 b)"
    by (rule utf8_Valid_ascii)
qed


lemma return_option: "(case x of None \<Rightarrow> Inl e | Some v \<Rightarrow> f v) = Inr r \<longleftrightarrow> (\<exists>v. x = Some v \<and> f v = Inr r)"
  by (cases x) auto

lemma return_if: "(if b then Inl e else m) = Inr r \<longleftrightarrow> \<not> b \<and> m = Inr r"
  by simp

lemma Load_Inr:
  "Load os fs specPath program workspace = Inr (c, e) \<longleftrightarrow>
     (\<exists>data s prog ws info exe. ReadPath os fs specPath = Some data \<and> length data \<le> 64 * KiB
        \<and> decode_strict spec_fields zero_spec data = Inr s \<and> check_spec s
        \<and> locate os fs program workspace = Some (prog, ws) \<and> Lstat fs ws = Some Dir
        \<and> Lstat fs prog = Some (File info) \<and> length info \<le> 256 * MiB \<and> ReadFile fs prog = Some exe
        \<and> c = \<lparr>sc_Spec = s, sc_Program = prog, sc_Workspace = ws,
            sc_Digest = config_digest s (sum256 exe) ws prog, sc_programSum = sum256 exe\<rparr>
        \<and> e = CheckInputs fs c)"
proof -
  have len: "length (take (64 * KiB + 1) data) > 64 * KiB \<longleftrightarrow> length data > 64 * KiB" for data :: string
    by auto
  have reg: "regular fs p = Inr b \<longleftrightarrow> Lstat fs p = Some (File b)" for p b
    by (auto simp: regular_def split: option.split node.split)
  show ?thesis (is "_ \<longleftrightarrow> ?r")
  proof
    show "Load os fs specPath program workspace = Inr (c, e) \<Longrightarrow> ?r"
      unfolding Load_def Let_def len return_option return_if bindR_Inr
      by (auto simp: not_less return_option return_if bindR_Inr reg simp del: if_split)
    show "?r \<Longrightarrow> Load os fs specPath program workspace = Inr (c, e)"
      by (auto simp: Load_def Let_def regular_def)
  qed
qed

lemma fmdom_repin:
  assumes "list_all2 P (go_range m) bs" "m' = fold (\<lambda>(k, v). fmupd k v) (map2 repin (go_range m) bs) m"
  shows "length (go_range m') = length (go_range m)" "fmlookup m' k = None \<longleftrightarrow> fmlookup m k = None"
proof -
  have len: "length bs = length (go_range m)"
    using assms(1) by (simp add: list_all2_lengthD)
  show "length (go_range m') = length (go_range m)"
    using mset_eq_length[OF repinned_range[OF assms]] len by simp
  have "set (go_keys m') = fst ` set (map2 repin (go_range m) bs)"
    using mset_eq_setD[OF repinned_range[OF assms]] by simp
  also have "\<dots> = set (go_keys m)"
    using repin_keys[OF assms(1)] by (metis set_map)
  finally show "fmlookup m' k = None \<longleftrightarrow> fmlookup m k = None"
    unfolding set_go_keys set_eq_iff mem_Collect_eq by (metis not_Some_eq)
qed

text \<open>The profile that \<open>Prepare\<close> writes, from the one that was given.\<close>

definition prepared :: "files \<Rightarrow> path \<Rightarrow> Spec \<Rightarrow> Spec \<Rightarrow> bool" where
  "prepared fs ws s s' \<longleftrightarrow> s'\<lparr>sp_Inputs := sp_Inputs s\<rparr> = s \<and> fmdom (sp_Inputs s') = fmdom (sp_Inputs s)
     \<and> (\<forall>rel old. fmlookup (sp_Inputs s) rel = Some old \<longrightarrow>
          (\<exists>b. input_file fs ws rel b \<and> old \<in> {sum256 b, sum256 (crlf_to_lf b)}
             \<and> fmlookup (sp_Inputs s') rel = Some (sum256 b)))"

lemma repin_prepared:
  assumes "list_all2 (adoptable fs ws) (go_range m) bs" "m' = fold (\<lambda>(k, v). fmupd k v) (map2 repin (go_range m) bs) m"
    and "m = sp_Inputs s"
  shows "prepared fs ws s (s\<lparr>sp_Inputs := m'\<rparr>)"
proof -
  have "\<exists>b. input_file fs ws rel b \<and> old \<in> {sum256 b, sum256 (crlf_to_lf b)} \<and> fmlookup m' rel = Some (sum256 b)"
    if "fmlookup m rel = Some old" for rel old
  proof -
    from that have "(rel, old) \<in> set (go_range m)" by simp
    then obtain i where i: "i < length (go_range m)" "go_range m ! i = (rel, old)"
      by (auto simp: in_set_conv_nth)
    then have a: "adoptable fs ws (rel, old) (bs ! i)"
      using list_all2_nthD[OF assms(1) i(1)] by simp
    have len: "length bs = length (go_range m)"
      using assms(1) by (simp add: list_all2_lengthD)
    then have "repin (rel, old) (bs ! i) \<in> set (map2 repin (go_range m) bs)"
      using i nth_mem[of i "map2 repin (go_range m) bs"] by simp
    then have "(rel, sum256 (bs ! i)) \<in> set (go_range m')"
      using mset_eq_setD[OF repinned_range[OF assms(1,2)]] by (simp add: repin_def)
    then show ?thesis
      using a by (auto simp: adoptable_def)
  qed
  moreover have "fmdom m' = fmdom m"
    unfolding fset_eq_iff fmlookup_dom_iff using fmdom_repin(2)[OF assms(1,2)] by (metis not_Some_eq)
  ultimately show ?thesis
    using assms(3) by (simp add: prepared_def)
qed


lemma spec_with_inputs:
  assumes "good_spec s" "check_spec s" "list_all2 P (go_range (sp_Inputs s)) bs"
    and "m' = fold (\<lambda>(k, v). fmupd k v) (map2 repin (go_range (sp_Inputs s)) bs) (sp_Inputs s)"
  shows "good_spec (s\<lparr>sp_Inputs := m'\<rparr>)" "check_spec (s\<lparr>sp_Inputs := m'\<rparr>)"
proof -
  note es = mset_eq_setD[OF repinned_range[OF assms(3,4)]]
  have sums: "\<exists>b. v = sum256 b" if "fmlookup m' k = Some v" for k v
  proof -
    from that have "(k, v) \<in> set (map2 repin (go_range (sp_Inputs s)) bs)"
      unfolding es[symmetric] by simp
    then show ?thesis by (auto simp: repin_def)
  qed
  have "utf8_Valid k" if "fmlookup m' k = Some v" for k v
  proof -
    have "fmlookup (sp_Inputs s) k \<noteq> None"
      using fmdom_repin(2)[OF assms(3,4), of k] that by simp
    then show ?thesis
      using assms(1) by (auto simp: good_spec_def)
  qed
  moreover have "utf8_Valid v" if "fmlookup m' k = Some v" for k v
    using sums[OF that] sum256_shape by auto
  ultimately show "good_spec (s\<lparr>sp_Inputs := m'\<rparr>)"
    using assms(1) by (simp add: good_spec_def spec_args_def)
  have "list_all hashPattern (go_values m')"
    unfolding list_all_iff using sums sum256_shape by fastforce
  then show "check_spec (s\<lparr>sp_Inputs := m'\<rparr>)"
    using assms(2) fmdom_repin(1)[OF assms(3,4)] by (simp add: check_spec_def spec_args_def)
qed

lemma Prepare_Inr:
  assumes "Prepare os fs specPath program workspace output ans = (Inr u, fs')"
  obtains c e bs m' q where "Load os fs specPath program workspace = Inr (c, e)"
    "list_all2 (adoptable fs (sc_Workspace c)) (go_range (sp_Inputs (sc_Spec c))) bs"
    "sum_list (map length bs) \<le> 16 * MiB"
    "m' = fold (\<lambda>(k, v). fmupd k v) (map2 repin (go_range (sp_Inputs (sc_Spec c))) bs) (sp_Inputs (sc_Spec c))"
    "length (indent 0 (spec_json ((sc_Spec c)\<lparr>sp_Inputs := m'\<rparr>))) + 1 \<le> 64 * KiB"
    "CreatePath os fs output = Some q"
    "fs' = put_node q (File (indent 0 (spec_json ((sc_Spec c)\<lparr>sp_Inputs := m'\<rparr>)) @ [CHR 0x0A])) fs"
proof -
  from assms obtain c e where c: "Load os fs specPath program workspace = Inr (c, e)"
    by (auto simp: Prepare_def split: sum.splits)
  let ?es = "go_range (sp_Inputs (sc_Spec c))"
  from assms c obtain m' where m': "prepare_entries fs (sc_Workspace c) ?es 0 (sp_Inputs (sc_Spec c)) = Inr m'"
    by (auto simp: Prepare_def split: sum.splits)
  from prepare_entries_Inr[OF m'] obtain bs where "list_all2 (adoptable fs (sc_Workspace c)) ?es bs"
    "?es = [] \<or> sum_list (map length bs) \<le> 16 * MiB" "m' = fold (\<lambda>(k, v). fmupd k v) (map2 repin ?es bs) (sp_Inputs (sc_Spec c))"
    by auto
  moreover from this have "sum_list (map length bs) \<le> 16 * MiB" by auto
  moreover have "length (indent 0 (spec_json ((sc_Spec c)\<lparr>sp_Inputs := m'\<rparr>))) + 1 \<le> 64 * KiB"
    "\<exists>q. CreatePath os fs output = Some q
      \<and> fs' = put_node q (File (indent 0 (spec_json ((sc_Spec c)\<lparr>sp_Inputs := m'\<rparr>)) @ [CHR 0x0A])) fs"
    using assms c m' by (auto simp: Prepare_def Let_def write_new_Inr split: if_splits)
  ultimately show ?thesis
    using that c by blast
qed

text \<open>What was prepared is loaded, and the inputs match it.\<close>

lemma Prepare_loads:
  assumes "Prepare os fs specPath program workspace output ans = (Inr u, fs')"
    and "\<And>q. CreatePath os fs output = Some q \<Longrightarrow> \<not> fs_Denied fs q"
  shows "\<exists>c e s'. Load os fs specPath program workspace = Inr (c, e) \<and> prepared fs (sc_Workspace c) (sc_Spec c) s'
    \<and> Load os fs' output program workspace = Inr (c\<lparr>sc_Spec := s',
        sc_Digest := config_digest s' (sc_programSum c) (sc_Workspace c) (sc_Program c)\<rparr>, Inr ())"
  using assms(1)
proof (rule Prepare_Inr)
  fix c e bs m' q
  assume load: "Load os fs specPath program workspace = Inr (c, e)"
    and bs: "list_all2 (adoptable fs (sc_Workspace c)) (go_range (sp_Inputs (sc_Spec c))) bs"
      "sum_list (map length bs) \<le> 16 * MiB"
    and m': "m' = fold (\<lambda>(k, v). fmupd k v) (map2 repin (go_range (sp_Inputs (sc_Spec c))) bs) (sp_Inputs (sc_Spec c))"
    and len: "length (indent 0 (spec_json ((sc_Spec c)\<lparr>sp_Inputs := m'\<rparr>))) + 1 \<le> 64 * KiB"
    and q: "CreatePath os fs output = Some q"
    and fs': "fs' = put_node q (File (indent 0 (spec_json ((sc_Spec c)\<lparr>sp_Inputs := m'\<rparr>)) @ [CHR 0x0A])) fs"
  let ?s = "(sc_Spec c)\<lparr>sp_Inputs := m'\<rparr>"
  from load[unfolded Load_Inr] obtain data prog ws info exe where
    spec: "decode_strict spec_fields zero_spec data = Inr (sc_Spec c)" "check_spec (sc_Spec c)"
    and loc: "locate os fs program workspace = Some (prog, ws)" "Lstat fs ws = Some Dir"
      "Lstat fs prog = Some (File info)" "length info \<le> 256 * MiB" "ReadFile fs prog = Some exe"
    and c: "sc_Program c = prog" "sc_Workspace c = ws" "sc_programSum c = sum256 exe"
    by auto
  note new = CreatePath_read[OF q assms(2)[OF q]]
  note good = spec_with_inputs[OF decode_spec_good[OF spec(1)] spec(2) bs(1) m']
  define c' where "c' = \<lparr>sc_Spec = ?s, sc_Program = prog, sc_Workspace = ws,
    sc_Digest = config_digest ?s (sum256 exe) ws prog, sc_programSum = sum256 exe\<rparr>"
  have "list_all2 (matching fs' ws) (map2 repin (go_range (sp_Inputs (sc_Spec c))) bs) bs"
    using bs(1) unfolding c
  proof (induction rule: list_all2_induct)
    case (Cons e es b bs)
    then show ?case
      using input_file_put[OF new(2,3)] by (simp add: matching_def repin_def adoptable_def fs')
  qed simp
  then have "check_entries fs' ws (map2 repin (go_range (sp_Inputs (sc_Spec c))) bs) 0 = Inr ()"
    using check_entries_Inr[of 0 fs' ws] bs(2) by auto
  then have "CheckInputs fs' c' = Inr ()"
    using check_entries_order[OF repinned_range[OF bs(1) m'], of fs' ws] by (simp add: CheckInputs_def c'_def)
  moreover have "decode_strict spec_fields zero_spec (indent 0 (spec_json ?s) @ [CHR 0x0A]) = Inr ?s"
    by (rule decode_indented[OF good(1)])
  ultimately have "Load os fs' output program workspace = Inr (c', Inr ())"
    unfolding Load_Inr using new good(2) loc len locate_put[OF new(2,3) loc(1)] Lstat_put[OF new(2,3) loc(2)]
      Lstat_put[OF new(2,3) loc(3)] ReadFile_put[OF new(2,3) loc(5)]
    by (auto simp: fs' c'_def)
  then show ?thesis
    using load repin_prepared[OF bs(1) m' refl] c by (intro exI[of _ c] exI[of _ e] exI[of _ ?s]) (simp add: c'_def)
qed

end
