(* ===== verification/LocalFacts.thy ===== *)
theory LocalFacts
  imports LocalService LocalProfile Demo
begin

text \<open>
  What the local check service establishes: all it does to the store is work of the store, a check whose
  task exists never reaches the worker, and the text of a receipt is read back.
\<close>

section \<open>Runs of the service are work of the store\<close>

lemma bindL_eq: "bindL m f h = (y, h') \<longleftrightarrow> (\<exists>x h1. m h = (x, h1) \<and> f x h1 = (y, h'))"
  by (auto simp: bindL_def split: prod.splits)

lemma retL_eq: "retL x h = (y, h') \<longleftrightarrow> y = x \<and> h' = h"
  by (auto simp: retL_def)

text \<open>An early return was not taken.\<close>

lemma earlyL_Inl: "(case r of Inl e \<Rightarrow> retL (Inl (g e)) | Inr v \<Rightarrow> f v) h = (Inr y, h') \<longleftrightarrow> (\<exists>v. r = Inr v \<and> f v h = (Inr y, h'))"
  by (cases r) (auto simp: retL_eq)

lemma earlyL_Inr: "(case r of Inl e \<Rightarrow> f e | Inr v \<Rightarrow> retL (Inl (g v))) h = (Inr y, h') \<longleftrightarrow> (\<exists>e. r = Inl e \<and> f e h = (Inr y, h'))"
  by (cases r) (auto simp: retL_eq)

lemma earlyL_if: "(if b then retL (Inl e) else m) h = (Inr y, h') \<longleftrightarrow> \<not> b \<and> m h = (Inr y, h')"
  by (simp add: retL_eq)

lemmas earlyL = earlyL_Inl earlyL_Inr earlyL_if

lemma andL_sum: "(case r of Inl e \<Rightarrow> retL (Inl e) | Inr v \<Rightarrow> f v) h = (Inr y, h') \<longleftrightarrow> (\<exists>v. r = Inr v \<and> f v h = (Inr y, h'))"
  by (cases r) (auto simp: retL_eq)

lemma andL_Inr: "andL m f h = (Inr y, h') \<longleftrightarrow> (\<exists>x h1. m h = (Inr x, h1) \<and> f x h1 = (Inr y, h'))"
  unfolding andL_def bindL_eq andL_sum by blast

lemma on_host_eq: "on_host m h = (x, h') \<longleftrightarrow> (\<exists>g. m (lh_Host h) = (x, g) \<and> h' = h\<lparr>lh_Host := g\<rparr>)"
  by (auto simp: on_host_def split: prod.splits)

abbreviation repo_of :: "lhost \<Rightarrow> Repository" where
  "repo_of h \<equiv> h_Repo (lh_Host h)"

definition toilsL :: "marshal \<Rightarrow> 'a lio \<Rightarrow> bool" where
  "toilsL mj m \<longleftrightarrow> (\<forall>h x h'. m h = (x, h') \<longrightarrow> works mj (repo_of h) (repo_of h'))"

lemma toilsLD: "toilsL mj m \<Longrightarrow> m h = (x, h') \<Longrightarrow> works mj (repo_of h) (repo_of h')"
  by (auto simp: toilsL_def)

lemma toilsL_ret: "toilsL mj (retL x)"
  by (simp add: toilsL_def retL_def works_refl)

lemma toilsL_bind: "toilsL mj m \<Longrightarrow> (\<And>x. toilsL mj (f x)) \<Longrightarrow> toilsL mj (bindL m f)"
  unfolding toilsL_def bindL_def by (auto split: prod.splits) (metis works_trans)

lemma toilsL_and: "toilsL mj m \<Longrightarrow> (\<And>x. toilsL mj (f x)) \<Longrightarrow> toilsL mj (andL m f)"
  unfolding andL_def by (intro toilsL_bind) (auto intro: toilsL_ret split: sum.split)

lemma toilsL_host: "toils mj m \<Longrightarrow> toilsL mj (on_host m)"
  unfolding toilsL_def toils_def by (fastforce simp: on_host_eq)

lemma toilsL_files: "toilsL mj (on_files w f)"
  by (auto simp: toilsL_def on_files_def works_refl split: prod.splits)

lemma toilsL_look: "toilsL mj (look w f)"
  unfolding look_def by (rule toilsL_files)

lemma toilsL_clock: "toilsL mj (clock_now w)"
  unfolding clock_now_def by (intro toilsL_bind toilsL_host toils_time toilsL_ret)

lemma toilsL_time: "toilsL mj (on_host (time_Now w))"
  by (intro toilsL_host toils_time)

lemma toilsL_check: "toilsL mj m \<Longrightarrow> toilsL mj (checkL e m)"
  unfolding checkL_def by (intro toilsL_bind toilsL_ret)

lemma toilsL_read:
  "fair mj (lw_World w) \<Longrightarrow> (\<And>ctx clock r x r'. f ctx clock r = (x, r') \<Longrightarrow> r' = r) \<Longrightarrow> toilsL mj (store_call w f)"
  unfolding store_call_def by (intro toilsL_host toils_read)

lemma toilsL_work:
  "fair mj (lw_World w) \<Longrightarrow> (\<And>ctx clock r x r'. f ctx clock r = (x, r') \<Longrightarrow> work mj r r') \<Longrightarrow> toilsL mj (store_call w f)"
  unfolding store_call_def by (intro toilsL_host toils_store) (auto intro: works_one)

lemma toilsL_reads:
  assumes "fair mj (lw_World w)"
  shows "toilsL mj (store_call w (\<lambda>ctx clock. store_GetTask ctx ident))"
    "toilsL mj (store_call w (\<lambda>ctx clock. store_GetOperation ctx ident))"
    "toilsL mj (store_call w (\<lambda>ctx clock. store_GetAttempt ctx ident))"
    "toilsL mj (store_call w (\<lambda>ctx clock. store_EvidenceForOperation ctx ident))"
  using assms
  by (auto intro!: toilsL_read dest: readValue_same
      simp: store_GetTask_def store_GetOperation_def store_GetAttempt_def store_EvidenceForOperation_def)

lemma toilsL_works:
  assumes "fair mj (lw_World w)"
  shows "toilsL mj (store_call w (\<lambda>ctx clock. store_CreateTask ctx clock ident now))"
    "toilsL mj (store_call w (\<lambda>ctx clock. store_CreateOperation ctx clock d now))"
    "toilsL mj (store_call w (\<lambda>ctx clock. store_RegisterEvidence ctx clock e))"
    "toilsL mj (store_call w (\<lambda>ctx clock. store_MarkReady ctx clock ident rvn now))"
    "toilsL mj (store_call w (\<lambda>ctx clock. store_FinalizeTask ctx clock ident rvn now))"
  using assms by (auto intro!: toilsL_work intro: work.intros)

lemmas toilsL_simple = toilsL_ret toilsL_files toilsL_look toilsL_clock toilsL_time toilsL_check toilsL_reads toilsL_works

lemma toilsL_open: "toilsL mj (open_store w os root create)"
  unfolding open_store_def make_marker_def sqlite_Open_def
  by (auto intro!: toilsL_and toilsL_bind toilsL_simple split: sum.split)

lemma toilsL_load: "toilsL mj (loadReceipt w root ident)"
  unfolding loadReceipt_def by (auto intro!: toilsL_and toilsL_bind toilsL_simple split: sum.split)

lemma toilsL_save: "toilsL mj (saveReceipt w root ident r)"
  unfolding saveReceipt_def by (auto intro!: toilsL_simple split: sum.split)

lemma toilsL_finalize: "fair mj (lw_World w) \<Longrightarrow> toilsL mj (finalize_check w ident)"
  unfolding finalize_check_def by (auto intro!: toilsL_and toilsL_bind toilsL_simple)

lemma toilsL_process: "fair mj (lw_World w) \<Longrightarrow> toilsL mj (on_host (process mj (lw_World w) env f))"
  by (intro toilsL_host toils_process)

lemma toilsL_verify: "fair mj (lw_World w) \<Longrightarrow> toilsL mj (verify_receipt mj w root ident)"
  unfolding verify_receipt_def
  by (auto intro!: toilsL_and toilsL_bind toilsL_simple toilsL_load toilsL_finalize toilsL_process
      split: sum.split prod.split)

lemma toilsL_status: "fair mj (lw_World w) \<Longrightarrow> toilsL mj (check_status w root ident)"
  unfolding check_status_def Let_def
  by (auto intro!: toilsL_bind toilsL_simple toilsL_load split: sum.split)

lemma toilsL_prepare: "fair mj (lw_World w) \<Longrightarrow> toilsL mj (prepare_check w c ident)"
  unfolding prepare_check_def by (auto intro!: toilsL_and toilsL_bind toilsL_simple split: sum.split)

lemma toilsL_conclude: "fair mj (lw_World w) \<Longrightarrow> toilsL mj (conclude_check mj w root ident outcome left)"
  unfolding conclude_check_def Let_def
  by (auto intro!: toilsL_bind toilsL_simple toilsL_save toilsL_verify toilsL_status
      split: sum.split prod.split option.split)

lemma Execute_job_Execute: "bindI (Execute_job mj w R req) (\<lambda>(out, _). retI out) = Execute mj w R req"
  by (rule ext) (auto simp: Execute_job_def Execute_def bindI_def retI_def split: prod.split sum.split)

lemma toilsL_Execute: "fair mj w \<Longrightarrow> toilsL mj (on_host (Execute_job mj w R req))"
  unfolding Execute_job_def
  by (auto intro!: toilsL_host toils_bind toils_offer toils_simple toils_dispatch split: sum.split prod.split)

lemma toilsL_Check: "fair mj (lw_World w) \<Longrightarrow> toilsL mj (Check mj w os m root ident config)"
  unfolding Check_def Let_def
  by (auto intro!: toilsL_bind toilsL_simple toilsL_open toilsL_prepare toilsL_Execute toilsL_conclude
      split: sum.split prod.split)

lemma toilsL_Status: "fair mj (lw_World w) \<Longrightarrow> toilsL mj (Status w os root ident)"
  unfolding Status_def by (auto intro!: toilsL_bind toilsL_simple toilsL_open toilsL_status split: sum.split)

lemma toilsL_Recover: "fair mj (lw_World w) \<Longrightarrow> toilsL mj (Recover mj w os root ident)"
  unfolding Recover_def
  by (auto intro!: toilsL_bind toilsL_simple toilsL_open toilsL_status toilsL_verify split: sum.split)


section \<open>A check runs once\<close>

lemma store_call_eq: "store_call w f h = (x, h') \<longleftrightarrow>
    (\<exists>ctx clock r r'. ctx = o_Ctx (lw_World w) (h_Tick (lh_Host h)) \<and> clock = o_Now (lw_World w) (h_Tick (lh_Host h))
       \<and> r = o_Others (lw_World w) (h_Tick (lh_Host h)) (repo_of h) \<and> f ctx clock r = (x, r')
       \<and> h' = h\<lparr>lh_Host := \<lparr>h_Repo = r', h_Tick = Suc (h_Tick (lh_Host h))\<rparr>\<rparr>)"
  by (auto simp: store_call_def on_host_eq on_store_def split: prod.splits)

lemma task_stays:
  assumes "works mj r r'" "integrity (repo_d r)" "fmlookup (d_tasks (repo_d r)) ident \<noteq> None"
  shows "fmlookup (d_tasks (repo_d r')) ident \<noteq> None"
proof -
  have "extends (repo_d r) (repo_d r')" using works_good[OF assms(1,2)] by simp
  with assms(3) show ?thesis by (auto dest!: extendsD(1) dest: growsD)
qed

lemma CreateTask_Inr:
  assumes "store_CreateTask ctx clock ident now r = (Inr v, r')"
  shows "fmlookup (d_tasks (repo_d r)) ident = None" "fmlookup (d_tasks (repo_d r')) ident \<noteq> None"
proof -
  from writeValue_ok[OF assms[unfolded store_CreateTask_def]] obtain t where
    "createTask ident now \<lparr>tx_d = repo_d r, tx_write = True\<rparr> = (Inr v, t)" "repo_d r' = tx_d t"
    by (auto simp: t_CreateTask_def exported_Inr)
  then show "fmlookup (d_tasks (repo_d r)) ident = None" "fmlookup (d_tasks (repo_d r')) ident \<noteq> None"
    by (auto simp: createTask_def Let_def bindS_Inr tx_InsertTask_Inr retS_eq failS_eq split: if_splits)
qed

text \<open>Once prepared, the check has its task; once there is the task, a check is not prepared.\<close>

lemma prepare_check_made:
  assumes "prepare_check w c ident h = (Inr x, h')" "fair mj (lw_World w)" "integrity (repo_d (repo_of h))"
  shows "fmlookup (d_tasks (repo_d (repo_of h'))) ident \<noteq> None"
proof -
  from assms(1) obtain err now h1 h2 v h3 where get: "store_call w (\<lambda>ctx _. store_GetTask ctx ident) h = (Inl err, h1)"
    and now: "clock_now w h1 = (now, h2)"
    and made: "store_call w (\<lambda>ctx clock. store_CreateTask ctx clock ident now) h2 = (Inr v, h3)"
    and rest: "andL (store_call w (\<lambda>ctx clock. store_CreateOperation ctx clock (check_descriptor c ident) now)) (\<lambda>opn.
      andL (store_call w (\<lambda>ctx clock. store_RegisterEvidence ctx clock (intent_record c ident now))) (\<lambda>_.
      andL (store_call w (\<lambda>ctx clock. store_MarkReady ctx clock (operationID ident) (op_Revision opn) now)) (\<lambda>opn.
      retL (Inr (opn, now))))) h3 = (Inr x, h')"
    unfolding prepare_check_def bindL_eq earlyL by blast
  note fair = assms(2)
  have w3: "works mj (repo_of h) (repo_of h3)"
    using toilsLD[OF toilsL_reads(1)[OF fair] get] toilsLD[OF toilsL_clock now] toilsLD[OF toilsL_works(1)[OF fair] made]
      works_trans by blast
  have I3: "integrity (repo_d (repo_of h3))" using works_good[OF w3 assms(3)] by simp
  have "toilsL mj (andL (store_call w (\<lambda>ctx clock. store_CreateOperation ctx clock (check_descriptor c ident) now)) (\<lambda>opn.
      andL (store_call w (\<lambda>ctx clock. store_RegisterEvidence ctx clock (intent_record c ident now))) (\<lambda>_.
      andL (store_call w (\<lambda>ctx clock. store_MarkReady ctx clock (operationID ident) (op_Revision opn) now)) (\<lambda>opn.
      retL (Inr (opn, now))))))"
    using fair by (auto intro!: toilsL_and toilsL_simple)
  from task_stays[OF toilsLD[OF this rest] I3] CreateTask_Inr(2) made show ?thesis
    by (fastforce simp: store_call_eq)
qed

lemma prepare_check_known:
  assumes "prepare_check w c ident h = (r, h')" "fair mj (lw_World w)" "integrity (repo_d (repo_of h))"
    and known: "fmlookup (d_tasks (repo_d (repo_of h))) ident \<noteq> None"
  shows "\<exists>e. r = Inl e"
proof (cases r)
  case (Inr x)
  from assms(1)[unfolded Inr] obtain err now h1 h2 v h3 where get: "store_call w (\<lambda>ctx _. store_GetTask ctx ident) h = (Inl err, h1)"
    and now: "clock_now w h1 = (now, h2)"
    and made: "store_call w (\<lambda>ctx clock. store_CreateTask ctx clock ident now) h2 = (Inr v, h3)"
    unfolding prepare_check_def bindL_eq earlyL by blast
  note fair = assms(2)
  let ?r = "o_Others (lw_World w) (h_Tick (lh_Host h2)) (repo_of h2)"
  have "works mj (repo_of h) (repo_of h2)"
    using toilsLD[OF toilsL_reads(1)[OF fair] get] toilsLD[OF toilsL_clock now] works_trans by blast
  moreover have "works mj (repo_of h2) ?r" using fair by (simp add: fair_def)
  ultimately have "works mj (repo_of h) ?r" using works_trans by blast
  from task_stays[OF this assms(3) known] CreateTask_Inr(1) made show ?thesis
    by (fastforce simp: store_call_eq)
qed simp

text \<open>The run of \<open>Check\<close> up to the task, in which the command does not occur.\<close>

definition check_start :: "lworld \<Rightarrow> os \<Rightarrow> string \<Rightarrow> string \<Rightarrow> SpecConfig \<Rightarrow> (path \<times> Operation \<times> go_time) result lio" where
  "check_start w os root ident config =
     (if \<not> idPattern ident \<or> \<not> validDigest (sc_Digest config) then retL (Inl ErrConfig) else
      andL (look w (\<lambda>fs. CheckInputs fs (config_clone config))) (\<lambda>_.
      andL (open_store w os root True) (\<lambda>dir.
      andL (prepare_check w (config_clone config) ident) (\<lambda>(opn, now). retL (Inr (dir, opn, now))))))"

definition check_rest ::
  "marshal \<Rightarrow> lworld \<Rightarrow> command \<Rightarrow> string \<Rightarrow> SpecConfig \<Rightarrow> path \<times> Operation \<times> go_time \<Rightarrow> (Result \<times> string \<times> error option) lio" where
  "check_rest mj w m ident c = (\<lambda>(dir, opn, now).
     let deadline = now + config_duration c;
         R = \<lparr>rn_controller = controllerActor, rn_worker = command_Worker m c,
           rn_policy = ExactPolicy_Check [check_grant c ident deadline]\<rparr>
     in bindL (on_host (Execute_job mj (lw_World w) R (check_request c ident opn now deadline))) (\<lambda>(outcome, j).
        conclude_check mj w dir ident outcome (case j of None \<Rightarrow> None | Some j \<Rightarrow> snd (command_end m c j))))"

lemma NewRunner_check: "NewRunner True controllerActor (Some wk) (Some p)
    = Inr \<lparr>rn_controller = controllerActor, rn_worker = wk, rn_policy = p\<rparr>"
  by (simp add: NewRunner_def controllerActor_def)

lemma Check_split: "Check mj w os m root ident config =
    bindL (check_start w os root ident config) (\<lambda>r. case r of
      Inl err \<Rightarrow> retL (plain_result [], [], Some err) | Inr x \<Rightarrow> check_rest mj w m ident (config_clone config) x)"
  unfolding Check_def check_start_def check_rest_def andL_def NewRunner_check Let_def
  by (rule ext) (auto simp: bindL_def retL_def split: prod.split sum.split)

lemma toilsL_start: "fair mj (lw_World w) \<Longrightarrow> toilsL mj (check_start w os root ident config)"
  unfolding check_start_def by (auto intro!: toilsL_and toilsL_simple toilsL_open toilsL_prepare)

lemma check_start_made:
  assumes "check_start w os root ident config h = (Inr x, h')" "fair mj (lw_World w)" "integrity (repo_d (repo_of h))"
  shows "fmlookup (d_tasks (repo_d (repo_of h'))) ident \<noteq> None"
proof -
  from assms(1) obtain h1 dir h2 y where in1: "look w (\<lambda>fs. CheckInputs fs (config_clone config)) h = (Inr (), h1)"
    and opn: "open_store w os root True h1 = (Inr dir, h2)" and prep: "prepare_check w (config_clone config) ident h2 = (Inr y, h')"
    by (auto simp: check_start_def andL_Inr retL_eq split: if_splits)
  have "works mj (repo_of h) (repo_of h2)"
    using toilsLD[OF toilsL_look in1] toilsLD[OF toilsL_open opn] works_trans by blast
  from prepare_check_made[OF prep assms(2)] works_good[OF this assms(3)] show ?thesis by simp
qed

lemma check_start_known:
  assumes "fair mj (lw_World w)" "integrity (repo_d (repo_of h))" "fmlookup (d_tasks (repo_d (repo_of h))) ident \<noteq> None"
  shows "\<exists>e. fst (check_start w os root ident config h) = Inl e"
proof (cases "fst (check_start w os root ident config h)")
  case (Inr x)
  then obtain h' where "check_start w os root ident config h = (Inr x, h')" by (metis prod.collapse)
  then obtain h1 dir h2 y where in1: "look w (\<lambda>fs. CheckInputs fs (config_clone config)) h = (Inr (), h1)"
    and opn: "open_store w os root True h1 = (Inr dir, h2)" and prep: "prepare_check w (config_clone config) ident h2 = (Inr y, h')"
    by (auto simp: check_start_def andL_Inr retL_eq split: if_splits)
  have wk: "works mj (repo_of h) (repo_of h2)"
    using toilsLD[OF toilsL_look in1] toilsLD[OF toilsL_open opn] works_trans by blast
  then have "integrity (repo_d (repo_of h2))" using works_good[OF wk assms(2)] by simp
  from prepare_check_known[OF prep assms(1) this task_stays[OF wk assms(2,3)]] show ?thesis by simp
qed simp

text \<open>Two commands can only be told apart if the task was made.\<close>

lemma Check_command:
  assumes "Check mj w os m root ident config h \<noteq> Check mj w os m0 root ident config h"
    and "Check mj w os m root ident config h = (x, h')" "fair mj (lw_World w)" "integrity (repo_d (repo_of h))"
  shows "fmlookup (d_tasks (repo_d (repo_of h'))) ident \<noteq> None"
proof -
  obtain r h1 where start: "check_start w os root ident config h = (r, h1)" by fastforce
  then obtain y where r: "r = Inr y"
    using assms(1) by (cases r) (auto simp: Check_split bindL_def)
  then have run: "check_rest mj w m ident (config_clone config) y h1 = (x, h')"
    using assms(2) start by (simp add: Check_split bindL_def)
  have rest: "toilsL mj (check_rest mj w m ident (config_clone config) y)"
    using assms(3) unfolding check_rest_def Let_def
    by (auto intro!: toilsL_bind toilsL_Execute toilsL_conclude split: prod.split)
  have "integrity (repo_d (repo_of h1))"
    using works_good[OF toilsLD[OF toilsL_start[OF assms(3)] start] assms(4)] by simp
  from task_stays[OF toilsLD[OF rest run] this] check_start_made[OF start[unfolded r] assms(3,4)] show ?thesis
    by blast
qed

lemma Check_known:
  assumes "fair mj (lw_World w)" "integrity (repo_d (repo_of h))" "fmlookup (d_tasks (repo_d (repo_of h))) ident \<noteq> None"
  shows "Check mj w os m root ident config h = Check mj w os m0 root ident config h"
    "snd (snd (fst (Check mj w os m root ident config h))) \<noteq> None"
  using check_start_known[OF assms, of os root config]
  by (auto simp: Check_split bindL_def retL_def split: prod.split sum.split)

section \<open>Receipts\<close>

text \<open>A receipt whose text loses nothing: its strings are UTF-8, its numbers fit, its time is in UTC.\<close>

definition good_receipt :: "Receipt \<Rightarrow> bool" where
  "good_receipt r \<longleftrightarrow> list_all utf8_Valid [rc_Task r, rc_Operation r, rc_Attempt r, rc_Lease r, rc_Config r, rc_OutputHash r]
     \<and> list_all int64_range [rc_Version r, rc_ExitCode r, rc_OutputBytes r]
     \<and> st_Zone (rc_Finished r) = 0 \<and> time_range (st_Time (rc_Finished r))"

lemma decode_stamp_text:
  assumes "st_Zone s = 0" "time_range (st_Time s)"
  shows "decode_stamp (JString (stamp_text s)) a = Some s"
proof -
  have z: "zone_of (time_text (st_Time s)) = 0"
  proof -
    define d where "d = st_Time s div (86400 * Second)"
    define n where "n = nat (st_Time s mod (86400 * Second))"
    have "length (date_text d) = 10"
      using assms(2) parse_date_text by (simp add: time_range_def d_def)
    moreover have "time_text (st_Time s) = date_text d @ ''T'' @ clock_text (n div 1000000000)
        @ fraction_text (n mod 1000000000) @ ''Z''"
      by (simp add: time_text_def Let_def d_def n_def)
    ultimately have "drop 19 (time_text (st_Time s)) = fraction_text (n mod 1000000000) @ ''Z''"
      by (simp add: clock_text_def)
    then show ?thesis
      using parse_fraction_text[of "n mod 1000000000"] by (simp add: zone_of_def parse_zone_def)
  qed
  show ?thesis
    using assms parse_time_text[OF assms(2)] z by (cases s) (simp add: stamp_text_def)
qed

lemma decode_jbool [simp]: "decode_bool (JBool b) a = Some b"
  by simp

lemma decode_receipt:
  assumes "good_receipt r"
  shows "decode_strict receipt_fields zero_receipt (json_text (receipt_json r)) = Inr r"
proof -
  have stamp: "decode_stamp (JString (stamp_text (rc_Finished r))) a = Some (rc_Finished r)" for a
    using assms decode_stamp_text by (simp add: good_receipt_def)
  have "decode_struct receipt_fields (receipt_json r) zero_receipt = Some r"
    using assms stamp by (simp add: good_receipt_def receipt_json_def find_field_def unquote_key key_char_def code_def
        receipt_fields_def field_def del: decode_stamp.simps)
  moreover have "lexable_json (receipt_json r)"
    using assms lexable_jtime[of "st_Time (rc_Finished r)"]
    by (simp add: good_receipt_def receipt_json_def stamp_text_def jtime_def lexable_key key_char_def code_def)
  ultimately show ?thesis
    using parse_complete(1)[of "receipt_json r" _ "[]"] by (simp add: decode_strict_def lex_json_text)
qed

end
