(* ===== verification/LocalReceipts.thy ===== *)
theory LocalReceipts
  imports LocalFacts
begin

text \<open>
  Receipts of the local check service: a receipt is written once and read back, and a verification follows
  the receipt and the evidence.
\<close>

section \<open>A receipt is written once\<close>

text \<open>Files that others create, one after the other; those that cannot be created change nothing.\<close>

fun make_files :: "(path \<times> string) list \<Rightarrow> files \<Rightarrow> files" where
  "make_files [] fs = fs"
| "make_files ((p, b) # ps) fs =
     make_files ps (case Create fs p of None \<Rightarrow> fs | Some q \<Rightarrow> put_node q (File b) fs)"

lemma put_file_or: "(case put_file fs p b of None \<Rightarrow> fs | Some fs' \<Rightarrow> fs')
    = (case Create fs p of None \<Rightarrow> fs | Some q \<Rightarrow> put_node q (File b) fs)"
  by (simp add: put_file_def split: option.split)

lemma make_files_attempts: "make_files ps fs = disk.attempts ps fs"
  by (induction ps fs rule: make_files.induct) (simp_all add: put_file_or)

lemma receiptPath_name: "file_name (receiptPath root ident)"
  by (simp add: file_name_def receiptPath_def)

text \<open>What \<open>Lstat\<close> calls a file is the file that is read.\<close>

lemma walk_follow:
  "walk fs n cur cs False = Some q \<Longrightarrow> node_at fs q = Some (File b) \<Longrightarrow> walk fs n cur cs True = Some q"
  by (induction fs n cur cs False rule: walk.induct) (auto split: if_splits option.splits node.splits nat.splits)

lemma Lstat_ReadFile: "Lstat fs p = Some (File b) \<Longrightarrow> ReadFile fs p = Some c \<Longrightarrow> c = b"
  using walk_follow[of fs MaxLinks "[]" p] by (auto simp: Lstat_def ReadFile_def contents_def split: option.splits if_splits)

lemma saveReceipt_Inr:
  assumes "saveReceipt w root ident r h = (Inr (), h')"
  obtains "marshal_receipt r = Inr (receipt_bytes r)" and "length (receipt_bytes r) \<le> 4096"
    and "put_file (lw_Others w (lh_Touch h) (lh_Files h)) (receiptPath root ident) (receipt_bytes r) = Some (lh_Files h')"
  using assms
  by (auto simp: saveReceipt_def receipt_bytes_def on_files_def retL_eq write_new_Inr put_file_def
      split: sum.splits if_splits prod.splits)

lemma saved_twice:
  assumes put: "put_file fs (receiptPath root ident) b = Some fs'"
    and later: "lw_Others w (lh_Touch h) (lh_Files h) = make_files ps fs'"
  shows "fst (saveReceipt w root ident r h) = Inl ErrReceipt"
    "lh_Files (snd (saveReceipt w root ident r h)) \<in> {lh_Files h, make_files ps fs'}"
proof -
  have "Create (make_files ps fs') (receiptPath root ident) = None"
    using disk.second_write_fails[OF put receiptPath_name] by (simp add: make_files_attempts put_file_def)
  then show "fst (saveReceipt w root ident r h) = Inl ErrReceipt"
    "lh_Files (snd (saveReceipt w root ident r h)) \<in> {lh_Files h, make_files ps fs'}"
    by (auto simp: saveReceipt_def retL_def on_files_def write_new_def later split: sum.split prod.split)
qed

lemma loadReceipt_Inr:
  "loadReceipt w root ident h = (Inr r, h') \<longleftrightarrow>
     (\<exists>b. read_receipt (lw_Others w (lh_Touch h) (lh_Files h)) (receiptPath root ident) = Inr b
        \<and> decode_strict receipt_fields zero_receipt b = Inr r \<and> check_receipt ident r
        \<and> st_Time (rc_Finished r) \<le> o_Now (lw_World w) (h_Tick (lh_Host h)) + Second)
     \<and> h' = \<lparr>lh_Host = \<lparr>h_Repo = repo_of h, h_Tick = Suc (h_Tick (lh_Host h))\<rparr>,
              lh_Files = lw_Others w (lh_Touch h) (lh_Files h), lh_Touch = Suc (lh_Touch h)\<rparr>"
  by (cases h; cases "lh_Host h")
    (auto simp: loadReceipt_def andL_Inr earlyL bindL_eq on_host_eq time_Now_def retL_eq look_def on_files_def
      split: sum.splits)

lemma read_written:
  assumes "Lstat fs p = Some (File b)" "ReadFile fs p \<noteq> None" "length b \<le> 4096"
  shows "read_receipt fs p = Inr b"
proof -
  obtain c where "ReadFile fs p = Some c" using assms(2) by auto
  with Lstat_ReadFile[OF assms(1)] assms show ?thesis
    by (simp add: read_receipt_def regular_def Let_def)
qed

lemma receipt_bytes_marshalled: "marshal_receipt r = Inr (receipt_bytes r) \<Longrightarrow> receipt_bytes r = json_text (receipt_json r)"
  by (auto simp: marshal_receipt_def split: if_splits)

lemma saved_loads:
  assumes saved: "saveReceipt w root ident r h = (Inr (), h1)"
    and later: "lw_Others w (lh_Touch h1) (lh_Files h1) = make_files ps (lh_Files h1)"
    and r: "good_receipt r" "check_receipt ident r"
    and readable: "ReadFile (make_files ps (lh_Files h1)) (receiptPath root ident) \<noteq> None"
    and clock: "st_Time (rc_Finished r) \<le> o_Now (lw_World w) (h_Tick (lh_Host h1)) + Second"
  shows "fst (loadReceipt w root ident h1) = Inr r"
proof (rule saveReceipt_Inr[OF saved])
  assume m: "marshal_receipt r = Inr (receipt_bytes r)" and len: "length (receipt_bytes r) \<le> 4096"
    and put: "put_file (lw_Others w (lh_Touch h) (lh_Files h)) (receiptPath root ident) (receipt_bytes r) = Some (lh_Files h1)"
  have "Lstat (make_files ps (lh_Files h1)) (receiptPath root ident) = Some (File (receipt_bytes r))"
    unfolding make_files_attempts by (rule disk.first_write_stays[OF put])
  note read = read_written[OF this readable len]
  have "\<exists>h'. loadReceipt w root ident h1 = (Inr r, h')"
    unfolding loadReceipt_Inr later using read decode_receipt[OF r(1)] receipt_bytes_marshalled[OF m] r(2) clock by auto
  then show ?thesis by auto
qed

section \<open>A verification follows the receipt\<close>

lemma found_in_store:
  "store_call w (\<lambda>ctx _. store_GetOperation ctx ident) h = (Inr opn, h') \<Longrightarrow>
     fmlookup (d_ops (repo_d (repo_of h'))) ident = Some opn"
  "store_call w (\<lambda>ctx _. store_GetAttempt ctx aid) h = (Inr a, h') \<Longrightarrow>
     fmlookup (d_attempts (repo_d (repo_of h'))) aid = Some a"
  by (auto simp: store_call_eq store_GetOperation_def store_GetAttempt_def readValue_def
      memory_View_def memory_run_def tx_reads map_get_Inr split: prod.splits option.splits if_splits sum.splits)

lemma evidence_in_store:
  assumes "store_call w (\<lambda>ctx _. store_EvidenceForOperation ctx ident) h = (Inr evs, h')" "list_ex P evs"
  shows "\<exists>k e. fmlookup (d_evidence (repo_d (repo_of h'))) k = Some e \<and> P e"
proof -
  have "set evs \<subseteq> set (go_values (d_evidence (repo_d (repo_of h'))))"
    using assms(1)
    by (auto simp: store_call_eq store_EvidenceForOperation_def readValue_def memory_View_def memory_run_def tx_reads
        tx_EvidenceForOperation_def readT_def simp del: in_go_values split: prod.splits option.splits if_splits sum.splits)
  then show ?thesis
    using assms(2) unfolding set_go_values list_ex_iff by blast
qed

text \<open>
  What a verification of receipt \<open>r\<close> leaves in the store: the verdict and the state that the receipt
  tells, on evidence of the very bytes of the receipt, next to the intent, the report and the attempt
  of the local worker that the receipt is about.
\<close>

definition receipt_vouched :: "string \<Rightarrow> Receipt \<Rightarrow> data \<Rightarrow> bool" where
  "receipt_vouched ident r d \<longleftrightarrow>
     (\<exists>k e. fmlookup (d_evidence d) k = Some e \<and> is_intent ident r e)
     \<and> (\<exists>k e. fmlookup (d_evidence d) k = Some e \<and> is_report r e)
     \<and> (\<exists>a. fmlookup (d_attempts d) (rc_Attempt r) = Some a \<and> att_OwnerActorID a = workerActor
          \<and> att_LeaseID a = rc_Lease r \<and> att_LeaseGeneration a = rc_Generation r)"

definition check_verified :: "string \<Rightarrow> Receipt \<Rightarrow> data \<Rightarrow> bool" where
  "check_verified ident r d \<longleftrightarrow> receipt_vouched ident r d
     \<and> (\<exists>v. fmlookup (d_verifications d) (''verification_'' @ ident) = Some v
          \<and> ver_OperationID v = operationID ident \<and> ver_AttemptID v = rc_Attempt r
          \<and> ver_Verdict v = fst (receipt_verdict r) \<and> ver_EvidenceIDs v = [''observed_'' @ ident])
     \<and> (\<exists>e. fmlookup (d_evidence d) (''observed_'' @ ident) = Some e \<and> is_observed ident r e)
     \<and> (\<exists>opn. fmlookup (d_ops d) (operationID ident) = Some opn
          \<and> op_State opn = (if rc_ExitCode r = 0 \<and> rc_InputsMatch r then OperationSucceeded else OperationFailed))"

lemma receipt_vouched_extends:
  assumes "receipt_vouched ident r d" "extends d d'"
  shows "receipt_vouched ident r d'"
proof -
  have ev: "fmlookup (d_evidence d') k = Some e" if "fmlookup (d_evidence d) k = Some e" for k e
    using growsD[OF extendsD(4)[OF assms(2)] that] by simp
  have att: "\<exists>a'. fmlookup (d_attempts d') k = Some a' \<and> att_le a a'" if "fmlookup (d_attempts d) k = Some a" for k a
    using growsD[OF extendsD(3)[OF assms(2)] that] by auto
  from assms(1) obtain a where a: "fmlookup (d_attempts d) (rc_Attempt r) = Some a" "att_OwnerActorID a = workerActor"
      "att_LeaseID a = rc_Lease r" "att_LeaseGeneration a = rc_Generation r"
    by (auto simp: receipt_vouched_def)
  from att[OF a(1)] obtain a' where "fmlookup (d_attempts d') (rc_Attempt r) = Some a'" "att_le a a'" by blast
  then have "\<exists>a. fmlookup (d_attempts d') (rc_Attempt r) = Some a \<and> att_OwnerActorID a = workerActor
      \<and> att_LeaseID a = rc_Lease r \<and> att_LeaseGeneration a = rc_Generation r"
    using a by (intro exI[of _ a']) (simp add: att_le_def)
  moreover have "\<exists>k e. fmlookup (d_evidence d') k = Some e \<and> P e" if "\<exists>k e. fmlookup (d_evidence d) k = Some e \<and> P e" for P
    using that ev by blast
  ultimately show ?thesis
    using assms(1) unfolding receipt_vouched_def by blast
qed

lemma check_verified_works:
  assumes "check_verified ident r (repo_d s)" "works mj s s'" "integrity (repo_d s)"
  shows "check_verified ident r (repo_d s')"
proof -
  have ext: "extends (repo_d s) (repo_d s')" using works_good[OF assms(2,3)] by simp
  from assms(1) obtain v e opn where v: "fmlookup (d_verifications (repo_d s)) (''verification_'' @ ident) = Some v"
      "ver_OperationID v = operationID ident" "ver_AttemptID v = rc_Attempt r"
      "ver_Verdict v = fst (receipt_verdict r)" "ver_EvidenceIDs v = [''observed_'' @ ident]"
    and e: "fmlookup (d_evidence (repo_d s)) (''observed_'' @ ident) = Some e" "is_observed ident r e"
    and opn: "fmlookup (d_ops (repo_d s)) (operationID ident) = Some opn"
      "op_State opn = (if rc_ExitCode r = 0 \<and> rc_InputsMatch r then OperationSucceeded else OperationFailed)"
    unfolding check_verified_def by (elim conjE exE) blast
  have "terminal_operation (op_State opn)"
    using opn(2) by (simp add: terminal_operation_def)
  with works_settled[OF assms(2,3)] opn(1) obtain opn' where
    "fmlookup (d_ops (repo_d s')) (operationID ident) = Some opn'" "op_State opn' = op_State opn"
    unfolding settled_def by blast
  moreover have "receipt_vouched ident r (repo_d s')"
    using receipt_vouched_extends[OF _ ext] assms(1) by (simp add: check_verified_def)
  moreover have "fmlookup (d_verifications (repo_d s')) (''verification_'' @ ident) = Some v"
    "fmlookup (d_evidence (repo_d s')) (''observed_'' @ ident) = Some e"
    using growsD[OF extendsD(5)[OF ext] v(1)] growsD[OF extendsD(4)[OF ext] e(1)] by simp_all
  ultimately show ?thesis
    unfolding check_verified_def using v(2-) e(2) opn(2) by simp
qed

lemma receipt_state: "verdict_state (fst (receipt_verdict r))
    = (if rc_ExitCode r = 0 \<and> rc_InputsMatch r then OperationSucceeded else OperationFailed)"
  by (simp add: receipt_verdict_def)

lemma verified_callback_effect:
  assumes I: "integrity (tx_d (t_tx t1))" and vouch: "receipt_vouched ident r (tx_d (t_tx t1))"
    and run: "run_callback mj (verified_callback ident opn r now) t1 = (Inr (), t)" and ok: "t_failed t = None"
    and ident: "od_ID (op_Descriptor opn) = operationID ident"
  shows "check_verified ident r (tx_d (t_tx t))"
proof -
  let ?rec = "observed_record ident opn r now" and ?ver = "receipt_verification ident opn r now"
  let ?apply = "CApplyVerification (od_ID (op_Descriptor opn)) (op_Revision opn) ?ver now"
  from run ok obtain reply t2 where first: "t_call mj (CRegisterEvidence ?rec) t1 = (Inr reply, t2)"
    and rest: "run_callback mj (Call ?apply (\<lambda>x. Finish (unit_of x))) t2 = (Inr (), t)"
    unfolding verified_callback_def by (rule exec_call) simp
  from rest ok obtain reply2 where second: "t_call mj ?apply t2 = (Inr reply2, t)" by (rule exec_call) simp
  from first have ev: "registerEvidence ?rec (t_tx t1) = (Inr (), t_tx t2)"
    by (auto simp: mapR_Inr t_RegisterEvidence_def exported_Inr)
  from second obtain u where ap: "applyVerification (operationID ident) (op_Revision opn) ?ver now (t_tx t2) = (Inr u, t_tx t)"
    by (auto simp: mapR_Inr t_ApplyVerification_def exported_Inr ident)
  have I2: "integrity (tx_d (t_tx t2))" "extends (tx_d (t_tx t1)) (tx_d (t_tx t2))"
    using goodD[OF good_registerEvidence I ev] by blast+
  have "extends (tx_d (t_tx t2)) (tx_d (t_tx t))"
    using goodD[OF good_applyVerification I2(1) ap] by blast
  with I2(2) vouch have "receipt_vouched ident r (tx_d (t_tx t))" using receipt_vouched_extends by blast
  moreover have "fmlookup (d_evidence (tx_d (t_tx t2))) (''observed_'' @ ident) = Some ?rec"
    using registerEvidence_Inr(4)[OF ev] by (simp add: observed_record_def)
  ultimately show ?thesis
    using apply_effect[OF I2(1) ap] receipt_state[of r]
    by (simp add: check_verified_def observed_record_def receipt_verification_def is_observed_def ident)
qed

text \<open>\<open>verify\<close> for an operation that is not decided.\<close>

definition verify_open :: "marshal \<Rightarrow> lworld \<Rightarrow> string \<Rightarrow> Receipt \<Rightarrow> Operation \<Rightarrow> unit result lio" where
  "verify_open mj w ident r opn =
     (if op_State opn \<noteq> OperationVerifying \<or> od_TargetRef (op_Descriptor opn) \<noteq> target ident
        \<or> od_VerificationPolicyRef (op_Descriptor opn) \<noteq> verifyPolicy \<or> op_ActiveAttemptID opn \<noteq> rc_Attempt r
     then retL (Inl ErrReceipt)
     else bindL (store_call w (\<lambda>ctx _. store_GetAttempt ctx (rc_Attempt r))) (\<lambda>found.
     case found of Inl _ \<Rightarrow> retL (Inl ErrReceipt) | Inr a \<Rightarrow>
     if att_OwnerActorID a \<noteq> workerActor \<or> att_LeaseID a \<noteq> rc_Lease r \<or> att_LeaseGeneration a \<noteq> rc_Generation r
     then retL (Inl ErrReceipt)
     else andL (store_call w (\<lambda>ctx _. store_EvidenceForOperation ctx (od_ID (op_Descriptor opn)))) (\<lambda>evs.
     if \<not> list_ex (is_intent ident r) evs \<or> \<not> list_ex (is_report r) evs then retL (Inl ErrReceipt)
     else bindL (clock_now w) (\<lambda>now.
     bindL (on_host (process mj (lw_World w) (verified_envelope ident opn r) (verified_callback ident opn r now)))
       (\<lambda>(sent, _). case sent of Inl err \<Rightarrow> retL (Inl err) | Inr _ \<Rightarrow> finalize_check w ident)))))"

lemma verify_receipt_split: "verify_receipt mj w root ident =
    andL (loadReceipt w root ident) (\<lambda>r.
    andL (store_call w (\<lambda>ctx _. store_GetOperation ctx (operationID ident))) (\<lambda>opn.
    if op_State opn = OperationSucceeded \<or> op_State opn = OperationFailed then finalize_check w ident
    else verify_open mj w ident r opn))"
  unfolding verify_receipt_def verify_open_def ..

lemma clock_now_repo: "clock_now w h = (t, h') \<Longrightarrow> repo_of h' = repo_of h"
  by (auto simp: clock_now_def bindL_eq retL_eq on_host_eq dest: time_Now_repo)

lemma verify_open_Inr:
  assumes run: "verify_open mj w ident r opn h = (Inr (), h')" and fair: "fair mj (lw_World w)"
    and I: "integrity (repo_d (repo_of h))" and ident: "od_ID (op_Descriptor opn) = operationID ident"
  shows "(\<exists>s. works mj (repo_of h) s \<and> fmlookup (d_messages (repo_d s)) (''verified_'' @ ident) \<noteq> None)
      \<or> check_verified ident r (repo_d (repo_of h'))"
proof -
  from run obtain a h1 evs h2 now h3 b replies h4 where
    ga: "store_call w (\<lambda>ctx _. store_GetAttempt ctx (rc_Attempt r)) h = (Inr a, h1)"
    and a: "att_OwnerActorID a = workerActor" "att_LeaseID a = rc_Lease r" "att_LeaseGeneration a = rc_Generation r"
    and ge: "store_call w (\<lambda>ctx _. store_EvidenceForOperation ctx (od_ID (op_Descriptor opn))) h1 = (Inr evs, h2)"
    and evs: "list_ex (is_intent ident r) evs" "list_ex (is_report r) evs"
    and t: "clock_now w h2 = (now, h3)"
    and p: "on_host (process mj (lw_World w) (verified_envelope ident opn r) (verified_callback ident opn r now)) h3
      = ((Inr b, replies), h4)"
    and last: "finalize_check w ident h4 = (Inr (), h')"
    unfolding verify_open_def by (auto simp: earlyL bindL_eq andL_Inr split: prod.splits)
  have w1: "works mj (repo_of h) (repo_of h1)" by (rule toilsLD[OF toilsL_reads(3)[OF fair] ga])
  have w12: "works mj (repo_of h1) (repo_of h2)" by (rule toilsLD[OF toilsL_reads(4)[OF fair] ge])
  have w2: "works mj (repo_of h) (repo_of h3)"
    using works_trans[OF w12 w1] clock_now_repo[OF t] by simp
  have w4: "works mj (repo_of h) (repo_of h4)"
    using works_trans[OF toilsLD[OF toilsL_process[OF fair] p] w2] .
  have w5: "works mj (repo_of h4) (repo_of h')" by (rule toilsLD[OF toilsL_finalize[OF fair] last])
  have ext: "extends (repo_d (repo_of h1)) (repo_d (repo_of h2))"
    using works_good[OF w12] works_good[OF w1 I] by simp
  have "fmlookup (d_attempts (repo_d (repo_of h2))) (rc_Attempt r) \<noteq> None \<and> receipt_vouched ident r (repo_d (repo_of h2))"
  proof -
    obtain a' where "fmlookup (d_attempts (repo_d (repo_of h2))) (rc_Attempt r) = Some a'" "att_le a a'"
      using growsD[OF extendsD(3)[OF ext] found_in_store(2)[OF ga]] by auto
    then show ?thesis
      using a evidence_in_store[OF ge evs(1)] evidence_in_store[OF ge evs(2)]
      by (auto simp: receipt_vouched_def att_le_def)
  qed
  then have vouch: "receipt_vouched ident r (repo_d (repo_of h3))" using clock_now_repo[OF t] by simp
  from p obtain g where pr: "process mj (lw_World w) (verified_envelope ident opn r) (verified_callback ident opn r now)
      (lh_Host h3) = ((Inr b, replies), g)" and g: "repo_of h4 = h_Repo g"
    by (auto simp: on_host_eq)
  show ?thesis
  proof (cases b)
    case True
    then have b: "b = True" by simp
    have "\<exists>m. fmlookup (d_messages (repo_d (repo_of h4))) (''verified_'' @ ident) = Some m"
      using process_duplicate[OF pr[unfolded b]] by (simp add: verified_envelope_def g)
    with w4 show ?thesis by blast
  next
    case False
    then have b: "b = False" by simp
    show ?thesis
    proof (rule process_new[OF pr[unfolded b]])
      fix clock s t1 t4
      assume s: "s = o_Others (lw_World w) (h_Tick (lh_Host h3)) (repo_of h3)"
        and reg: "registerMessage mj clock (verified_envelope ident opn r) \<lparr>tx_d = repo_d s, tx_write = True\<rparr>
          = (Inr False, t_tx t1)"
        and cb: "run_callback mj (verified_callback ident opn r now) t1 = (Inr (), t4)" "t_failed t4 = None"
        and h4: "repo_d (h_Repo g) = tx_d (t_tx t4)"
      have w3: "works mj (repo_of h3) s" using fair s by (simp add: fair_def)
      have I3: "integrity (repo_d (repo_of h3))" using works_good[OF w2 I] by simp
      have Is: "integrity (repo_d s)" using works_good[OF w3 I3] by simp
      have "receipt_vouched ident r (repo_d s)"
        using receipt_vouched_extends[OF vouch] works_good[OF w3 I3] by simp
      then have "receipt_vouched ident r (tx_d (t_tx t1))"
        using new_message_data(4,6)[OF reg Is] by (simp add: receipt_vouched_def)
      from verified_callback_effect[OF new_message_data(1)[OF reg Is] this cb ident]
      have "check_verified ident r (repo_d (repo_of h4))" by (simp add: h4 g)
      from check_verified_works[OF this w5] works_good[OF w4 I] show ?thesis by blast
    qed
  qed
qed

lemma verify_receipt_Inr:
  assumes run: "verify_receipt mj w root ident h = (Inr (), h')" and fair: "fair mj (lw_World w)"
    and I: "integrity (repo_d (repo_of h))"
  obtains r h1 where "loadReceipt w root ident h = (Inr r, h1)"
    and "(\<exists>s opn. works mj (repo_of h) s \<and> fmlookup (d_ops (repo_d s)) (operationID ident) = Some opn
            \<and> op_State opn \<in> {OperationSucceeded, OperationFailed})
      \<or> (\<exists>s. works mj (repo_of h) s \<and> fmlookup (d_messages (repo_d s)) (''verified_'' @ ident) \<noteq> None)
      \<or> check_verified ident r (repo_d (repo_of h'))"
proof -
  from run obtain r h1 opn h2 where load: "loadReceipt w root ident h = (Inr r, h1)"
    and g: "store_call w (\<lambda>ctx _. store_GetOperation ctx (operationID ident)) h1 = (Inr opn, h2)"
    and rest: "(if op_State opn = OperationSucceeded \<or> op_State opn = OperationFailed then finalize_check w ident
      else verify_open mj w ident r opn) h2 = (Inr (), h')"
    unfolding verify_receipt_split andL_Inr by blast
  have w2: "works mj (repo_of h) (repo_of h2)"
    using toilsLD[OF toilsL_load load] toilsLD[OF toilsL_reads(2)[OF fair] g] works_trans by blast
  show ?thesis
  proof (cases "op_State opn = OperationSucceeded \<or> op_State opn = OperationFailed")
    case True
    then show ?thesis
      using that[OF load] w2 found_in_store(1)[OF g] by auto
  next
    case False
    note I2 = works_good[OF w2 I]
    have "od_ID (op_Descriptor opn) = operationID ident"
      using integrityD(1)[OF conjunct1[OF I2] found_in_store(1)[OF g]] by (simp add: op_row_def)
    from rest False have "verify_open mj w ident r opn h2 = (Inr (), h')" by simp
    from verify_open_Inr[OF this fair conjunct1[OF I2] \<open>od_ID (op_Descriptor opn) = operationID ident\<close>] show ?thesis
    proof
      assume "\<exists>s. works mj (repo_of h2) s \<and> fmlookup (d_messages (repo_d s)) (''verified_'' @ ident) \<noteq> None"
      then have "\<exists>s. works mj (repo_of h) s \<and> fmlookup (d_messages (repo_d s)) (''verified_'' @ ident) \<noteq> None"
        using works_trans[OF _ w2] by blast
      then show ?thesis using that[OF load] by blast
    qed (use that[OF load] in blast)
  qed
qed

end
