(* ===== verification/LocalTheorems.thy ===== *)
theory LocalTheorems
  imports LocalReceipts
begin

text \<open>
  What holds of the local check service as a whole: the pinned inputs, the profiles, the one run of a check,
  its receipt and its verification, with the concrete cases that show the hypotheses can be met.
\<close>

section \<open>The pinned inputs\<close>

text \<open>
  C36.  Inputs are checked exactly, in whatever order the map is iterated: the check succeeds if and only if
  every entry names, by a plain relative path through real directories below the workspace, a regular file
  of at most 4 MiB whose bytes have the pinned SHA-256, and all of them together have at most 16 MiB;
  otherwise the error is ErrInputs.
\<close>

theorem inputs_exact:
  assumes "mset es = mset (go_range (sp_Inputs (sc_Spec c)))"
  shows "check_entries fs (sc_Workspace c) es 0 = CheckInputs fs c
    \<and> CheckInputs fs c =
      (if \<exists>bs. list_all2 (matching fs (sc_Workspace c)) es bs \<and> sum_list (map length bs) \<le> 16 * MiB
       then Inr () else Inl ErrInputs)"
proof -
  have "check_entries fs (sc_Workspace c) es 0 = CheckInputs fs c"
    unfolding CheckInputs_def by (rule check_entries_order[OF assms])
  moreover have "check_entries fs (sc_Workspace c) es 0 =
      (if \<exists>bs. list_all2 (matching fs (sc_Workspace c)) es bs \<and> sum_list (map length bs) \<le> 16 * MiB
       then Inr () else Inl ErrInputs)"
    using check_entries_Inr[of 0 fs "sc_Workspace c" es] check_entries_Inl[of fs "sc_Workspace c" es 0]
    by (cases "check_entries fs (sc_Workspace c) es 0") auto
  ultimately show ?thesis
    by simp
qed

definition demo_inputs :: files where
  "demo_inputs = \<lparr>fs_Nodes = fmap_of_list [([''w''], Dir), ([''w'', ''s''], Dir), ([''w'', ''s'', ''a''], File ''x''),
     ([''w'', ''b''], File ''yz''), ([''w'', ''l''], Link ''b'')], fs_Denied = (\<lambda>p. False)\<rparr>"

definition demo_pins :: "(string \<times> string) list" where
  "demo_pins = [(''s/a'', sum256 ''x''), (''b'', sum256 ''yz'')]"

definition demo_profile :: Spec where
  "demo_profile = \<lparr>sp_Version = 1, sp_Label = ''unit'', sp_Arguments = Some [''-v''], sp_TimeoutSeconds = 60,
     sp_MaxOutputBytes = 4096, sp_Inputs = fmap_of_list demo_pins\<rparr>"

definition demo_config :: SpecConfig where
  "demo_config = \<lparr>sc_Spec = demo_profile, sc_Program = [''p''], sc_Workspace = [''w''],
     sc_Digest = replicate 64 (CHR ''a''), sc_programSum = replicate 64 (CHR ''b'')\<rparr>"

lemma demo_matching:
  "matching demo_inputs [''w''] (''s/a'', sum256 ''x'') ''x''" "matching demo_inputs [''w''] (''b'', sum256 ''yz'') ''yz''"
  "\<not> matching demo_inputs [''w''] (''l'', h) b"
  by (simp_all add: matching_def input_file_def plain_rel_def demo_inputs_def node_at_def searchable_def MaxLinks_def MiB_def)

lemma demo_entries: "mset demo_pins = mset (go_range (sp_Inputs (sc_Spec demo_config)))"
proof (rule set_eq_iff_mset_eq_distinct[THEN iffD1])
  show "set demo_pins = set (go_range (sp_Inputs (sc_Spec demo_config)))"
    by (auto simp: set_go_range demo_config_def demo_profile_def demo_pins_def fmlookup_of_list split: if_splits)
  show "distinct (go_range (sp_Inputs (sc_Spec demo_config)))"
    by (rule conjunct1[OF distinct_map[THEN iffD1]]) (rule sorted_go_range)
qed (simp add: demo_pins_def)

lemma inputs_exact_witness: "CheckInputs demo_inputs demo_config = Inr ()
    \<and> check_entries demo_inputs [''w''] (rev demo_pins) 0 = Inr ()"
proof -
  have "list_all2 (matching demo_inputs [''w'']) (rev demo_pins) [''yz'', ''x'']"
    using demo_matching by (simp add: demo_pins_def)
  moreover have "sum_list (map length [''yz'', ''x'']) \<le> 16 * MiB"
    by (simp add: MiB_def)
  ultimately have "\<exists>bs. list_all2 (matching demo_inputs (sc_Workspace demo_config)) (rev demo_pins) bs
      \<and> sum_list (map length bs) \<le> 16 * MiB"
    unfolding demo_config_def by auto
  moreover have "mset (rev demo_pins) = mset (go_range (sp_Inputs (sc_Spec demo_config)))"
    using demo_entries by simp
  ultimately show ?thesis
    using inputs_exact[of "rev demo_pins" demo_config demo_inputs] by (simp add: demo_config_def)
qed

section \<open>Profiles\<close>

text \<open>
  C37.  What Prepare writes, Load accepts: after a successful Prepare, loading the new profile with the same
  program and workspace succeeds and its inputs pass the check; the profile is the old one except that every
  pin, which was the digest of the file or of the file with LF line ends, is now the digest of the bytes the
  file has, and the configuration has the digest of the new profile.
\<close>

theorem prepare_then_load:
  assumes "Prepare os fs specPath program workspace output ans = (Inr u, fs')"
    and "\<And>q. CreatePath os fs output = Some q \<Longrightarrow> \<not> fs_Denied fs q"
  shows "\<exists>c e s'. Load os fs specPath program workspace = Inr (c, e) \<and> prepared fs (sc_Workspace c) (sc_Spec c) s'
    \<and> Load os fs' output program workspace = Inr (c\<lparr>sc_Spec := s',
        sc_Digest := config_digest s' (sc_programSum c) (sc_Workspace c) (sc_Program c)\<rparr>, Inr ())"
  by (rule Prepare_loads[OF assms])

text \<open>A source file with CRLF whose pin is that of the text with LF.\<close>

definition demo_text :: string where
  "demo_text = [CHR ''x'', CHR 0x0D, CHR 0x0A]"

definition demo_spec :: Spec where
  "demo_spec = \<lparr>sp_Version = 1, sp_Label = ''unit'', sp_Arguments = Some [''-v''], sp_TimeoutSeconds = 60,
     sp_MaxOutputBytes = 4096, sp_Inputs = fmupd ''a'' (sum256 (crlf_to_lf demo_text)) fmempty\<rparr>"

definition demo_os :: os where
  "demo_os = \<lparr>os_Windows = False, os_Dir = [], os_Getwd = Inr []\<rparr>"

definition demo_sources :: files where
  "demo_sources = \<lparr>fs_Nodes = fmap_of_list [([''w''], Dir), ([''w'', ''a''], File demo_text), ([''p''], File ''exe''),
     ([''s''], File (indent 0 (spec_json demo_spec) @ [CHR 0x0A]))], fs_Denied = (\<lambda>p. False)\<rparr>"

definition demo_loaded :: SpecConfig where
  "demo_loaded = \<lparr>sc_Spec = demo_spec, sc_Program = [''p''], sc_Workspace = [''w''],
     sc_Digest = config_digest demo_spec (sum256 ''exe'') [''w''] [''p''], sc_programSum = sum256 ''exe''\<rparr>"

lemma range_single: "go_range (fmupd k v fmempty) = [(k, v)]"
proof -
  have "mset (go_range (fmupd k v fmempty)) = mset [(k, v)]"
  proof (rule set_eq_iff_mset_eq_distinct[THEN iffD1])
    show "distinct (go_range (fmupd k v fmempty))"
      by (rule conjunct1[OF distinct_map[THEN iffD1]]) (rule sorted_go_range)
  qed (auto simp: set_go_range split: if_splits)
  then show ?thesis
    by simp
qed

lemma escape_sum: "escape (sum256 b) = sum256 b"
proof -
  have "list_all lower_hex (sum256 b)"
    using sum256_shape(1)[of b] by (simp add: hashPattern_def)
  then have "list_all key_char (sum256 b)"
    unfolding list_all_iff lower_hex_def is_digit_def key_char_def by auto
  then show ?thesis
    using escape_key by blast
qed

lemma sum_length [simp]: "length (sum256 b) = 64"
  by (simp add: sum256_def)

lemma demo_words: "utf8_Valid ''unit''" "utf8_Valid ''-v''" "utf8_Valid ''a''"
  "length (escape ''unit'') = 4" "length (escape ''-v'') = 2" "length (escape ''a'') = 1"
  by code_simp+

lemma decimal_length: "length (decimal n) \<le> Suc n"
proof (induction n rule: decimal.induct)
  case (1 n)
  then show ?case
    by (subst decimal.simps) auto
qed

lemma demo_spec_text: "length (indent 0 (spec_json (demo_spec\<lparr>sp_Inputs := fmupd ''a'' (sum256 b) fmempty\<rparr>))) + 1 \<le> 64 * KiB"
  using decimal_length[of 1] decimal_length[of 60] decimal_length[of 4096]
  by (simp add: demo_spec_def spec_json_def range_single jstr_def jint_def json_text_def newline_def escape_sum KiB_def
      int_text_def demo_words)

lemma demo_spec_good: "good_spec demo_spec" "check_spec demo_spec"
  using sum256_shape
  by (simp_all add: demo_spec_def good_spec_def check_spec_def spec_args_def range_single idPattern_def KiB_def
      alphanumeric_def is_digit_def code_def int64_range_def demo_words)

lemma demo_disk:
  "node_at demo_sources [] = Some Dir" "node_at demo_sources [''w''] = Some Dir"
  "node_at demo_sources [''w'', ''a''] = Some (File demo_text)" "node_at demo_sources [''p''] = Some (File ''exe'')"
  "node_at demo_sources [''s''] = Some (File (indent 0 (spec_json demo_spec) @ [CHR 0x0A]))"
  "node_at demo_sources [''o''] = None" "\<not> fs_Denied demo_sources q"
  by (simp_all add: node_at_def demo_sources_def fmlookup_of_list)

lemma demo_load: "Load demo_os demo_sources ''/s'' ''/p'' ''/w'' = Inr (demo_loaded, CheckInputs demo_sources demo_loaded)"
proof -
  have "demo_spec\<lparr>sp_Inputs := fmupd ''a'' (sum256 (crlf_to_lf demo_text)) fmempty\<rparr> = demo_spec"
    by (simp add: demo_spec_def)
  with demo_spec_text[of "crlf_to_lf demo_text"] have "length (indent 0 (spec_json demo_spec)) + 1 \<le> 64 * KiB" by simp
  moreover have "ReadPath demo_os demo_sources ''/s'' = Some (indent 0 (spec_json demo_spec) @ [CHR 0x0A])"
    "locate demo_os demo_sources ''/p'' ''/w'' = Some ([''p''], [''w''])" "Lstat demo_sources [''w''] = Some Dir"
    "Lstat demo_sources [''p''] = Some (File ''exe'')" "ReadFile demo_sources [''p''] = Some ''exe''"
    by (simp_all add: ReadPath_def start_def MaxLinks_def MaxEvalLinks_def demo_disk searchable_def contents_def
        locate_def Abs_path_def demo_os_def EvalSymlinks_def Lstat_def ReadFile_def)
  ultimately show ?thesis
    unfolding Load_Inr using decode_indented[OF demo_spec_good(1)] demo_spec_good(2)
    by (simp add: demo_loaded_def MiB_def)
qed

lemma demo_prepare: "fst (Prepare demo_os demo_sources ''/s'' ''/p'' ''/w'' ''/o'' Written) = Inr ()"
proof -
  have "readInput demo_sources [''w''] ''a'' = Inr demo_text"
    unfolding readInput_Inr input_file_def plain_rel_def
    by (simp add: MaxLinks_def demo_disk searchable_def MiB_def demo_text_def)
  then have "prepare_entries demo_sources [''w''] (go_range (sp_Inputs demo_spec)) 0 (sp_Inputs demo_spec)
      = Inr (fmupd ''a'' (sum256 demo_text) fmempty)"
    by (simp add: demo_spec_def range_single MiB_def) (simp add: demo_text_def)
  moreover have "CreatePath demo_os demo_sources ''/o'' = Some [''o'']"
    by (simp add: CreatePath_def create_in_def start_def demo_disk searchable_def)
  ultimately show ?thesis
    using demo_load demo_spec_text[of demo_text] by (simp add: Prepare_def demo_loaded_def write_new_def Let_def)
qed

lemma prepare_then_load_witness:
  "\<exists>s'. fmlookup (sp_Inputs s') ''a'' = Some (sum256 demo_text)
     \<and> (\<exists>c. sc_Spec c = s' \<and> Load demo_os (snd (Prepare demo_os demo_sources ''/s'' ''/p'' ''/w'' ''/o'' Written))
          ''/o'' ''/p'' ''/w'' = Inr (c, Inr ()))"
proof -
  have run: "Prepare demo_os demo_sources ''/s'' ''/p'' ''/w'' ''/o'' Written
      = (Inr (), snd (Prepare demo_os demo_sources ''/s'' ''/p'' ''/w'' ''/o'' Written))"
    using demo_prepare by (simp add: prod_eq_iff)
  from prepare_then_load[OF run demo_disk(7)] demo_load obtain s' where
    p: "prepared demo_sources (sc_Workspace demo_loaded) (sc_Spec demo_loaded) s'" and "Load demo_os
      (snd (Prepare demo_os demo_sources ''/s'' ''/p'' ''/w'' ''/o'' Written)) ''/o'' ''/p'' ''/w''
      = Inr (demo_loaded\<lparr>sc_Spec := s', sc_Digest := config_digest s' (sc_programSum demo_loaded)
          (sc_Workspace demo_loaded) (sc_Program demo_loaded)\<rparr>, Inr ())"
    by auto
  moreover have "fmlookup (sp_Inputs s') ''a'' = Some (sum256 demo_text)"
  proof -
    have "fmlookup (sp_Inputs (sc_Spec demo_loaded)) ''a'' = Some (sum256 (crlf_to_lf demo_text))"
      by (simp add: demo_loaded_def demo_spec_def)
    with p obtain b where "input_file demo_sources [''w''] ''a'' b" "fmlookup (sp_Inputs s') ''a'' = Some (sum256 b)"
      by (auto simp: prepared_def demo_loaded_def)
    then show ?thesis
      by (auto simp: input_file_def MaxLinks_def demo_disk searchable_def)
  qed
  ultimately show ?thesis
    by (intro exI[of _ s'] exI[of _ "demo_loaded\<lparr>sc_Spec := s', sc_Digest := config_digest s' (sc_programSum demo_loaded)
        (sc_Workspace demo_loaded) (sc_Program demo_loaded)\<rparr>"] conjI) simp_all
qed

section \<open>Receipts\<close>

text \<open>
  C38.  A receipt is written once and read back: after a receipt was saved for a check, whatever files others
  then create, no further receipt of the check is saved and nothing is overwritten; and while the file can be
  read, loading it gives exactly the receipt, if it is one the service accepts and its time is not in the
  future.
\<close>

theorem receipt_written_once:
  assumes "saveReceipt w root ident r h = (Inr (), h1)"
    and "lw_Others w (lh_Touch h1) (lh_Files h1) = make_files ps (lh_Files h1)"
  shows "fst (saveReceipt w root ident r' h1) = Inl ErrReceipt
    \<and> lh_Files (snd (saveReceipt w root ident r' h1)) \<in> {lh_Files h1, make_files ps (lh_Files h1)}
    \<and> (good_receipt r \<longrightarrow> check_receipt ident r
       \<longrightarrow> ReadFile (make_files ps (lh_Files h1)) (receiptPath root ident) \<noteq> None
       \<longrightarrow> st_Time (rc_Finished r) \<le> o_Now (lw_World w) (h_Tick (lh_Host h1)) + Second
       \<longrightarrow> fst (loadReceipt w root ident h1) = Inr r)"
proof (rule saveReceipt_Inr[OF assms(1)])
  assume "put_file (lw_Others w (lh_Touch h) (lh_Files h)) (receiptPath root ident) (receipt_bytes r) = Some (lh_Files h1)"
  from saved_twice[OF this assms(2)] saved_loads[OF assms] show ?thesis by blast
qed

definition demo_lworld :: lworld where
  "demo_lworld = \<lparr>lw_World = demo_world, lw_Others = \<lambda>n fs. fs, lw_Disk = \<lambda>n. Written, lw_Sqlite = \<lambda>n. None\<rparr>"

definition demo_receipt :: Receipt where
  "demo_receipt = \<lparr>rc_Version = 1, rc_Task = ''t'', rc_Operation = ''op_t'', rc_Attempt = ''att_t'', rc_Lease = ''lease_t'',
     rc_Generation = 1, rc_Config = replicate 64 (CHR ''a''), rc_ExitCode = 0, rc_OutputBytes = 2,
     rc_OutputHash = sum256 ''ok'', rc_InputsMatch = True, rc_Finished = \<lparr>st_Time = demo_time, st_Zone = 0\<rparr>\<rparr>"

definition demo_store_files :: files where
  "demo_store_files = \<lparr>fs_Nodes = fmap_of_list [([''r''], Dir), ([''r'', ''receipts''], Dir)], fs_Denied = (\<lambda>p. False)\<rparr>"

definition demo_lhost :: "Repository \<Rightarrow> lhost" where
  "demo_lhost r = \<lparr>lh_Host = \<lparr>h_Repo = r, h_Tick = 0\<rparr>, lh_Files = demo_store_files, lh_Touch = 0\<rparr>"

lemma validDigest_sum: "validDigest (sum256 b)"
proof -
  have "set ''0123456789abcdef'' \<subseteq> set ''0123456789abcdefABCDEF''"
    by simp
  then show ?thesis
    using sha256_hex_digits[of b]
    by (simp add: validDigest_def sum256_def hex_decodes_def list_all_iff is_hex_char_def subset_iff del: list.set)
qed

lemma digits_strip: "length (rstrip_zeros (digits n m)) \<le> n"
proof -
  obtain k where "digits n m = rstrip_zeros (digits n m) @ replicate k (CHR ''0'')"
    by (rule rstrip_zeros)
  then have "length (digits n m) = length (rstrip_zeros (digits n m)) + k"
    by (metis length_append length_replicate)
  then show ?thesis by simp
qed

lemma time_text_length: "time_range t \<Longrightarrow> length (time_text t) \<le> 30"
proof -
  assume "time_range t"
  then have "length (date_text (t div (86400 * Second))) = 10"
    using parse_date_text by (simp add: time_range_def)
  then show ?thesis
    using digits_strip[of 9 "nat (t mod (86400 * Second)) mod 1000000000"]
    by (simp add: time_text_def Let_def clock_text_def fraction_text_def)
qed

lemma demo_time_range: "time_range demo_time"
  by code_simp

lemma demo_receipt_words: "list_all (\<lambda>k. escape k = k \<and> utf8_Valid k) [''t'', ''op_t'', ''att_t'', ''lease_t'', replicate 64 (CHR ''a'')]"
  "validDigest (replicate 64 (CHR ''a''))"
  by (simp_all add: escape_key key_char_def code_def validDigest_def hex_decodes_def list_all_iff)

lemma demo_receipt_good: "good_receipt demo_receipt" "check_receipt ''t'' demo_receipt"
  using demo_receipt_words sum256_shape demo_time_range validDigest_sum
  by (simp_all add: demo_receipt_def good_receipt_def check_receipt_def int64_range_def operationID_def
      time_IsZero_def zero_time_def demo_time_def Second_def)

lemma demo_receipt_text: "marshal_receipt demo_receipt = Inr (receipt_bytes demo_receipt)"
   "length (receipt_bytes demo_receipt) \<le> 4096"
proof -
  have m: "marshal_receipt demo_receipt = Inr (json_text (receipt_json demo_receipt))"
    using demo_time_range by (simp add: marshal_receipt_def stamp_range_def demo_receipt_def)
  then show "marshal_receipt demo_receipt = Inr (receipt_bytes demo_receipt)"
    by (simp add: receipt_bytes_def)
  have "length (json_text (receipt_json demo_receipt)) \<le> 4096"
    using decimal_length[of 0] decimal_length[of 1] decimal_length[of 2] demo_receipt_words(1)
      time_text_length[OF demo_time_range]
    by (simp add: demo_receipt_def receipt_json_def json_text_def jstr_def jint_def juint_def int_text_def escape_sum
        stamp_text_def)
  with m show "length (receipt_bytes demo_receipt) \<le> 4096"
    by (simp add: receipt_bytes_def)
qed

lemma demo_save:
  assumes "lw_Others w 0 demo_store_files = demo_store_files" "lw_Disk w 0 = Written"
  shows "saveReceipt w [''r''] ''t'' demo_receipt (demo_lhost r) = (Inr (), (demo_lhost r)
    \<lparr>lh_Files := put_node [''r'', ''receipts'', ''t.json''] (File (receipt_bytes demo_receipt)) demo_store_files, lh_Touch := 1\<rparr>)"
  using demo_receipt_text assms
  by (simp add: saveReceipt_def on_files_def demo_lhost_def write_new_def receiptPath_def Create_def
      create_in_def demo_store_files_def MaxLinks_def node_at_def searchable_def fmlookup_of_list)

text \<open>Others make a file of their own and fail to make one of that name.\<close>

definition demo_busy :: lworld where
  "demo_busy = demo_lworld\<lparr>lw_Others := \<lambda>n fs. if n = 1
     then make_files [([''r'', ''x''], ''y''), (receiptPath [''r''] ''t'', ''forged'')] fs else fs\<rparr>"

lemma receipt_written_once_witness:
  "fst (loadReceipt demo_busy [''r''] ''t'' (snd (saveReceipt demo_busy [''r''] ''t'' demo_receipt (demo_lhost memory_New))))
     = Inr demo_receipt"
proof -
  let ?h1 = "(demo_lhost memory_New)\<lparr>lh_Files := put_node [''r'', ''receipts'', ''t.json''] (File (receipt_bytes demo_receipt))
     demo_store_files, lh_Touch := 1\<rparr>"
  let ?ps = "[([''r'', ''x''], ''y''), (receiptPath [''r''] ''t'', ''forged'')]"
  have save: "saveReceipt demo_busy [''r''] ''t'' demo_receipt (demo_lhost memory_New) = (Inr (), ?h1)"
    by (rule demo_save) (simp_all add: demo_busy_def demo_lworld_def)
  have later: "lw_Others demo_busy (lh_Touch ?h1) (lh_Files ?h1) = make_files ?ps (lh_Files ?h1)"
    by (simp add: demo_busy_def)
  have "ReadFile (make_files ?ps (lh_Files ?h1)) (receiptPath [''r''] ''t'') \<noteq> None"
    by (simp add: demo_lhost_def receiptPath_def Create_def create_in_def demo_store_files_def MaxLinks_def node_at_def
        searchable_def fmlookup_of_list put_node_def ReadFile_def contents_def)
  moreover have "st_Time (rc_Finished demo_receipt) \<le> o_Now (lw_World demo_busy) (h_Tick (lh_Host ?h1)) + Second"
    by (simp add: demo_receipt_def demo_busy_def demo_lworld_def demo_world_def demo_lhost_def Second_def)
  ultimately show ?thesis
    using receipt_written_once[OF save later, of demo_receipt] demo_receipt_good by (simp add: save)
qed

section \<open>Verification\<close>


declare receipt_bytes_def [code del]













section \<open>One run\<close>

text \<open>
  C40.  A check runs its command at most once: if the outcome of a check depends on the command at all, that
  is, if it got as far as the worker, then no later check of the same task, by whatever process with whatever
  configuration and after whatever work of others on the store, depends on the command any more, and each of
  them returns an error.
\<close>

theorem check_runs_once:
  assumes "reachable mj (repo_of h)" "fair mj (lw_World w)" "fair mj (lw_World w')"
    and "Check mj w os m root ident config h = (x, h1)" and "works mj (repo_of h1) (repo_of h2)"
  shows "(\<forall>m1. Check mj w os m1 root ident config h = (x, h1))
    \<or> (\<forall>os' root' config' m1 m2. Check mj w' os' m1 root' ident config' h2 = Check mj w' os' m2 root' ident config' h2
        \<and> snd (snd (fst (Check mj w' os' m1 root' ident config' h2))) \<noteq> None)"
proof (rule disjCI)
  assume "\<not> (\<forall>os' root' config' m1 m2. Check mj w' os' m1 root' ident config' h2 = Check mj w' os' m2 root' ident config' h2
        \<and> snd (snd (fst (Check mj w' os' m1 root' ident config' h2))) \<noteq> None)"
  then have none: "fmlookup (d_tasks (repo_d (repo_of h2))) ident = None \<or> \<not> integrity (repo_d (repo_of h2))"
    using Check_known[OF assms(3)] by blast
  have I: "integrity (repo_d (repo_of h))" by (rule kept.reachable_P[OF assms(1)])
  have I1: "integrity (repo_d (repo_of h1))"
    using works_good[OF toilsLD[OF toilsL_Check[OF assms(2)] assms(4)] I] by simp
  then have "fmlookup (d_tasks (repo_d (repo_of h1))) ident = None"
    using none task_stays[OF assms(5) I1, of ident] works_good[OF assms(5) I1] by blast
  then show "\<forall>m1. Check mj w os m1 root ident config h = (x, h1)"
    using Check_command[OF _ assms(4,2) I] assms(4) by metis
qed

definition demo_command :: "string \<Rightarrow> command" where
  "demo_command output = \<lparr>cm_Before = demo_sources, cm_Start = None, cm_Chunks = [output], cm_Ended = Waited, cm_CtxErr = None,
     cm_ExitCode = 0, cm_After = demo_sources, cm_Finished = demo_time\<rparr>"

text \<open>The first check on an empty store, and the next one after it.\<close>

definition demo_fresh :: lhost where
  "demo_fresh = (demo_lhost memory_New)\<lparr>lh_Files := demo_inputs\<rparr>"

lemma check_runs_once_witness:
  "\<exists>x h1. Check demo_marshal demo_lworld demo_os (demo_command ''ok'') ''/r'' ''t'' demo_config demo_fresh = (x, h1)
     \<and> ((\<forall>m1. Check demo_marshal demo_lworld demo_os m1 ''/r'' ''t'' demo_config demo_fresh = (x, h1))
        \<or> Check demo_marshal demo_busy demo_os (demo_command ''ok'') ''/r'' ''t'' demo_config h1
            = Check demo_marshal demo_busy demo_os (demo_command ''no'') ''/r'' ''t'' demo_config h1)"
proof -
  obtain x h1 where run: "Check demo_marshal demo_lworld demo_os (demo_command ''ok'') ''/r'' ''t'' demo_config demo_fresh
      = (x, h1)" by fastforce
  have "reachable demo_marshal (repo_of demo_fresh)" "fair demo_marshal (lw_World demo_lworld)"
    "fair demo_marshal (lw_World demo_busy)"
    using reachable_New demo_fair by (simp_all add: demo_fresh_def demo_lhost_def demo_lworld_def demo_busy_def)
  from check_runs_once[OF this run works_refl] run show ?thesis by blast
qed

end
