(* ===== verification/Spec2Isabelle.thy ===== *)
theory Spec2Isabelle
  imports Demo TransportTheorems LocalTheorems
begin

text \<open>
  A verification development for the agent control plane: a store of tasks, operations, attempts and
  evidence that decides, in one transaction at a time, what agents may do; a runner that has a worker carry
  out one operation; a transport that talks to a worker in a process of its own; and a service that runs one
  local check as one task.  Every definition is translated from the Go source under \<open>src/internal\<close>; the
  properties C1 to C28 are in this theory, C29 to C35 in \<open>TransportTheorems\<close>, C36 to C40 in
  \<open>LocalTheorems\<close>.

  The parts and how they interact.
  \<^item> \<open>protocol\<close> (\<open>Protocol\<close>) has the messages, the descriptors of operations and their validators;
    \<open>state\<close> (\<open>StateMachine\<close>) the states and the allowed transitions; \<open>evidence\<close> (\<open>Evidence\<close>) the
    records and verdicts.
  \<^item> \<open>persistence\<close> (\<open>Persistence\<close>) states the contract of a stored table as the locale
    \<open>keyed_table\<close>; \<open>persistence/memory\<close> (\<open>Memory\<close>) is the repository: the record \<open>data\<close> of finite
    maps, a transaction that works on a copy, \<open>View\<close> and \<open>Update\<close>, and an interpretation of the locale per
    table.  \<open>persistence/retention.go\<close> is \<open>Retention\<close>.
  \<^item> \<open>core\<close> is \<open>Core\<close> (the unexported methods on one transaction), \<open>Store\<close> (\<open>Store\<close> and
    \<open>Transaction\<close>; a callback of \<open>ProcessMessage\<close> is a tree of calls) and \<open>Recovery\<close>.
  \<^item> \<open>execution\<close> is \<open>Contract\<close> (limits, requests, jobs, the exact policy, the local worker) and
    \<open>Runner\<close> (\<open>Execute\<close>, written over a host that holds the repository and a counter of the accesses).
  \<^item> \<open>reference\<close> is \<open>Reference\<close>: a verification of the reference fixture.
  \<^item> \<open>transport/process\<close> is \<open>Wire\<close> (frames down to their bytes, over \<open>JsonText\<close>, \<open>Json\<close> and
    \<open>Rfc3339\<close>, which hold what the program uses of \<open>encoding/json\<close>, \<open>unicode/utf8\<close> and
    \<open>time\<close>), \<open>Serve\<close> (the worker's side) and \<open>Transport\<close> (the controller's side and its slots).
  \<^item> \<open>localcheck\<close> is \<open>LocalSpec\<close> (\<open>spec.go\<close>: profiles, pinned inputs), \<open>LocalWorker\<close>
    (\<open>worker.go\<close>: the command and its receipt) and \<open>LocalService\<close> (\<open>service.go\<close>), over \<open>Files\<close>,
    a tree of files with links, refusals and exclusive creation.
  \<open>GoStd\<close>, \<open>Sha256\<close> and \<open>Prelude\<close> hold the standard library and the shared automation.

  How state and effects are written.  A transaction is a function from the state to a result and a state; an
  error is a value of \<open>error\<close>, and errors are compared as \<open>errors.Is\<close> compares them.  A Go map is a
  finite map and is iterated in the order of its keys where the code sorts, or where the order is proved
  not to matter (C36).  Revisions and generations are 64-bit words, sizes and times integers.  Whatever the
  program does not determine is a parameter for which the theorems are quantified: the clock, the answers of
  a context, what other processes do to the store or to the files between two accesses (\<open>world\<close>,
  \<open>lworld\<close>), a worker (\<open>script\<close>), a provider, a policy, the bytes of a pipe, what the operating
  system does to a child (\<open>command\<close>), and \<open>json.Marshal\<close> of an envelope's payload (\<open>marshal\<close>).
  The assumption \<open>fair\<close> says that others use the store through its exported calls only.

  What the lemmas show.
  \<^item> \<open>Integrity\<close>, \<open>Frames\<close>, \<open>Preserve\<close>, \<open>Verdicts\<close> and \<open>System\<close>: each method keeps the
    integrity of the data (the constraints of the SQLite schema and the agreement of operations, attempts,
    reservations and tasks) and only extends history; hence so does every reachable state (C1 to C4).
  \<^item> \<open>Conformance\<close>: each call moves an operation along the documented table at most (C5, C10 to C13).
  \<^item> \<open>Guarantees\<close>: messages take effect once, revisions are spent once, authority is unique and does not
    come back, a failed call aborts the transaction (C6 to C9, C14, C15).
  \<^item> \<open>Recovery\<close> and \<open>Retention\<close>: completion, recovery pages and garbage collection (C16 to C19).
  \<^item> \<open>Dispatch\<close>: a run of the runner is a sequence of store calls; what a dispatch, a report and a loss
    presuppose and leave behind (C20 to C28, with \<open>Reference\<close>).
  \<^item> \<open>Conversation\<close>: the two ends of the pipes together amount to the worker itself (C29 to C35).
  \<^item> \<open>LocalProfile\<close>, \<open>LocalFacts\<close> and \<open>LocalReceipts\<close>: what was prepared is loaded, what the
    check service does to the store is a sequence of store calls, receipts are written once by the locale
    \<open>write_once\<close> of exclusive creation, and a verification follows the receipt (C36 to C40).

  Bounds and fuel.  The parser of JSON runs on fuel, the number of the lexemes of the text: every call uses
  one, and \<open>parse_complete\<close> shows that it is enough for every value that was written.  The resolution of a
  path follows at most 40 links in the kernel and 255 in \<open>EvalSymlinks\<close>, as the systems do.  Every other
  recursion is structural or has its measure.  The limits of the program (frames, nesting, heartbeats, sizes
  of inputs, rows of a collection) are its constants.

  Findings.  \<open>uniqueJSON\<close> compares the lower-case form of keys, but \<open>encoding/json\<close> matches names by
  case folding: a field whose name has an \<open>s\<close> can be given twice with U+017F (C35).  \<open>docs/state_model.md\<close>
  lists two attempt states that the code does not have.

  Not modelled.
  \<^item> \<open>protocol/id.go\<close>: sixteen bytes of \<open>crypto/rand\<close> behind a prefix.
  \<^item> \<open>persistence/sqlite\<close>: its meaning is that of its SQL statements in SQLite, which is not code of the
    repository.  The memory repository implements the same interface, and the integrity proved of it
    includes the constraints that the SQL schema declares; the local check service is modelled over it.
  \<^item> \<open>Worker.Snapshot\<close> and its counters, the killing and reaping of processes, mutexes and goroutines:
    the store runs one transaction at a time and a worker is the script of what it does.
  \<^item> \<open>cmd\<close>: flags, printing and exit codes.
  \<^item> Of the standard library: paths of Windows, \<open>strings.ToLower\<close> beyond what the program can observe
    of it, and a JSON array that is given twice for one field of a profile.
\<close>

section \<open>The stored state\<close>

text \<open>
  C1.  Every state the store can reach from an empty repository, by any sequence of its exported
  calls with any arguments and any callbacks, garbage collection included, satisfies every
  constraint that the SQLite schema declares (keys, foreign keys, non-zero bounded revisions, unique
  leases and generations), and operations, attempts, reservations and tasks agree with each other.
\<close>

theorem reachable_integrity:
  assumes "reachable mj r"
  shows "integrity (repo_d r)"
  using assms by (rule kept.reachable_P)

lemma reachable_integrity_witness:
  "integrity (repo_d demo_running) \<and> fmlookup (d_reservations (repo_d demo_running)) ''s'' \<noteq> None"
  using reachable_integrity[OF demo_reachable(4)] by (rule conjI) code_simp

text \<open>
  C2.  Mutual exclusion: two operations that must hold their conflict scopes (mutations executing,
  verifying or with unknown outcome) never share a scope.
\<close>

theorem exclusive_conflict_scopes:
  assumes "reachable mj r"
    and "fmlookup (d_ops (repo_d r)) j = Some p" and "fmlookup (d_ops (repo_d r)) k = Some q"
    and "HoldsConflictReservation p" and "HoldsConflictReservation q"
    and "s \<in> set (od_ConflictScope (op_Descriptor p))" and "s \<in> set (od_ConflictScope (op_Descriptor q))"
  shows "j = k"
proof -
  note held = held_okD[OF integrityD(6)[OF kept.reachable_P[OF assms(1)]]]
  from held[OF assms(2,4,6)] held[OF assms(3,5,7)] show ?thesis by auto
qed

lemma exclusive_conflict_scopes_witness:
  "\<exists>p. fmlookup (d_ops (repo_d demo_running)) ''o'' = Some p \<and> (\<forall>j q. fmlookup (d_ops (repo_d demo_running)) j = Some q
     \<and> HoldsConflictReservation q \<and> ''s'' \<in> set (od_ConflictScope (op_Descriptor q)) \<longrightarrow> j = ''o'')"
proof -
  have "(case fmlookup (d_ops (repo_d demo_running)) ''o'' of Some p \<Rightarrow> HoldsConflictReservation p
      \<and> ''s'' \<in> set (od_ConflictScope (op_Descriptor p)) | None \<Rightarrow> False)" by code_simp
  then obtain p where p: "fmlookup (d_ops (repo_d demo_running)) ''o'' = Some p"
    "HoldsConflictReservation p" "''s'' \<in> set (od_ConflictScope (op_Descriptor p))"
    by (auto split: option.splits)
  with exclusive_conflict_scopes[OF demo_reachable(4)] show ?thesis by blast
qed

text \<open>
  C3.  Outcomes are vouched for: in every reachable state an operation has succeeded (failed) only
  with a stored verification of that operation, under its own verification policy, whose verdict is
  "satisfied" ("not satisfied, terminal"); and a task is completed only if all its operations have
  succeeded.
\<close>

theorem outcomes_vouched:
  assumes "reachable mj r" and "fmlookup (d_ops (repo_d r)) k = Some opn"
  shows "(op_State opn = OperationSucceeded \<longrightarrow> vouched (repo_d r) opn VerdictSatisfied)
    \<and> (op_State opn = OperationFailed \<longrightarrow> vouched (repo_d r) opn VerdictNotSatisfiedTerminal)
    \<and> (\<forall>task. fmlookup (d_tasks (repo_d r)) (od_TaskID (op_Descriptor opn)) = Some task \<longrightarrow>
         task_State task = TaskCompleted \<longrightarrow> op_State opn = OperationSucceeded)"
  using trusted.reachable_P[OF assms(1)] assms(2) unfolding trusted_def honest_def by blast

lemma outcomes_vouched_witness:
  "\<exists>opn. fmlookup (d_ops (repo_d demo_completed)) ''o'' = Some opn
     \<and> vouched (repo_d demo_completed) opn VerdictSatisfied"
proof -
  have "(case fmlookup (d_ops (repo_d demo_completed)) ''o'' of Some p \<Rightarrow> op_State p = OperationSucceeded
      | None \<Rightarrow> False)" by code_simp
  then obtain p where "fmlookup (d_ops (repo_d demo_completed)) ''o'' = Some p" "op_State p = OperationSucceeded"
    by (auto split: option.splits)
  with outcomes_vouched[OF demo_reachable(8)] show ?thesis by blast
qed

text \<open>
  C4.  Outside garbage collection history only grows: no task, operation, attempt, evidence,
  verification, revocation or message disappears; descriptors, evidence, verifications, messages and
  the identity of attempts never change; revisions, lease generations and the message floor never
  go back; and no attempt that has stopped being live becomes live again.
\<close>

theorem history_only_grows:
  assumes "reachable mj r" and "works mj r r'"
  shows "extends (repo_d r) (repo_d r')"
  using works_good[OF assms(2) kept.reachable_P[OF assms(1)]] by blast

lemma history_only_grows_witness: "extends (repo_d demo_running) (repo_d demo_completed)"
proof -
  have "works demo_marshal demo_running demo_completed"
    unfolding demo_completed_def demo_succeeded_def demo_verifying_def demo_observed_def
    by (rule works_step[OF works_step[OF works_step[OF works_step[OF works_refl
        register_evidence[OF surjective_pairing]] begin_verification[OF surjective_pairing]]
        apply_verification[OF surjective_pairing]] finalize[OF surjective_pairing]])
  then show ?thesis by (rule history_only_grows[OF demo_reachable(4)])
qed

text \<open>
  C5.  Terminal is final: outside garbage collection an operation that has succeeded, failed or been
  cancelled keeps that state, and a terminal task never changes at all.
\<close>

theorem terminal_is_final:
  assumes "reachable mj r" and "works mj r r'"
  shows "settled (repo_d r) (repo_d r')"
  by (rule works_settled[OF assms(2) kept.reachable_P[OF assms(1)]])

lemma terminal_is_final_witness:
  "settled (repo_d demo_succeeded) (repo_d demo_completed)
   \<and> map_option op_State (fmlookup (d_ops (repo_d demo_succeeded)) ''o'') = Some OperationSucceeded"
proof (rule conjI)
  have "works demo_marshal demo_succeeded demo_completed"
    unfolding demo_completed_def by (rule works_step[OF works_refl finalize[OF surjective_pairing]])
  then show "settled (repo_d demo_succeeded) (repo_d demo_completed)"
    by (rule terminal_is_final[OF demo_reachable(7)])
qed code_simp

section \<open>Messages\<close>

text \<open>
  C6.  A message takes effect at most once: after \<open>ProcessMessage\<close> has accepted an envelope, and
  whatever happens next, garbage collection included, a further delivery of it runs no callback,
  changes nothing and is never reported as new.
\<close>

theorem message_at_most_once:
  assumes "reachable mj r" and "ProcessMessage mj ctx clock env fn r = (Inr False, r1)"
    and "steps mj r1 r2" and "ProcessMessage mj ctx' clock' env fn' r2 = (x, r3)"
  shows "x \<noteq> Inr False \<and> r3 = r2"
  using seen_redelivered[OF seen.steps_P[OF assms(3)
      accepted_seen[OF kept.reachable_P[OF assms(1)] assms(2)]] assms(4)] by blast

lemma demo_accepts: "fst (ProcessMessage demo_marshal Background demo_time demo_env None demo_task) = Inr False"
  by code_simp

lemma message_at_most_once_witness:
  "\<exists>r1. ProcessMessage demo_marshal Background demo_time demo_env None demo_task = (Inr False, r1)
     \<and> snd (ProcessMessage demo_marshal Background demo_time demo_env None r1) = r1"
proof -
  obtain r1 where r1: "ProcessMessage demo_marshal Background demo_time demo_env None demo_task = (Inr False, r1)"
    using demo_accepts by (metis eq_fst_iff)
  from message_at_most_once[OF demo_reachable(1) r1 steps_refl surjective_pairing] r1 show ?thesis by blast
qed

text \<open>
  C7.  In its replay window a known message is answered from the store: "duplicate" when its digest is
  the stored one, \<open>ErrMessageIDCollision\<close> when the same id carries other content; nothing changes.
\<close>

theorem known_message_answered:
  assumes "validate_envelope env = Inr ()" and "in_window (d_messageFloor (repo_d r)) clock env"
    and "message_digest mj (utc_env env) = Inr dg"
    and "fmlookup (d_messages (repo_d r)) (env_MessageID env) = Some m" and "\<not> repo_closed r"
  shows "ProcessMessage mj Background clock env fn r =
    (if msg_Digest m = dg then Inr True else Inl ErrMessageIDCollision, r)"
  by (rule known_redelivered[OF assms])

definition demo_collision :: Repository where
  "demo_collision = memory_New\<lparr>repo_d := empty_data\<lparr>d_messages := fmupd ''m'' \<lparr>msg_ID = ''m'', msg_TaskID = ''t'',
     msg_OperationID = '''', msg_AttemptID = '''', msg_Digest = ''other'', msg_IssuedAt = demo_time,
     msg_ExpiresAt = 0\<rparr> fmempty\<rparr>\<rparr>"

lemma known_message_answered_witness:
  "ProcessMessage demo_marshal Background demo_time demo_env None demo_collision
    = (Inl ErrMessageIDCollision, demo_collision)"
proof -
  have "message_digest demo_marshal (utc_env demo_env) = Inr (''v1:'' @ sha256_hex ''m'')"
    by (simp add: message_digest_def demo_marshal_def utc_env_def demo_env_def)
  moreover have "''other'' \<noteq> ''v1:'' @ sha256_hex ''m''" by simp
  moreover have "validate_envelope demo_env = Inr ()" by code_simp
  moreover have "in_window (d_messageFloor (repo_d demo_collision)) demo_time demo_env" by code_simp
  ultimately show ?thesis
    using known_message_answered[of demo_env demo_collision demo_time demo_marshal] 
    by (simp add: demo_collision_def memory_New_def demo_env_def)
qed

text \<open>
  C8.  A message outside its window (issued before the replay window or the message floor, or more
  than five minutes ahead of the clock) is refused as expired and changes nothing.
\<close>

theorem expired_message_refused:
  assumes "validate_envelope env = Inr ()" and "\<not> in_window (d_messageFloor (repo_d r)) clock env"
    and "\<not> repo_closed r"
  shows "ProcessMessage mj Background clock env fn r = (Inl ErrExpiredMessage, r)"
  using registerMessage_window_failed[of env "\<lparr>tx_d = repo_d r, tx_write = True\<rparr>" clock mj] assms
  by (simp add: ProcessMessage_def writeValue_def memory_Update_def memory_run_def Background_def
      process_message_def t_RegisterMessage_def exported_def)

lemma expired_message_refused_witness:
  "ProcessMessage demo_marshal Background (demo_time + 8 * 24 * Hour) demo_env None memory_New
     = (Inl ErrExpiredMessage, memory_New)"
proof (rule expired_message_refused)
  show "validate_envelope demo_env = Inr ()" by code_simp
  show "\<not> in_window (d_messageFloor (repo_d memory_New)) (demo_time + 8 * 24 * Hour) demo_env" by code_simp
  show "\<not> repo_closed memory_New" by code_simp
qed

text \<open>
  C9.  All or nothing: if any call a callback makes in the transaction fails, the whole message fails
  and the repository is unchanged, even when the callback ignores the error and returns nil.
\<close>

theorem failed_call_aborts:
  assumes "t_RegisterMessage mj env \<lparr>t_tx = \<lparr>tx_d = repo_d r, tx_write = True\<rparr>, t_failed = None,
        t_now = time_UTC clock\<rparr> = (Inr False, t1)"
    and "Inl e \<in> set (callback_replies mj f t1)"
  shows "\<exists>e'. ProcessMessage mj ctx clock env (Some f) r = (Inl e', r)"
proof -
  obtain x r' where run: "ProcessMessage mj ctx clock env (Some f) r = (x, r')" by fastforce
  show ?thesis
  proof (cases x)
    case (Inl e')
    with run writeValue_error show ?thesis unfolding ProcessMessage_def by blast
  next
    case (Inr b)
    from writeValue_ok[OF run[unfolded ProcessMessage_def Inr]] assms(1) obtain y t where
      "run_callback mj f t1 = (y, t)" "t_failed t = None"
      by (auto simp: process_message_def split: prod.splits sum.splits)
    with run_callback_replies assms(2) show ?thesis by fastforce
  qed
qed

lemma failed_call_aborts_witness:
  "\<exists>e'. ProcessMessage demo_marshal Background demo_time demo_env
     (Some (Call (CCreateTask '''' 1) (\<lambda>_. Finish (Inr ())))) demo_task = (Inl e', demo_task)"
proof -
  obtain y r1 where "ProcessMessage demo_marshal Background demo_time demo_env None demo_task = (Inr y, r1)" and y: "y = False"
    using demo_accepts by (metis eq_fst_iff)
  from writeValue_ok[OF this(1)[unfolded ProcessMessage_def]] y obtain t1 where
    t1: "t_RegisterMessage demo_marshal demo_env \<lparr>t_tx = \<lparr>tx_d = repo_d demo_task, tx_write = True\<rparr>, t_failed = None,
        t_now = time_UTC demo_time\<rparr> = (Inr False, t1)"
    by (auto simp: process_message_def split: prod.splits sum.splits if_splits)
  obtain e where "fst (t_call demo_marshal (CCreateTask '''' 1) t1) = Inl e"
  proof -
    have "\<exists>e. fst (t_call demo_marshal (CCreateTask '''' 1) t1) = Inl e"
      by (cases "t_failed t1") (simp_all add: t_defs exported_def mapR_def createTask_def failS_def)
    then show ?thesis using that by blast
  qed
  then have "Inl e \<in> set (callback_replies demo_marshal (Call (CCreateTask '''' 1) (\<lambda>_. Finish (Inr ()))) t1)"
    by (auto simp: callback_replies.simps(2) case_prod_beta simp del: t_call.simps)
  from failed_call_aborts[OF t1 this] show ?thesis .
qed

section \<open>Operations\<close>

text \<open>
  C10.  Each call of a transaction moves each operation along at most one row of the table of
  \<open>docs/state_model.md\<close>; it reaches "succeeded" ("failed") only with a stored verification of that
  verdict; new operations are planned, belong to an existing task that is not terminal, and no call
  changes the state of a task.
\<close>

theorem calls_follow_the_table:
  assumes "reachable mj r" and "t_call mj c (opened r clock) = (Inr reply, t')"
  shows "lawful (repo_d r) (tx_d (t_tx t'))"
  using call_lawful[OF _ assms(2)] kept.reachable_P[OF assms(1)] by (simp add: opened_def)

lemma calls_follow_the_table_witness:
  "lawful (repo_d demo_planned) (tx_d (t_tx (snd (t_call demo_marshal (CMarkReady ''o'' 1 2) (opened demo_planned 1)))))"
proof -
  have "(case fst (t_call demo_marshal (CMarkReady ''o'' 1 2) (opened demo_planned 1)) of Inr x \<Rightarrow> True | _ \<Rightarrow> False)"
    by code_simp
  then obtain reply where "t_call demo_marshal (CMarkReady ''o'' 1 2) (opened demo_planned 1)
      = (Inr reply, snd (t_call demo_marshal (CMarkReady ''o'' 1 2) (opened demo_planned 1)))"
    by (metis (no_types, lifting) prod.collapse sum.case_eq_if sum.collapse(2))
  then show ?thesis by (rule calls_follow_the_table[OF demo_reachable(2)])
qed

text \<open>
  C11.  Optimistic concurrency: when a call that expects a revision of an operation has succeeded, no
  later call that expects the same revision succeeds, in whatever state work has led to.
\<close>

theorem revision_spent_once:
  assumes "reachable mj r" and "t_call mj c (opened r clock) = (Inr reply, t')"
    and "call_revision c = Some (ident, rvn)" and "works mj (r\<lparr>repo_d := tx_d (t_tx t')\<rparr>) r2"
    and "call_revision c' = Some (ident, rvn)"
  shows "\<exists>e t2. t_call mj c' (opened r2 clock2) = (Inl e, t2)"
proof -
  have I: "integrity (tx_d (t_tx (opened r clock)))"
    using kept.reachable_P[OF assms(1)] by (simp add: opened_def)
  have "fine (\<lambda>s. integrity (tx_d s)) (opened r clock)" using I by (simp add: fine_def)
  with kept.call_keeps_P assms(2) have "fine (\<lambda>s. integrity (tx_d s)) t'" unfolding call_keeps_def by blast
  moreover have "t_failed t' = None" by (rule t_call_ok[OF assms(2)])
  ultimately have I': "integrity (repo_d (r\<lparr>repo_d := tx_d (t_tx t')\<rparr>))" by (simp add: fine_def)
  from call_spends[OF I assms(2,3)] obtain opn where
    opn: "fmlookup (d_ops (tx_d (t_tx t'))) ident = Some opn" "rvn < op_Revision opn"
    using counter_next(4) by auto
  from works_good[OF assms(4) I'] have good2: "integrity (repo_d r2)"
    "extends (tx_d (t_tx t')) (repo_d r2)" by simp_all
  from growsD[OF extendsD(2)[OF good2(2)] opn(1)] obtain opn2 where
    "fmlookup (d_ops (repo_d r2)) ident = Some opn2" "op_Revision opn \<le> op_Revision opn2"
    by (auto simp: op_le_def)
  with opn(2) old_revision_refused[of "opened r2 clock2" ident opn2 rvn c' mj] good2(1) assms(5)
  show ?thesis by (auto simp: opened_def)
qed

lemma demo_marks_ready:
  "\<exists>reply. t_call demo_marshal (CMarkReady ''o'' 1 2) (opened demo_planned 1)
      = (Inr reply, snd (t_call demo_marshal (CMarkReady ''o'' 1 2) (opened demo_planned 1)))"
proof -
  have "(case fst (t_call demo_marshal (CMarkReady ''o'' 1 2) (opened demo_planned 1)) of Inr x \<Rightarrow> True | _ \<Rightarrow> False)"
    by code_simp
  then show ?thesis
    by (metis (no_types, lifting) prod.collapse sum.case_eq_if sum.collapse(2))
qed

lemma revision_spent_once_witness:
  "\<exists>e t2 r2. t_call demo_marshal (CMarkReady ''o'' 1 2) (opened r2 1) = (Inl e, t2)"
  using demo_marks_ready revision_spent_once[OF demo_reachable(2) _ _ works_refl,
      where c = "CMarkReady ''o'' 1 2" and c' = "CMarkReady ''o'' 1 2" and ident = "''o''" and rvn = 1]
  by fastforce


text \<open>
  C13.  A successful \<open>StartAttempt\<close> takes a ready operation to execution under a fresh attempt with the
  next lease generation and an unused lease, and reserves exactly the operation's conflict scopes for
  it, all of which were free.
\<close>

theorem start_attempt_effect:
  assumes "reachable mj r"
    and "store_StartAttempt ctx clock ident rvn aid lease owner retry now r = (Inr (nxt, a), r')"
  shows "\<exists>opn R. starts (repo_d r) ident opn nxt a R \<and> repo_d r' = started (repo_d r) ident nxt a R
    \<and> att_ID a = aid \<and> att_LeaseID a = lease \<and> att_OwnerActorID a = owner \<and> op_Revision opn = rvn"
proof -
  from writeValue_ok[OF assms(2)[unfolded store_StartAttempt_def]] obtain s where
    run: "startAttempt ident rvn aid lease owner retry now \<lparr>tx_d = repo_d r, tx_write = True\<rparr> = (Inr (nxt, a), s)"
    and "r' = r\<lparr>repo_d := tx_d s\<rparr>"
    by (auto simp: t_StartAttempt_def exported_Inr)
  with startAttempt_starts[OF _ run] kept.reachable_P[OF assms(1)] show ?thesis by auto
qed

lemma start_attempt_effect_witness:
  "\<exists>opn nxt a R. starts (repo_d demo_ready) ''o'' opn nxt a R
     \<and> repo_d demo_running = started (repo_d demo_ready) ''o'' nxt a R"
proof -
  have "(case fst (store_StartAttempt Background 1 ''o'' 2 ''a'' ''l'' ''w'' '''' 3 demo_ready) of Inr x \<Rightarrow> True | _ \<Rightarrow> False)"
    by code_simp
  then obtain nxt a where "store_StartAttempt Background 1 ''o'' 2 ''a'' ''l'' ''w'' '''' 3 demo_ready
      = (Inr (nxt, a), demo_running)"
    unfolding demo_running_def
    by (metis (no_types, lifting) prod.collapse sum.case_eq_if sum.collapse(2))
  from start_attempt_effect[OF demo_reachable(3) this] show ?thesis by blast
qed

section \<open>Authority\<close>

text \<open>C14.  At most one attempt, lease, generation and owner has authority over an operation.\<close>

theorem single_authority:
  assumes "reachable mj r"
    and "store_CheckActiveAttemptContext ctx ident aid lease gen owner r = (Inr (), r1)"
    and "store_CheckActiveAttemptContext ctx' ident aid' lease' gen' owner' r = (Inr (), r2)"
  shows "aid' = aid \<and> lease' = lease \<and> gen' = gen \<and> owner' = owner"
  using authority_unique[OF kept.reachable_P[OF assms(1)] checkActive_store(1) checkActive_store(1)] assms(2,3)
  by (metis fst_conv)

lemma single_authority_witness:
  "{owner. fst (store_CheckActiveAttemptContext Background ''o'' ''a'' ''l'' 1 owner demo_running) = Inr ()} = {''w''}"
proof -
  have w: "fst (store_CheckActiveAttemptContext Background ''o'' ''a'' ''l'' 1 ''w'' demo_running) = Inr ()"
    by code_simp
  have "owner = ''w''"
    if "fst (store_CheckActiveAttemptContext Background ''o'' ''a'' ''l'' 1 owner demo_running) = Inr ()" for owner
    using single_authority[OF demo_reachable(4)] w that by (metis prod.collapse)
  with w show ?thesis by blast
qed

text \<open>
  C15.  Authority that is gone never comes back: once an existing attempt does not pass
  \<open>CheckActiveAttemptContext\<close>, no work ever makes it pass again.
\<close>

theorem authority_not_regained:
  assumes "reachable mj r" and "works mj r r'"
    and "fmlookup (d_attempts (repo_d r)) aid = Some a" and "\<not> repo_closed r"
    and "fst (store_CheckActiveAttemptContext Background ident aid lease gen owner r) = Inl e"
  shows "\<exists>e'. fst (store_CheckActiveAttemptContext ctx ident aid lease gen owner r') = Inl e'"
proof -
  have I: "integrity (repo_d r)" by (rule kept.reachable_P[OF assms(1)])
  from works_good[OF assms(2) I] have I': "integrity (repo_d r')" and ext: "extends (repo_d r) (repo_d r')" by simp_all
  have "\<not> holds_authority (repo_d r) ident aid lease gen owner"
    using checkActive_store(2)[OF assms(4)] assms(5) by force
  from authority_lost[OF I I' ext assms(3) this] checkActive_store(1)[of ctx ident aid lease gen owner r']
  show ?thesis by (cases "fst (store_CheckActiveAttemptContext ctx ident aid lease gen owner r')") auto
qed

lemma authority_not_regained_witness:
  "\<exists>e. fst (store_CheckActiveAttemptContext Background ''o'' ''a'' ''l'' 1 ''w'' demo_lost) = Inl e"
proof -
  have "(case fmlookup (d_attempts (repo_d demo_lost)) ''a'' of Some x \<Rightarrow> True | None \<Rightarrow> False)" by code_simp
  then obtain a where a: "fmlookup (d_attempts (repo_d demo_lost)) ''a'' = Some a" by (auto split: option.splits)
  have "fst (store_CheckActiveAttemptContext Background ''o'' ''a'' ''l'' 1 ''w'' demo_lost) = Inl ErrStaleOwnership"
    by code_simp
  moreover have "\<not> repo_closed demo_lost" by code_simp
  ultimately show ?thesis by (intro authority_not_regained[OF demo_reachable(9) works_refl a])
qed

section \<open>Completion, recovery and retention\<close>

text \<open>
  C16.  A task is finalized only when it has operations and all of them are terminal; it then fails
  if one of them failed, is cancelled if all were cancelled, and otherwise completes, which needs all
  of them to have succeeded: a mixture with cancelled ones is refused.
\<close>

theorem finalize_outcome:
  assumes "reachable mj r" and "store_FinalizeTask ctx clock ident rvn now r = (Inr task', r')"
  shows "(\<exists>opn. of_task (repo_d r) ident opn)
    \<and> (\<forall>opn. of_task (repo_d r) ident opn \<longrightarrow> terminal_operation (op_State opn))
    \<and> task_State task' =
      (if \<exists>opn. of_task (repo_d r) ident opn \<and> op_State opn = OperationFailed then TaskFailed
       else if \<forall>opn. of_task (repo_d r) ident opn \<longrightarrow> op_State opn = OperationCancelled then TaskCancelled
       else TaskCompleted)
    \<and> (task_State task' = TaskCompleted \<longrightarrow>
         (\<forall>opn. of_task (repo_d r) ident opn \<longrightarrow> op_State opn = OperationSucceeded))
    \<and> task_Revision task' = rvn + 1 \<and> fmlookup (d_tasks (repo_d r')) ident = Some task'"
proof -
  from writeValue_ok[OF assms(2)[unfolded store_FinalizeTask_def]] obtain s where
    run: "finalizeTask ident rvn now \<lparr>tx_d = repo_d r, tx_write = True\<rparr> = (Inr task', s)"
    and r': "r' = r\<lparr>repo_d := tx_d s\<rparr>"
    by (auto split: prod.splits)
  obtain task where task: "fmlookup (d_tasks (repo_d r)) ident = Some task"
    and new: "task' = task\<lparr>task_State := task_State task', task_Revision := rvn + 1, task_UpdatedAt := now\<rparr>"
    and s: "s = \<lparr>tx_d = d_tasks_update (fmupd (task_ID task) task') (repo_d r), tx_write = True\<rparr>"
    and facts: "\<forall>opn. of_task (repo_d r) ident opn \<longrightarrow> terminal_operation (op_State opn)"
      "\<exists>opn. of_task (repo_d r) ident opn"
      "task_State task' = (if \<exists>opn. of_task (repo_d r) ident opn \<and> op_State opn = OperationFailed then TaskFailed
       else if \<forall>opn. of_task (repo_d r) ident opn \<longrightarrow> op_State opn = OperationCancelled then TaskCancelled
       else TaskCompleted)"
      "task_State task' = TaskCompleted \<longrightarrow>
        (\<forall>opn. of_task (repo_d r) ident opn \<longrightarrow> op_State opn = OperationSucceeded)"
  proof (rule finalizeTask_Inr[OF run], goal_cases)
    case (1 tk)
    then show ?case unfolding transaction.simps by (intro 1(1)[of tk]) assumption+
  qed
  have "task_ID task = ident"
    using integrityD(10)[OF kept.reachable_P[OF assms(1)] task] by (simp add: task_row_def)
  moreover have "task_Revision task' = rvn + 1" by (subst new) simp
  ultimately have "task_Revision task' = rvn + 1" "fmlookup (d_tasks (repo_d r')) ident = Some task'"
    by (simp_all add: r' s)
  with facts show ?thesis by (intro conjI)
qed

lemma finalize_outcome_witness:
  "\<exists>task'. store_FinalizeTask Background 1 ''t'' 1 7 demo_succeeded = (Inr task', demo_completed)
     \<and> fmlookup (d_tasks (repo_d demo_completed)) ''t'' = Some task'
     \<and> (\<forall>opn. of_task (repo_d demo_succeeded) ''t'' opn \<longrightarrow> terminal_operation (op_State opn))"
proof -
  have "(case fst (store_FinalizeTask Background 1 ''t'' 1 7 demo_succeeded) of Inr x \<Rightarrow> True | _ \<Rightarrow> False)"
    by code_simp
  then obtain task' where "store_FinalizeTask Background 1 ''t'' 1 7 demo_succeeded = (Inr task', demo_completed)"
    unfolding demo_completed_def
    by (metis (no_types, lifting) prod.collapse sum.case_eq_if sum.collapse(2))
  with finalize_outcome[OF demo_reachable(7) this] show ?thesis by blast
qed

text \<open>
  C17.  Recovery inspection of a reachable state never fails for a legal page size: the page holds,
  in the order of their ids and each with its task, class, attempt in charge and revocation, exactly
  the operations after the cursor up to \<open>Next\<close>, or all of them when \<open>Next\<close> is empty.
\<close>

theorem recovery_complete:
  assumes "reachable mj r" and "\<not> repo_closed r" and "1 \<le> limit" and "limit \<le> MaxPageSize"
  shows "\<exists>page. store_InspectRecovery Background after limit r = (Inr page, r)
    \<and> (\<forall>item \<in> set (rp_Items page). describes (repo_d r) (ri_Operation item) item
         \<and> fmlookup (d_ops (repo_d r)) (od_ID (op_Descriptor (ri_Operation item))) = Some (ri_Operation item))
    \<and> sorted_wrt (<) (map (\<lambda>item. od_ID (op_Descriptor (ri_Operation item))) (rp_Items page))
    \<and> int (length (rp_Items page)) \<le> limit
    \<and> (\<forall>k opn. fmlookup (d_ops (repo_d r)) k = Some opn \<longrightarrow>
         ((\<exists>item \<in> set (rp_Items page). ri_Operation item = opn)
           \<longleftrightarrow> after < k \<and> (rp_Next page = '''' \<or> k \<le> rp_Next page)))"
  using inspect_recovery_page[of "\<lparr>tx_d = repo_d r, tx_write = False\<rparr>" limit after]
    kept.reachable_P[OF assms(1)] assms(2-4)
  by (auto simp: store_InspectRecovery_def memory_View_def memory_run_def Background_def)

lemma recovery_complete_witness:
  "\<exists>page. store_InspectRecovery Background '''' 10 demo_running = (Inr page, demo_running)
     \<and> (\<forall>k opn. fmlookup (d_ops (repo_d demo_running)) k = Some opn \<longrightarrow>
         ((\<exists>item \<in> set (rp_Items page). ri_Operation item = opn)
           \<longleftrightarrow> '''' < k \<and> (rp_Next page = '''' \<or> k \<le> rp_Next page)))"
proof -
  have "\<not> repo_closed demo_running" by code_simp
  moreover have "(1::int) \<le> 10" "(10::int) \<le> MaxPageSize" by (simp_all add: MaxPageSize_def)
  ultimately show ?thesis using recovery_complete[OF demo_reachable(4)] by blast
qed


definition demo_gc :: GCOptions where
  "demo_gc = \<lparr>gc_Now = 40 * 24 * Hour, gc_After = '''', gc_MaxTasks = 5, gc_MaxRows = 50\<rparr>"


text \<open>
  C19.  A collection, successful or not, spares an operation whose task is not terminal or not past its
  retention, with its whole graph of attempts, evidence, verifications and revocations.
\<close>

theorem collection_spares:
  assumes "reachable mj r" and "Collect ctx opt r = (x, r')"
    and "fmlookup (d_ops (repo_d r)) k = Some opn"
    and "od_TaskID (op_Descriptor opn) \<notin> collectable opt (repo_d r)"
  shows "fmlookup (d_ops (repo_d r')) k = Some opn
    \<and> (\<forall>i a. fmlookup (d_attempts (repo_d r)) i = Some a \<longrightarrow> att_OperationID a = k \<longrightarrow>
         fmlookup (d_attempts (repo_d r')) i = Some a)
    \<and> (\<forall>i e. fmlookup (d_evidence (repo_d r)) i = Some e \<longrightarrow> ev_OperationID e = k \<longrightarrow>
         fmlookup (d_evidence (repo_d r')) i = Some e)
    \<and> (\<forall>i v. fmlookup (d_verifications (repo_d r)) i = Some v \<longrightarrow> ver_OperationID v = k \<longrightarrow>
         fmlookup (d_verifications (repo_d r')) i = Some v)
    \<and> (\<forall>i v. fmlookup (d_revocations (repo_d r)) i = Some v \<longrightarrow> rvk_OperationID v = k \<longrightarrow>
         fmlookup (d_revocations (repo_d r')) i = Some v)"
proof (cases x)
  case (Inl e)
  with assms(2) have "r' = r" by (auto simp: Collect_def split: if_splits dest: memory.update_failed)
  with assms(3) show ?thesis by simp
next
  case (Inr out)
  from assms(2) Inr have opt: "1 \<le> gc_MaxRows opt" "1 \<le> gc_MaxTasks opt"
    and upd: "memory_Update ctx (collect_tx opt) r = (Inr out, r')"
    by (auto simp: Collect_def split: if_splits)
  from memory.update_ran[OF upd] obtain t where run: "collect_tx opt (begin_tx True r) = (Inr out, t)"
    and r': "r' = commit_tx t r" by blast
  have "integrity (tx_d (begin_tx True r))"
    using kept.reachable_P[OF assms(1)] by (simp add: begin_tx_def)
  from collect_tx_step[OF this opt run] obtain M where
    taken: "taken (collectable opt (repo_d r)) M (repo_d r) (repo_d r')"
    by (auto simp: begin_tx_def commit_tx_def r' collected_def)
  from taken have "kept (d_ops (repo_d r)) (d_ops (repo_d r'))
      (\<lambda>v. od_TaskID (op_Descriptor v) \<in> collectable opt (repo_d r))"
    by (simp add: taken_def)
  with assms(3,4) have stays: "fmlookup (d_ops (repo_d r')) k = Some opn"
    by (auto simp: kept_def)
  note kept_lookup = kept_def[THEN iffD1, THEN conjunct2, rule_format]
  from taken have rows:
    "kept (d_attempts (repo_d r)) (d_attempts (repo_d r')) (\<lambda>v. fmlookup (d_ops (repo_d r')) (att_OperationID v) = None)"
    "kept (d_evidence (repo_d r)) (d_evidence (repo_d r')) (\<lambda>v. fmlookup (d_ops (repo_d r')) (ev_OperationID v) = None)"
    "kept (d_verifications (repo_d r)) (d_verifications (repo_d r'))
      (\<lambda>v. fmlookup (d_ops (repo_d r')) (ver_OperationID v) = None)"
    "kept (d_revocations (repo_d r)) (d_revocations (repo_d r'))
      (\<lambda>v. fmlookup (d_ops (repo_d r')) (rvk_OperationID v) = None)"
    by (simp_all add: taken_def)
  show ?thesis
    using stays rows(1)[THEN kept_lookup] rows(2)[THEN kept_lookup] rows(3)[THEN kept_lookup]
      rows(4)[THEN kept_lookup] by fastforce
qed

lemma collection_spares_witness:
  "fmlookup (d_ops (repo_d demo_running)) ''o'' \<noteq> None
   \<and> fmlookup (d_ops (repo_d (snd (Collect Background demo_gc demo_running)))) ''o''
     = fmlookup (d_ops (repo_d demo_running)) ''o''"
proof -
  have "map_option (\<lambda>p. od_TaskID (op_Descriptor p)) (fmlookup (d_ops (repo_d demo_running)) ''o'') = Some ''t''"
    by code_simp
  then obtain opn where opn: "fmlookup (d_ops (repo_d demo_running)) ''o'' = Some opn"
    "od_TaskID (op_Descriptor opn) = ''t''" by auto
  have "map_option (\<lambda>t. terminalTask (task_State t)) (fmlookup (d_tasks (repo_d demo_running)) ''t'') = Some False"
    by code_simp
  then have "od_TaskID (op_Descriptor opn) \<notin> collectable demo_gc (repo_d demo_running)"
    unfolding opn(2) by (auto simp: collectable_def)
  from collection_spares[OF demo_reachable(4) surjective_pairing opn(1) this] opn(1) show ?thesis by simp
qed

section \<open>Execution\<close>



text \<open>
  C21.  The gate of the dispatch: the runner goes on to start the worker only when the request was valid
  at that moment, the worker supports and accepts the job, the policy allows it, and the offer has been
  committed, so that this attempt, lease, generation and worker have authority over the executing
  operation whose descriptor the job carries, with the acceptance on record.
\<close>

theorem dispatch_commissioned:
  assumes "reachable mj (h_Repo h)" and "fair mj w" and "offer mj w R req h = (Inr (j, c), h')"
  shows "commissioned R req j (repo_d (h_Repo h')) \<and> c = wk_Capabilities (rn_worker R)
    \<and> (\<exists>now j0. validate_request req now = Inr () \<and> j = j0\<lparr>job_Generation := job_Generation j\<rparr>
         \<and> supports c j0 = Inr () \<and> rn_policy R j0 c now = Inr () \<and> wk_Accept (rn_worker R) j0 = Inr ())"
proof -
  have "commissioned R req j (repo_d (h_Repo h'))"
    by (rule offer_commissions[OF assms(3,2) kept.reachable_P[OF assms(1)]])
  moreover from assms(3,2) obtain now j0 replies where "validate_request req now = Inr ()"
    "c = wk_Capabilities (rn_worker R)" "j = j0\<lparr>job_Generation := offered_generation replies\<rparr>"
    "supports c j0 = Inr ()" "rn_policy R j0 c now = Inr ()" "wk_Accept (rn_worker R) j0 = Inr ()"
    by (rule offer_Inr)
  ultimately show ?thesis by auto
qed

lemma demo_offer:
  "\<exists>j c. offer demo_marshal demo_world (demo_runner [demo_grant]) demo_request demo_host
     = (Inr (j, c), snd (offer demo_marshal demo_world (demo_runner [demo_grant]) demo_request demo_host))"
proof -
  have "(case fst (offer demo_marshal demo_world (demo_runner [demo_grant]) demo_request demo_host) of
      Inr x \<Rightarrow> True | _ \<Rightarrow> False)" by code_simp
  then show ?thesis
    by (cases "fst (offer demo_marshal demo_world (demo_runner [demo_grant]) demo_request demo_host)")
       (auto simp: prod_eq_iff)
qed

lemma dispatch_commissioned_witness:
  "\<exists>j. commissioned (demo_runner [demo_grant]) demo_request j
     (repo_d (h_Repo (snd (offer demo_marshal demo_world (demo_runner [demo_grant]) demo_request demo_host))))"
proof -
  from demo_offer obtain j c where "offer demo_marshal demo_world (demo_runner [demo_grant]) demo_request demo_host
     = (Inr (j, c), snd (offer demo_marshal demo_world (demo_runner [demo_grant]) demo_request demo_host))" by blast
  from dispatch_commissioned[OF demo_host_reachable demo_fair this] show ?thesis by blast
qed

text \<open>
  C22.  At most one dispatch per request: once a request has been dispatched, no runner, worker, policy
  or later state of the store, collections included, gets it dispatched again.
\<close>

theorem dispatched_once:
  assumes "reachable mj (h_Repo h)" and "fair mj w" and "offer mj w R req h = (Inr (j, c), h1)"
    and "steps mj (h_Repo h1) (h_Repo h2)" and "fair mj w'"
  shows "\<exists>out e. fst (offer mj w' R' req h2) = Inl (out, e)"
  using offer_twice[OF assms(3,2) kept.reachable_P[OF assms(1)] assms(4,5)]
  by (cases "fst (offer mj w' R' req h2)") (auto simp: prod_eq_iff)

lemma dispatched_once_witness:
  "\<exists>out e. fst (offer demo_marshal demo_world (demo_runner [demo_grant]) demo_request
     (snd (offer demo_marshal demo_world (demo_runner [demo_grant]) demo_request demo_host))) = Inl (out, e)"
proof -
  from demo_offer obtain j c where "offer demo_marshal demo_world (demo_runner [demo_grant]) demo_request demo_host
     = (Inr (j, c), snd (offer demo_marshal demo_world (demo_runner [demo_grant]) demo_request demo_host))" by blast
  from dispatched_once[OF demo_host_reachable demo_fair this steps_refl demo_fair] show ?thesis .
qed

text \<open>
  C23.  A reported outcome is what it says: the output is within the limit of the request, the report
  carries its digest, the store holds the worker's report with that digest, and when it was applied the
  operation is in verification, not yet succeeded.
\<close>

theorem reported_outcome:
  assumes "reachable mj (h_Repo h)" and "fair mj w" and "Execute mj w R req h = ((out, err), h')"
    and "out_Disposition out = Reported"
  shows "err = None \<and> int (length (out_Output out)) \<le> lim_OutputBytes (rq_Limits req)
    \<and> rep_Digest (out_Report out) = digest (out_Output out)
    \<and> (\<exists>e. fmlookup (d_evidence (repo_d (h_Repo h'))) (rq_AttemptID req @ ''/result'') = Some e
         \<and> ev_Kind e = KindWorkerReport \<and> ev_Digest e = digest (out_Output out)
         \<and> ev_SourceActorID e = cap_Worker (wk_Capabilities (rn_worker R))
         \<and> ev_OperationID e = rq_OperationID req \<and> ev_AttemptID e = rq_AttemptID req)
    \<and> (out_Applied out \<longrightarrow> (\<exists>opn. fmlookup (d_ops (repo_d (h_Repo h'))) (rq_OperationID req) = Some opn
         \<and> op_State opn = OperationVerifying))"
proof -
  from assms(3,4,2) kept.reachable_P[OF assms(1)] obtain j where j: "job_Request j = req"
    "job_Worker j = cap_Worker (wk_Capabilities (rn_worker R))" "od_ID (job_Descriptor j) = rq_OperationID req"
    and "err = None" and r: "reported j (out_Report out) (out_Applied out) (repo_d (h_Repo h'))"
    and "within (rq_Limits req) \<lparr>cl_Output = out_Output out, cl_Units = 0\<rparr>"
    and "rep_Digest (out_Report out) = digest (out_Output out)"
    by (rule Execute_Reported)
  then show ?thesis unfolding reported_def j by (auto simp: within_def)
qed

lemma demo_executed:
  "\<exists>out. Execute demo_marshal demo_world (demo_runner [demo_grant]) demo_request demo_host
     = ((out, None), snd (Execute demo_marshal demo_world (demo_runner [demo_grant]) demo_request demo_host))
     \<and> out_Disposition out = Reported \<and> out_Applied out"
proof -
  have "(case fst (Execute demo_marshal demo_world (demo_runner [demo_grant]) demo_request demo_host) of
      (out, None) \<Rightarrow> out_Disposition out = Reported \<and> out_Applied out | _ \<Rightarrow> False)" by code_simp
  then show ?thesis
    by (cases "fst (Execute demo_marshal demo_world (demo_runner [demo_grant]) demo_request demo_host)")
       (auto simp: prod_eq_iff split: option.splits)
qed

lemma reported_outcome_witness:
  "\<exists>opn. fmlookup (d_ops (repo_d (h_Repo (snd
     (Execute demo_marshal demo_world (demo_runner [demo_grant]) demo_request demo_host))))) ''o'' = Some opn
     \<and> op_State opn = OperationVerifying"
proof -
  from demo_executed obtain out where
    run: "Execute demo_marshal demo_world (demo_runner [demo_grant]) demo_request demo_host
      = ((out, None), snd (Execute demo_marshal demo_world (demo_runner [demo_grant]) demo_request demo_host))"
    and out: "out_Disposition out = Reported" "out_Applied out" by blast
  from reported_outcome[OF demo_host_reachable demo_fair run out(1)] out(2) show ?thesis by (simp add: demo_request_def)
qed

text \<open>
  C24.  A loss that was recorded is complete: when a dispatched run ends without a report and without an
  error, the attempt is revoked and has no authority left, and the operation is in "unknown outcome".
\<close>

theorem lost_outcome:
  assumes "reachable mj (h_Repo h)" and "fair mj w" and "Execute mj w R req h = ((out, None), h')"
    and "out_Disposition out = Unknown"
  shows "fmlookup (d_revocations (repo_d (h_Repo h'))) (rq_AttemptID req) \<noteq> None
    \<and> (\<exists>opn. fmlookup (d_ops (repo_d (h_Repo h'))) (rq_OperationID req) = Some opn
         \<and> op_State opn = OperationUnknownOutcome)
    \<and> (\<forall>ctx ident lease gen owner. \<exists>e. fst (store_CheckActiveAttemptContext ctx ident (rq_AttemptID req) lease gen owner
         (h_Repo h')) = Inl e)"
proof -
  from assms(3,4,2) kept.reachable_P[OF assms(1)] obtain j where j: "job_Request j = req"
    "od_ID (job_Descriptor j) = rq_OperationID req" and a: "abandoned j (repo_d (h_Repo h'))"
    by (rule Execute_Unknown)
  have "\<exists>e. fst (store_CheckActiveAttemptContext ctx ident (rq_AttemptID req) lease gen owner (h_Repo h')) = Inl e"
    for ctx ident lease gen owner
    using abandoned_no_authority[OF a, unfolded j]
      checkActive_store(1)[of ctx ident "rq_AttemptID req" lease gen owner "h_Repo h'"]
    by (cases "fst (store_CheckActiveAttemptContext ctx ident (rq_AttemptID req) lease gen owner (h_Repo h'))") auto
  then show ?thesis using a unfolding abandoned_def j by blast
qed

definition demo_late :: world where
  "demo_late = demo_world\<lparr>o_Done := \<lambda>n. if n < 8 then None else Some DeadlineExceeded\<rparr>"

lemma lost_outcome_witness:
  "fmlookup (d_revocations (repo_d (h_Repo (snd
     (Execute demo_marshal demo_late (demo_runner [demo_grant]) demo_request demo_host))))) ''a'' \<noteq> None"
proof -
  have "(case fst (Execute demo_marshal demo_late (demo_runner [demo_grant]) demo_request demo_host) of
      (out, None) \<Rightarrow> out_Disposition out = Unknown | _ \<Rightarrow> False)" by code_simp
  then obtain out where run: "Execute demo_marshal demo_late (demo_runner [demo_grant]) demo_request demo_host
      = ((out, None), snd (Execute demo_marshal demo_late (demo_runner [demo_grant]) demo_request demo_host))"
    and out: "out_Disposition out = Unknown"
    by (cases "fst (Execute demo_marshal demo_late (demo_runner [demo_grant]) demo_request demo_host)")
       (auto simp: prod_eq_iff split: option.splits)
  have "fair demo_marshal demo_late" by (simp add: demo_late_def fair_def demo_world_def works_refl)
  from lost_outcome[OF demo_host_reachable this run out] show ?thesis by (simp add: demo_request_def)
qed

text \<open>
  C25.  Under the exact policy nothing runs without a grant that names it: the policy reference, worker,
  provider, model, action, target, effect and data class are those of a grant that allows an external
  provider if this is one, outlives the deadline, and bounds the limits.
\<close>

theorem dispatch_granted:
  assumes "fair mj w" and "rn_policy R = ExactPolicy_Check grants" and "offer mj w R req h = (Inr (j, c), h')"
  shows "\<exists>g. g \<in> set grants \<and> gt_PolicyRef g = od_AuthorizationPolicyRef (job_Descriptor j)
    \<and> gt_Worker g = job_Worker j \<and> gt_Provider g = rq_Provider req \<and> gt_Model g = rq_Model req
    \<and> gt_Action g = od_Name (job_Descriptor j) \<and> gt_Target g = od_TargetRef (job_Descriptor j)
    \<and> gt_Effect g = od_EffectClass (job_Descriptor j) \<and> gt_DataClass g = rq_DataClass req
    \<and> (cap_External c \<longrightarrow> gt_AllowExternal g) \<and> rq_Deadline req \<le> gt_Expires g
    \<and> limits_fits (rq_Limits req) (gt_Limits g)"
proof -
  from assms(3,1) obtain now j0 replies where j0: "job_Request j0 = req"
    "j = j0\<lparr>job_Generation := offered_generation replies\<rparr>" and pol: "rn_policy R j0 c now = Inr ()"
    by (rule offer_Inr)
  from pol obtain g where "g \<in> set grants" "grant_matches j0 c now g"
    by (auto simp: assms(2) ExactPolicy_Check_cases split: if_splits)
  then show ?thesis by (intro exI[of _ g]) (auto simp: grant_matches_def j0)
qed

lemma dispatch_granted_witness:
  "\<exists>g. g \<in> set [demo_grant] \<and> gt_Action g = ''analyze'' \<and> rq_Deadline demo_request \<le> gt_Expires g"
proof -
  from demo_offer obtain j c where run: "offer demo_marshal demo_world (demo_runner [demo_grant]) demo_request demo_host
     = (Inr (j, c), snd (offer demo_marshal demo_world (demo_runner [demo_grant]) demo_request demo_host))" by blast
  have "rn_policy (demo_runner [demo_grant]) = ExactPolicy_Check [demo_grant]" by (simp add: demo_runner_def)
  from dispatch_granted[OF demo_fair this run] obtain g where "g \<in> set [demo_grant]"
    "rq_Deadline demo_request \<le> gt_Expires g" by blast
  moreover from this(1) have "gt_Action g = ''analyze''" by (simp add: demo_grant_def)
  ultimately show ?thesis by blast
qed


text \<open>
  C27.  The two reference providers behind the local worker do what their names say, within the limits of
  the request, whatever the heartbeats and the context answer.
\<close>

theorem local_claims:
  assumes "(P, f) \<in> {(EchoProvider, \<lambda>s. s), (DigestProvider, sha256_hex)}"
    and "run_script beat w (Local_Run \<lparr>loc_actor = a, loc_provider = P\<rparr> j) n h = ((Inr cl, n'), h')"
  shows "cl_Output cl = f (rq_Input (job_Request j)) \<and> within (rq_Limits (job_Request j)) cl
    \<and> supports (Local_Capabilities \<lparr>loc_actor = a, loc_provider = P\<rparr>) j = Inr ()"
proof -
  have sup: "supports (Local_Capabilities \<lparr>loc_actor = a, loc_provider = P\<rparr>) j = Inr ()"
    using assms(2) by (auto simp: Local_Run_def Local_Accept_def retI_eq split: sum.splits)
  from assms(1) consider "P = EchoProvider" "f = (\<lambda>s. s)" | "P = DigestProvider" "f = sha256_hex" by blast
  then show ?thesis
  proof cases
    case 1
    have "prov_Generate EchoProvider r = AskCtx (\<lambda>e. Returns (echo_claim e r))" for r
      by (simp add: EchoProvider_def EchoProvider_Generate_def)
    with Local_Run_claim[OF assms(2), of echo_claim] sup show ?thesis by (auto simp: 1 dest!: echo_claim_Inr)
  next
    case 2
    have "prov_Generate DigestProvider r = AskCtx (\<lambda>e. Returns (digest_claim e r))" for r
      by (simp add: DigestProvider_def DigestProvider_Generate_def)
    with Local_Run_claim[OF assms(2), of digest_claim] sup show ?thesis by (auto simp: 2 dest!: digest_claim_Inr)
  qed
qed

definition demo_job :: Job where
  "demo_job = \<lparr>job_Request = demo_request, job_Descriptor = demo_analysis, job_Worker = ''w'', job_Generation = 1\<rparr>"

definition demo_local_run :: "(Claim result \<times> nat) \<times> host" where
  "demo_local_run = run_script (\<lambda>n. retI (Inr (), n)) demo_world
     (Local_Run \<lparr>loc_actor = ''w'', loc_provider = EchoProvider\<rparr> demo_job) 0 demo_host"

lemma local_claims_witness:
  "\<exists>cl. fst (fst demo_local_run) = Inr cl \<and> cl_Output cl = ''R5 synthetic reference'' \<and> within demo_limits cl"
proof -
  have "(case fst (fst demo_local_run) of Inr cl \<Rightarrow> True | _ \<Rightarrow> False)" by code_simp
  then obtain cl where cl: "fst (fst demo_local_run) = Inr cl" by (auto split: sum.splits)
  then have "run_script (\<lambda>n. retI (Inr (), n)) demo_world (Local_Run \<lparr>loc_actor = ''w'', loc_provider = EchoProvider\<rparr> demo_job)
      0 demo_host = ((Inr cl, snd (fst demo_local_run)), snd demo_local_run)"
    by (simp add: demo_local_run_def prod_eq_iff)
  from local_claims[OF _ this, of "\<lambda>s. s"] cl show ?thesis by (simp add: demo_job_def demo_request_def)
qed





end
